(* ===== verification/HcicsPrelude.thy ===== *)
theory HcicsPrelude
  imports Main "HOL-Library.Word" "HOL-Library.State_Monad" "HOL-Library.Monad_Syntax"
begin

text \<open>
  The vocabulary every component shares: the machine integers of the firmware, the RT-Thread
  error codes, the boundary to the kernel and the hardware, the state monad the C functions are
  written in, and the small calculus (\<open>wp\<close>, \<open>preserves\<close>) their lemmas are proved with.

  All C functions act on one global state. It starts with the record \<open>hw\<close> below; each component
  extends the record with its own static variables, so a function of one component runs
  unchanged on the state of every later one.
\<close>

unbundle bit_operations_syntax

section \<open>Machine integers\<close>

text \<open>
  Unsigned C integers are words. Signed 16- and 32-bit integers are HOL integers: C computes in
  \<open>int\<close> after the integer promotions and truncates at the cast or assignment, which \<open>i8\<close>,
  \<open>i16\<close> and \<open>i32\<close> write out (two's complement truncation, what the compiler does).
\<close>

type_synonym u8 = "8 word"
type_synonym u16 = "16 word"
type_synonym u32 = "32 word"

definition i8 :: "int \<Rightarrow> int" where
  "i8 x = signed_take_bit 7 x"

definition i16 :: "int \<Rightarrow> int" where
  "i16 x = signed_take_bit 15 x"

definition i32 :: "int \<Rightarrow> int" where
  "i32 x = signed_take_bit 31 x"

definition is_i16 :: "int \<Rightarrow> bool" where
  "is_i16 x \<longleftrightarrow> - 32768 \<le> x \<and> x \<le> 32767"

definition is_i32 :: "int \<Rightarrow> bool" where
  "is_i32 x \<longleftrightarrow> - 2147483648 \<le> x \<and> x \<le> 2147483647"

lemma i16_id: "is_i16 x \<Longrightarrow> i16 x = x"
  by (simp add: i16_def is_i16_def signed_take_bit_int_eq_self)

lemma i32_id: "is_i32 x \<Longrightarrow> i32 x = x"
  by (simp add: i32_def is_i32_def signed_take_bit_int_eq_self)

lemma is_i16_i16 [simp]: "is_i16 (i16 x)"
  using signed_take_bit_int_greater_eq_minus_exp [of 15 x] signed_take_bit_int_less_exp [of 15 x]
  by (simp add: i16_def is_i16_def)

lemma is_i32_i32 [simp]: "is_i32 (i32 x)"
  using signed_take_bit_int_greater_eq_minus_exp [of 31 x] signed_take_bit_int_less_exp [of 31 x]
  by (simp add: i32_def is_i32_def)

text \<open>Bytes of wider words.\<close>

lemma unat_u8 [simp]: "unat (b :: u8) < 256" using unsigned_less [of b] by simp
lemma unat_u16 [simp]: "unat (b :: u16) < 65536" using unsigned_less [of b] by simp
lemma unat_u32 [simp]: "unat (b :: u32) < 4294967296" using unsigned_less [of b] by simp

lemma unat_drop_bit: "unat (drop_bit k w) = unat w div 2 ^ k" for w :: "'a::len word"
  unfolding unat_drop_bit_eq by (rule drop_bit_eq_div)

lemma unat_ucast_u8: "unat (ucast w :: u8) = unat w mod 256" for w :: "'a::len word"
  by (simp add: unsigned_ucast_eq take_bit_eq_mod)

lemma and_0xFF: "w AND 0xFF = take_bit 8 w" for w :: "'a::len word"
  by (simp add: take_bit_eq_mask mask_eq_exp_minus_1)

lemma unat_byte_of: "unat (ucast (drop_bit k w AND 0xFF) :: u8) = unat w div 2 ^ k mod 256"
  for w :: "'a::len word"
  by (simp only: and_0xFF unat_ucast_u8 unsigned_take_bit_eq unat_drop_bit_eq) (simp add: take_bit_eq_mod drop_bit_eq_div)

lemma unat_low_byte: "unat (ucast (w AND 0xFF) :: u8) = unat w mod 256" for w :: "'a::len word"
  using unat_byte_of [of 0 w] by simp

lemma numeral_power_eqs:
  "(2::nat) ^ 24 = 16777216" "(2::nat) ^ 16 = 65536" "(2::nat) ^ 8 = 256"
  by simp_all

lemma nat_two_bytes: "n < 65536 \<Longrightarrow> n div 256 mod 256 * 256 + n mod 256 = (n::nat)"
  using div_mult_mod_eq [of n 256] by (simp add: less_mult_imp_div_less)

lemma nat_four_bytes:
  assumes "n < 4294967296"
  shows "n div 16777216 mod 256 * 16777216 + n div 65536 mod 256 * 65536 +
         n div 256 mod 256 * 256 + n mod 256 = (n::nat)"
proof -
  have e: "n div 65536 = n div 256 div 256" "n div 16777216 = n div 256 div 256 div 256"
    by (simp_all flip: div_mult2_eq)
  have "n div 256 div 256 div 256 < 256"
    using assms by (simp add: less_mult_imp_div_less flip: div_mult2_eq)
  then have "n div 256 div 256 div 256 mod 256 = n div 256 div 256 div 256"
    by (rule mod_less)
  then show ?thesis
    unfolding e
    using div_mult_mod_eq [of n 256] div_mult_mod_eq [of "n div 256" 256]
      div_mult_mod_eq [of "n div 256 div 256" 256] by linarith
qed

section \<open>RT-Thread error codes\<close>

text \<open>\<open>rt_err_t\<close> is a signed integer: 0, or the negation of one of the codes of \<open>rtdef.h\<close>.\<close>

type_synonym rt_err = int

definition RT_EOK :: rt_err where "RT_EOK = 0"
definition RT_ERROR :: rt_err where "RT_ERROR = 1"
definition RT_ETIMEOUT :: rt_err where "RT_ETIMEOUT = 2"
definition RT_EFULL :: rt_err where "RT_EFULL = 3"
definition RT_ENOMEM :: rt_err where "RT_ENOMEM = 5"
definition RT_ENOSYS :: rt_err where "RT_ENOSYS = 6"
definition RT_EBUSY :: rt_err where "RT_EBUSY = 7"
definition RT_EINTR :: rt_err where "RT_EINTR = 9"
definition RT_EINVAL :: rt_err where "RT_EINVAL = 10"

lemmas rt_err_defs = RT_EOK_def RT_ERROR_def RT_ETIMEOUT_def RT_EFULL_def RT_ENOMEM_def
  RT_ENOSYS_def RT_EBUSY_def RT_EINTR_def RT_EINVAL_def

lemma rt_err_distinct [simp]:
  "- RT_ERROR \<noteq> RT_EOK" "- RT_ETIMEOUT \<noteq> RT_EOK" "- RT_EFULL \<noteq> RT_EOK" "- RT_ENOMEM \<noteq> RT_EOK"
  "- RT_ENOSYS \<noteq> RT_EOK" "- RT_EBUSY \<noteq> RT_EOK" "- RT_EINTR \<noteq> RT_EOK" "- RT_EINVAL \<noteq> RT_EOK"
  by (simp_all add: rt_err_defs)

definition PIN_LOW :: int where "PIN_LOW = 0"
definition PIN_HIGH :: int where "PIN_HIGH = 1"

lemmas pin_level_defs = PIN_LOW_def PIN_HIGH_def

text \<open>The C conditional \<open>c ? PIN_HIGH : PIN_LOW\<close>.\<close>

definition pin_level :: "bool \<Rightarrow> int" where
  "pin_level b = (if b then PIN_HIGH else PIN_LOW)"

lemma pin_level_eq_HIGH [simp]: "(pin_level b = PIN_HIGH) = b"
  by (simp add: pin_level_def pin_level_defs)

text \<open>\<open>GET_PIN(port, pin)\<close>: 16 pins per port, ports numbered from A.\<close>

definition GET_PIN :: "char \<Rightarrow> int \<Rightarrow> int" where
  "GET_PIN port pin = 16 * (int (of_char port) - 65) + pin"

section \<open>The kernel and hardware boundary\<close>

text \<open>
  Every call that leaves the application is an event of type \<open>hw_call\<close>, appended to the
  \<open>trace\<close> (newest first). What the kernel, a driver or a device returns is unknown: it is the
  value of \<open>answer\<close> (a status or a level) or \<open>rx\<close> (received bytes) at the whole history of
  calls, so any device behaviour, also one that depends on what was written to it, is some pair
  of functions. \<open>clock\<close> is \<open>rt_tick\<close>.
\<close>

datatype (plugins only: code size) hw_call =
    Pin_Mode int
  | Pin_Write int int
  | Pin_Read int
  | Pin_Attach_Irq int
  | Pin_Detach_Irq int
  | Pin_Irq_Enable int bool
  | Us_Delay u32
  | M_Delay u32
  | Irq_Disable
  | Irq_Restore
  | Pwm_Set string int u32 u32
  | Pwm_Enable string int
  | Pwm_Disable string int
  | Dev_Find string
  | Dev_Open string
  | Dev_Close string
  | Dev_Control string nat
  | Dev_Read string
  | Dev_Register string
  | I2c_Transfer "u8 list" nat
  | Motor_Output int int
  | Mutex_Init string
  | Mutex_Take string
  | Mutex_Release string
  | Sem_Init string
  | Sem_Take string
  | Sem_Release string
  | Mq_Create string
  | Mq_Send nat
  | Mq_Recv
  | Thread_Create string
  | Thread_Startup string
  | Thread_Delete string
  | Wlan_Init_Wait u32
  | Wlan_Is_Ready
  | Wlan_Is_Connected
  | Wlan_Autoreconnect
  | Wlan_Connect
  | Sock_Create
  | Sock_Bind int
  | Sock_Close int
  | Sock_Recv int
  | Sock_Timeout int
  | Sock_Send int string int u16 u32

record hw =
  clock :: u32
  trace :: "hw_call list"
  answer :: "hw_call list \<Rightarrow> int"
  rx :: "hw_call list \<Rightarrow> u8 list"

section \<open>The state monad\<close>

abbreviation ret :: "'a \<Rightarrow> ('s, 'a) state" where
  "ret \<equiv> State_Monad.return"

definition gets :: "('s \<Rightarrow> 'a) \<Rightarrow> ('s, 'a) state" where
  "gets f = State (\<lambda>s. (f s, s))"

definition modify :: "('s \<Rightarrow> 's) \<Rightarrow> ('s, unit) state" where
  "modify f = State (\<lambda>s. ((), f s))"

lemma run_gets [simp]: "run_state (gets f) s = (f s, s)"
  by (simp add: gets_def)

lemma run_modify [simp]: "run_state (modify f) s = ((), f s)"
  by (simp add: modify_def)

definition hw_do :: "hw_call \<Rightarrow> ('a hw_scheme, int) state" where
  "hw_do c = State (\<lambda>s. (answer s (c # trace s), s\<lparr>trace := c # trace s\<rparr>))"

definition hw_rx :: "hw_call \<Rightarrow> ('a hw_scheme, int \<times> u8 list) state" where
  "hw_rx c = State (\<lambda>s. ((answer s (c # trace s), rx s (c # trace s)), s\<lparr>trace := c # trace s\<rparr>))"

definition hw_out :: "hw_call \<Rightarrow> ('a hw_scheme, unit) state" where
  "hw_out c = State (\<lambda>s. ((), s\<lparr>trace := c # trace s\<rparr>))"

lemma run_hw_do [simp]:
  "run_state (hw_do c) s = (answer s (c # trace s), s\<lparr>trace := c # trace s\<rparr>)"
  by (simp add: hw_do_def)

lemma run_hw_rx [simp]:
  "run_state (hw_rx c) s =
     ((answer s (c # trace s), rx s (c # trace s)), s\<lparr>trace := c # trace s\<rparr>)"
  by (simp add: hw_rx_def)

lemma run_hw_out [simp]: "run_state (hw_out c) s = ((), s\<lparr>trace := c # trace s\<rparr>)"
  by (simp add: hw_out_def)

text \<open>
  A chain of C conditions \<open>(f() != RT_EOK) || (g() != RT_EOK) || \<dots>\<close>: the calls run in order
  and stop at the first that fails.
\<close>

fun all_ok :: "('s, rt_err) state list \<Rightarrow> ('s, bool) state" where
  "all_ok [] = ret True"
| "all_ok (m # ms) = do { r \<leftarrow> m; if r = RT_EOK then all_ok ms else ret False }"

section \<open>Time\<close>

definition RT_TICK_PER_SECOND :: int where "RT_TICK_PER_SECOND = 1000"

definition rt_tick_from_millisecond :: "int \<Rightarrow> u32" where
  "rt_tick_from_millisecond ms =
     (if ms < 0 then 0xFFFFFFFF
      else word_of_int (RT_TICK_PER_SECOND * (ms div 1000)) +
           word_of_int ((RT_TICK_PER_SECOND * (ms mod 1000) + 999) div 1000))"

text \<open>\<open>(rt_uint32_t)(((rt_uint64_t)tick * 1000ULL) / RT_TICK_PER_SECOND)\<close>.\<close>

definition tick_to_ms :: "u32 \<Rightarrow> u32" where
  "tick_to_ms t = word_of_int ((uint t * 1000) div RT_TICK_PER_SECOND)"

lemma tick_to_ms [simp]: "tick_to_ms t = t"
  by (simp add: tick_to_ms_def RT_TICK_PER_SECOND_def)

lemma rt_tick_from_millisecond_eq:
  assumes "0 \<le> ms" shows "rt_tick_from_millisecond ms = word_of_int ms"
proof -
  have "(1000 * (ms mod 1000) + 999) div 1000 = ms mod 1000"
    by (simp add: div_add1_eq)
  then have "rt_tick_from_millisecond ms =
      word_of_int (1000 * (ms div 1000)) + word_of_int (ms mod 1000)"
    using assms by (simp add: rt_tick_from_millisecond_def RT_TICK_PER_SECOND_def)
  also have "\<dots> = word_of_int (1000 * (ms div 1000) + ms mod 1000)"
    by (simp only: of_int_add)
  finally show ?thesis by (simp only: mult_div_mod_eq)
qed

definition rt_tick_get :: "('a hw_scheme, u32) state" where
  "rt_tick_get = gets clock"

text \<open>
  \<open>rt_thread_mdelay\<close> sleeps for the ticks of its argument; the lateness of the wake-up and what
  the other threads do meanwhile is the business of the interference of the calling component.
\<close>

definition rt_thread_mdelay :: "u32 \<Rightarrow> ('a hw_scheme, unit) state" where
  "rt_thread_mdelay ms = do {
     hw_out (M_Delay ms);
     modify (\<lambda>s. s\<lparr>clock := clock s + rt_tick_from_millisecond (sint ms)\<rparr>) }"

definition now_ms :: "('a hw_scheme, u32) state" where
  "now_ms = do { t \<leftarrow> rt_tick_get; ret (tick_to_ms t) }"

lemma run_now_ms [simp]: "run_state now_ms s = (clock s, s)"
  by (simp add: now_ms_def rt_tick_get_def)

lemma run_rt_tick_get [simp]: "run_state rt_tick_get s = (clock s, s)"
  by (simp add: rt_tick_get_def)

lemma run_rt_thread_mdelay:
  "run_state (rt_thread_mdelay ms) s =
     ((), s\<lparr>trace := M_Delay ms # trace s, clock := clock s + rt_tick_from_millisecond (sint ms)\<rparr>)"
  by (simp add: rt_thread_mdelay_def)

section \<open>Weakest preconditions and preserved invariants\<close>

text \<open>
  \<open>wp m Q s\<close>: running \<open>m\<close> in \<open>s\<close> ends in a result and a state with \<open>Q\<close>. The equations in
  the collection \<open>wp\<close> compute it through the monad's operations.
\<close>

named_theorems wp "weakest preconditions of the monad's operations"
named_theorems pres "operations that preserve an invariant"

definition wp :: "('s, 'a) state \<Rightarrow> ('a \<Rightarrow> 's \<Rightarrow> bool) \<Rightarrow> 's \<Rightarrow> bool" where
  "wp m Q s = (case run_state m s of (a, t) \<Rightarrow> Q a t)"

lemma wp_ret [wp]: "wp (ret a) Q s = Q a s"
  by (simp add: wp_def)

lemma wp_bind [wp]: "wp (m \<bind> f) Q s = wp m (\<lambda>a. wp (f a) Q) s"
  by (simp add: wp_def split: prod.split)

lemma wp_gets [wp]: "wp (gets f) Q s = Q (f s) s"
  by (simp add: wp_def)

lemma wp_modify [wp]: "wp (modify f) Q s = Q () (f s)"
  by (simp add: wp_def)

lemma wp_hw_do [wp]:
  "wp (hw_do c) Q s = Q (answer s (c # trace s)) (s\<lparr>trace := c # trace s\<rparr>)"
  by (simp add: wp_def)

lemma wp_hw_rx [wp]:
  "wp (hw_rx c) Q s = Q (answer s (c # trace s), rx s (c # trace s)) (s\<lparr>trace := c # trace s\<rparr>)"
  by (simp add: wp_def)

lemma wp_hw_out [wp]: "wp (hw_out c) Q s = Q () (s\<lparr>trace := c # trace s\<rparr>)"
  by (simp add: wp_def)

lemma wp_now_ms [wp]: "wp now_ms Q s = Q (clock s) s"
  by (simp add: wp_def)

lemma wp_rt_tick_get [wp]: "wp rt_tick_get Q s = Q (clock s) s"
  by (simp add: wp_def)

lemma wp_if [wp]: "wp (if b then m else n) Q s = (if b then wp m Q s else wp n Q s)"
  by simp

lemma wp_conseq: "wp m Q s \<Longrightarrow> (\<And>a t. Q a t \<Longrightarrow> R a t) \<Longrightarrow> wp m R s"
  by (auto simp: wp_def)

lemma wp_conj: "wp m (\<lambda>a t. Q a t \<and> R a t) s = (wp m Q s \<and> wp m R s)"
  by (auto simp: wp_def split: prod.split)

lemma wp_run: "wp m Q s = Q (fst (run_state m s)) (snd (run_state m s))"
  by (simp add: wp_def split: prod.split)

lemma wpI: "run_state m s = (a, t) \<Longrightarrow> Q a t \<Longrightarrow> wp m Q s"
  by (simp add: wp_def)

lemma wpD: "wp m Q s \<Longrightarrow> run_state m s = (a, t) \<Longrightarrow> Q a t"
  by (simp add: wp_def)

text \<open>
  The rules of the collection \<open>vc\<close> prove a \<open>wp\<close> step by step, \<open>by (intro vc)\<close>, and forget
  what the hardware answered: every answer is possible. An operation joins the collection with a
  lemma that says what its callers have to know of its results.
\<close>

named_theorems vc "introduction rules that verify a program step by step"

lemma vc_ret [vc]: "Q a s \<Longrightarrow> wp (ret a) Q s"
  by (simp add: wp)

lemma vc_bind [vc]: "wp m (\<lambda>a. wp (f a) Q) s \<Longrightarrow> wp (m \<bind> f) Q s"
  by (simp add: wp)

lemma vc_gets [vc]: "Q (f s) s \<Longrightarrow> wp (gets f) Q s"
  by (simp add: wp)

lemma vc_modify [vc]: "Q () (f s) \<Longrightarrow> wp (modify f) Q s"
  by (simp add: wp)

lemma vc_hw_do [vc]: "(\<And>v. Q v (s\<lparr>trace := c # trace s\<rparr>)) \<Longrightarrow> wp (hw_do c) Q s"
  by (simp add: wp)

lemma vc_hw_rx [vc]: "(\<And>v bs. Q (v, bs) (s\<lparr>trace := c # trace s\<rparr>)) \<Longrightarrow> wp (hw_rx c) Q s"
  by (simp add: wp)

lemma vc_hw_out [vc]: "Q () (s\<lparr>trace := c # trace s\<rparr>) \<Longrightarrow> wp (hw_out c) Q s"
  by (simp add: wp)

lemma vc_now_ms [vc]: "Q (clock s) s \<Longrightarrow> wp now_ms Q s"
  by (simp add: wp)

lemma vc_rt_tick_get [vc]: "Q (clock s) s \<Longrightarrow> wp rt_tick_get Q s"
  by (simp add: wp)

lemma vc_mdelay [vc]:
  "Q () (s\<lparr>trace := M_Delay ms # trace s, clock := clock s + rt_tick_from_millisecond (sint ms)\<rparr>) \<Longrightarrow>
     wp (rt_thread_mdelay ms) Q s"
  by (simp add: wp_def run_rt_thread_mdelay)

lemma vc_if [vc]:
  "(b \<Longrightarrow> wp m Q s) \<Longrightarrow> (\<not> b \<Longrightarrow> wp n Q s) \<Longrightarrow> wp (if b then m else n) Q s"
  by simp

lemma vc_let [vc]: "wp (f v) Q s \<Longrightarrow> wp (let x = v in f x) Q s"
  by simp

lemma vc_case_prod [vc]:
  "(\<And>x y. p = (x, y) \<Longrightarrow> wp (f x y) Q s) \<Longrightarrow> wp (case p of (x, y) \<Rightarrow> f x y) Q s"
  by (simp split: prod.split)

lemma vc_case_option [vc]:
  "(v = None \<Longrightarrow> wp m Q s) \<Longrightarrow> (\<And>x. v = Some x \<Longrightarrow> wp (f x) Q s) \<Longrightarrow>
     wp (case v of None \<Rightarrow> m | Some x \<Rightarrow> f x) Q s"
  by (simp split: option.split)

lemma wp_stateI: "wp m Q s \<Longrightarrow> Q (fst (run_state m s)) (snd (run_state m s))"
  by (simp add: wp_run)

text \<open>\<open>preserves I m\<close>: \<open>m\<close> takes every state with \<open>I\<close> to a state with \<open>I\<close>.\<close>

definition preserves :: "('s \<Rightarrow> bool) \<Rightarrow> ('s, 'a) state \<Rightarrow> bool" where
  "preserves I m \<longleftrightarrow> (\<forall>s. I s \<longrightarrow> I (snd (run_state m s)))"

lemma preservesD: "preserves I m \<Longrightarrow> I s \<Longrightarrow> I (snd (run_state m s))"
  by (simp add: preserves_def)

lemma preserves_wp: "preserves I m \<longleftrightarrow> (\<forall>s. I s \<longrightarrow> wp m (\<lambda>_. I) s)"
  by (simp add: preserves_def wp_run)

lemma preserves_ret [pres]: "preserves I (ret a)"
  by (simp add: preserves_def)

lemma preserves_gets [pres]: "preserves I (gets f)"
  by (simp add: preserves_def)

lemma preserves_now_ms [pres]: "preserves I now_ms"
  by (simp add: preserves_def)

lemma preserves_rt_tick_get [pres]: "preserves I rt_tick_get"
  by (simp add: preserves_def)

lemma preserves_bind [pres]:
  "preserves I m \<Longrightarrow> (\<And>a. preserves I (f a)) \<Longrightarrow> preserves I (m \<bind> f)"
  by (simp add: preserves_def split: prod.split) (metis snd_conv)

lemma preserves_modify: "(\<And>s. I s \<Longrightarrow> I (f s)) \<Longrightarrow> preserves I (modify f)"
  by (simp add: preserves_def)

lemma preserves_hw_do:
  "(\<And>s. I s \<Longrightarrow> I (s\<lparr>trace := c # trace s\<rparr>)) \<Longrightarrow> preserves I (hw_do c)"
  by (simp add: preserves_def)

lemma preserves_hw_rx:
  "(\<And>s. I s \<Longrightarrow> I (s\<lparr>trace := c # trace s\<rparr>)) \<Longrightarrow> preserves I (hw_rx c)"
  by (simp add: preserves_def)

lemma preserves_hw_out:
  "(\<And>s. I s \<Longrightarrow> I (s\<lparr>trace := c # trace s\<rparr>)) \<Longrightarrow> preserves I (hw_out c)"
  by (simp add: preserves_def)

lemma preserves_if [pres]:
  "(b \<Longrightarrow> preserves I m) \<Longrightarrow> (\<not> b \<Longrightarrow> preserves I n) \<Longrightarrow> preserves I (if b then m else n)"
  by simp

lemma preserves_case_option [pres]:
  "preserves I m \<Longrightarrow> (\<And>x. preserves I (f x)) \<Longrightarrow>
     preserves I (case v of None \<Rightarrow> m | Some x \<Rightarrow> f x)"
  by (simp split: option.split)

lemma preserves_case_prod [pres]:
  "(\<And>x y. preserves I (f x y)) \<Longrightarrow> preserves I (case p of (x, y) \<Rightarrow> f x y)"
  by (simp split: prod.split)

lemma preserves_let [pres]: "(\<And>x. preserves I (f x)) \<Longrightarrow> preserves I (let x = v in f x)"
  by simp

lemma preserves_all_ok [pres]:
  "(\<And>m. m \<in> set ms \<Longrightarrow> preserves I m) \<Longrightarrow> preserves I (all_ok ms)"
  by (induction ms) (auto intro!: pres)

text \<open>The calls made between two states, in the order they were made.\<close>

definition new_calls :: "'a hw_scheme \<Rightarrow> 'a hw_scheme \<Rightarrow> hw_call list" where
  "new_calls s t = rev (take (length (trace t) - length (trace s)) (trace t))"

lemma new_calls_append [simp]: "trace t = cs @ trace s \<Longrightarrow> new_calls s t = rev cs"
  by (simp add: new_calls_def)

text \<open>
  \<open>extends P tr0 tr\<close>: the calls made since the trace was \<open>tr0\<close> all satisfy \<open>P\<close>. It is how the
  safety of what is sent to the hardware is stated.
\<close>

definition extends :: "(hw_call \<Rightarrow> bool) \<Rightarrow> hw_call list \<Rightarrow> hw_call list \<Rightarrow> bool" where
  "extends P tr0 tr \<longleftrightarrow> (\<exists>cs. tr = cs @ tr0 \<and> list_all P cs)"

lemma extends_refl [simp]: "extends P tr tr"
  by (simp add: extends_def)

lemma extends_Cons [simp]: "P c \<Longrightarrow> extends P tr0 tr \<Longrightarrow> extends P tr0 (c # tr)"
  unfolding extends_def by (elim exE) (rule_tac x = "c # cs" in exI, simp)

lemma extends_mono: "extends P tr0 tr \<Longrightarrow> (\<And>c. P c \<Longrightarrow> Q c) \<Longrightarrow> extends Q tr0 tr"
  by (auto simp: extends_def list_all_iff)

lemma vc_preserves:
  "preserves I m \<Longrightarrow> I s \<Longrightarrow> (\<And>r t. I t \<Longrightarrow> Q r t) \<Longrightarrow> wp m Q s"
  by (simp add: preserves_def wp_run)

lemma preservesI: "(\<And>s. I s \<Longrightarrow> wp m (\<lambda>_. I) s) \<Longrightarrow> preserves I m"
  by (simp add: preserves_wp)

end
