(* ===== verification/HcicsAxis.thy ===== *)
theory HcicsAxis
  imports HcicsPrelude
begin

text \<open>
  The X-axis motor driver, \<open>applications/hcics_axis.c\<close>: ZDT/Emm42-style command frames sent bit
  by bit on a software UART pin. The record holds the static \<open>g_axis\<close>; the mutex is visible in
  the trace only. The lemmas decode the trace again: a receiver that samples every bit period in
  its middle reads back the frames, and the frames decode to the commanded motion.
\<close>

record axis = hw +
  ax_initialized :: bool
  ax_ready :: bool
  ax_tx_pin :: int

section \<open>Configuration\<close>

definition HCICS_AXIS_SOFT_TX_PIN :: int where "HCICS_AXIS_SOFT_TX_PIN = GET_PIN (CHR ''A'') 8"
definition HCICS_AXIS_SOFT_BAUD :: u32 where "HCICS_AXIS_SOFT_BAUD = 115200"
definition HCICS_AXIS_MOTOR_ID :: u8 where "HCICS_AXIS_MOTOR_ID = 1"
definition HCICS_AXIS_SPEED :: u16 where "HCICS_AXIS_SPEED = 180"
definition HCICS_AXIS_SWEEP_PULSES :: u32 where "HCICS_AXIS_SWEEP_PULSES = 700"
definition HCICS_AXIS_PULSES_PER_PIXEL :: u32 where "HCICS_AXIS_PULSES_PER_PIXEL = 6"
definition HCICS_AXIS_CENTER_DEADBAND_PX :: int where "HCICS_AXIS_CENTER_DEADBAND_PX = 18"
definition HCICS_AXIS_CENTER_MAX_PULSES :: u32 where "HCICS_AXIS_CENTER_MAX_PULSES = 1200"
definition HCICS_AXIS_DIR_POSITIVE :: u8 where "HCICS_AXIS_DIR_POSITIVE = 1"
definition HCICS_AXIS_DIR_NEGATIVE :: u8 where "HCICS_AXIS_DIR_NEGATIVE = 0"

lemmas axis_config_defs = HCICS_AXIS_SOFT_BAUD_def HCICS_AXIS_MOTOR_ID_def HCICS_AXIS_SPEED_def
  HCICS_AXIS_SWEEP_PULSES_def HCICS_AXIS_PULSES_PER_PIXEL_def HCICS_AXIS_CENTER_DEADBAND_PX_def
  HCICS_AXIS_CENTER_MAX_PULSES_def HCICS_AXIS_DIR_POSITIVE_def HCICS_AXIS_DIR_NEGATIVE_def

section \<open>Operations\<close>

text \<open>\<open>HCICS_AXIS_INVERT_DIRECTION\<close> is 0 in this build.\<close>

definition hcics_axis_dir :: "bool \<Rightarrow> u8" where
  "hcics_axis_dir positive =
     (if positive then HCICS_AXIS_DIR_POSITIVE else HCICS_AXIS_DIR_NEGATIVE)"

definition hcics_axis_clamp_speed :: "u16 \<Rightarrow> u16" where
  "hcics_axis_clamp_speed speed =
     (if speed = 0 then 0 else if speed > 3000 then 3000 else speed)"

text \<open>The remainder accumulator \<open>*acc\<close> is passed and returned.\<close>

definition hcics_axis_soft_delay_bit :: "u32 \<Rightarrow> ('a hw_scheme, u32) state" where
  "hcics_axis_soft_delay_bit acc =
     (let acc1 = acc + 1000000;
          delay_us = acc1 div HCICS_AXIS_SOFT_BAUD;
          acc2 = acc1 - delay_us * HCICS_AXIS_SOFT_BAUD
      in do {
        hw_out (Us_Delay (if delay_us = 0 then 1 else delay_us));
        ret acc2 })"

text \<open>The loop over the eight data bits, least significant first; \<open>n\<close> bits are left.\<close>

fun hcics_axis_soft_write_bits :: "nat \<Rightarrow> u8 \<Rightarrow> u32 \<Rightarrow> ('a axis_scheme, u32) state" where
  "hcics_axis_soft_write_bits 0 byte acc = ret acc"
| "hcics_axis_soft_write_bits (Suc n) byte acc = do {
     pin \<leftarrow> gets ax_tx_pin;
     hw_out (Pin_Write pin (pin_level (byte AND 1 \<noteq> 0)));
     acc' \<leftarrow> hcics_axis_soft_delay_bit acc;
     hcics_axis_soft_write_bits n (drop_bit 1 byte) acc' }"

definition hcics_axis_soft_write_byte :: "u8 \<Rightarrow> ('a axis_scheme, unit) state" where
  "hcics_axis_soft_write_byte byte = do {
     pin \<leftarrow> gets ax_tx_pin;
     hw_out (Pin_Write pin PIN_LOW);
     acc \<leftarrow> hcics_axis_soft_delay_bit 0;
     acc \<leftarrow> hcics_axis_soft_write_bits 8 byte acc;
     hw_out (Pin_Write pin PIN_HIGH);
     acc \<leftarrow> hcics_axis_soft_delay_bit acc;
     ret () }"

fun hcics_axis_write_bytes :: "u8 list \<Rightarrow> ('a axis_scheme, unit) state" where
  "hcics_axis_write_bytes [] = ret ()"
| "hcics_axis_write_bytes (b # bs) = do {
     hcics_axis_soft_write_byte b;
     hcics_axis_write_bytes bs }"

text \<open>A frame is a byte list; the null pointer and the length 0 are both the empty list.\<close>

definition hcics_axis_write_locked :: "u8 list \<Rightarrow> ('a axis_scheme, rt_err) state" where
  "hcics_axis_write_locked frame =
     (if frame = [] then ret (- RT_EINVAL)
      else do {
        hw_out Irq_Disable;
        hcics_axis_write_bytes frame;
        hw_out Irq_Restore;
        ret RT_EOK })"

definition hcics_axis_write :: "u8 list \<Rightarrow> ('a axis_scheme, rt_err) state" where
  "hcics_axis_write frame = do {
     ready \<leftarrow> gets ax_ready;
     if \<not> ready then ret (- RT_ENOSYS)
     else do {
       hw_out (Mutex_Take ''haxis'');
       result \<leftarrow> hcics_axis_write_locked frame;
       hw_out (Mutex_Release ''haxis'');
       ret result } }"

definition axis_enable_frame :: "u8 list" where
  "axis_enable_frame =
     [HCICS_AXIS_MOTOR_ID, 0xF3, 0xAB, HCICS_AXIS_MOTOR_ID + 0xF3 + 0xAB]"

definition hcics_axis_enable :: "('a axis_scheme, rt_err) state" where
  "hcics_axis_enable = do {
     ready \<leftarrow> gets ax_ready;
     if \<not> ready then ret (- RT_ENOSYS) else hcics_axis_write axis_enable_frame }"

definition axis_speed_frame :: "bool \<Rightarrow> u16 \<Rightarrow> u8 list" where
  "axis_speed_frame positive speed =
     (let clamped = hcics_axis_clamp_speed speed in
      [HCICS_AXIS_MOTOR_ID, 0xF6, hcics_axis_dir positive,
       ucast (drop_bit 8 clamped), ucast (clamped AND 0xFF), 0, 0, 0x6B])"

definition hcics_axis_speed :: "bool \<Rightarrow> u16 \<Rightarrow> ('a axis_scheme, rt_err) state" where
  "hcics_axis_speed positive speed = hcics_axis_write (axis_speed_frame positive speed)"

definition hcics_axis_stop :: "('a axis_scheme, rt_err) state" where
  "hcics_axis_stop = hcics_axis_speed True 0"

definition axis_move_frame :: "bool \<Rightarrow> u16 \<Rightarrow> u32 \<Rightarrow> u8 list" where
  "axis_move_frame positive speed pulses =
     (let clamped = hcics_axis_clamp_speed speed in
      [HCICS_AXIS_MOTOR_ID, 0xFD, hcics_axis_dir positive,
       ucast (drop_bit 8 clamped), ucast (clamped AND 0xFF), 0,
       ucast (drop_bit 24 pulses AND 0xFF), ucast (drop_bit 16 pulses AND 0xFF),
       ucast (drop_bit 8 pulses AND 0xFF), ucast (pulses AND 0xFF), 0, 0, 0x6B])"

definition hcics_axis_move_pulses :: "bool \<Rightarrow> u16 \<Rightarrow> u32 \<Rightarrow> ('a axis_scheme, rt_err) state" where
  "hcics_axis_move_pulses positive speed pulses =
     (if pulses = 0 then hcics_axis_stop
      else hcics_axis_write (axis_move_frame positive speed pulses))"

definition hcics_axis_center_from_error :: "int \<Rightarrow> ('a axis_scheme, rt_err) state" where
  "hcics_axis_center_from_error error_x =
     (let abs_error = (if error_x < 0 then - error_x else error_x) in
      if abs_error \<le> HCICS_AXIS_CENTER_DEADBAND_PX then hcics_axis_stop
      else
        let positive = error_x > 0;
            pulses = word_of_int abs_error * HCICS_AXIS_PULSES_PER_PIXEL;
            pulses = (if pulses > HCICS_AXIS_CENTER_MAX_PULSES
                      then HCICS_AXIS_CENTER_MAX_PULSES else pulses)
        in hcics_axis_move_pulses positive HCICS_AXIS_SPEED pulses)"

definition hcics_axis_sweep_step :: "bool \<Rightarrow> ('a axis_scheme, rt_err) state" where
  "hcics_axis_sweep_step positive =
     hcics_axis_move_pulses positive HCICS_AXIS_SPEED HCICS_AXIS_SWEEP_PULSES"

definition hcics_axis_emergency_stop :: "('a axis_scheme, unit) state" where
  "hcics_axis_emergency_stop = do { _ \<leftarrow> hcics_axis_stop; ret () }"

definition hcics_axis_is_ready :: "('a axis_scheme, bool) state" where
  "hcics_axis_is_ready = gets ax_ready"

text \<open>The label \<open>init_failed\<close>.\<close>

definition hcics_axis_init_failed :: "rt_err \<Rightarrow> ('a axis_scheme, rt_err) state" where
  "hcics_axis_init_failed result = do {
     modify (\<lambda>s. s\<lparr>ax_ready := False, ax_initialized := True\<rparr>);
     ret result }"

definition hcics_axis_init :: "('a axis_scheme, rt_err) state" where
  "hcics_axis_init = do {
     initialized \<leftarrow> gets ax_initialized;
     ready \<leftarrow> gets ax_ready;
     if initialized then ret (if ready then RT_EOK else - RT_ENOSYS)
     else do {
       modify (\<lambda>s. s\<lparr>ax_initialized := False, ax_ready := False, ax_tx_pin := 0\<rparr>);
       result \<leftarrow> hw_do (Mutex_Init ''haxis'');
       if result \<noteq> RT_EOK then ret result
       else do {
         modify (\<lambda>s. s\<lparr>ax_tx_pin := HCICS_AXIS_SOFT_TX_PIN\<rparr>);
         hw_out (Pin_Mode HCICS_AXIS_SOFT_TX_PIN);
         hw_out (Pin_Write HCICS_AXIS_SOFT_TX_PIN PIN_HIGH);
         rt_thread_mdelay 2;
         modify (\<lambda>s. s\<lparr>ax_ready := True\<rparr>);
         result \<leftarrow> hcics_axis_enable;
         if result \<noteq> RT_EOK then hcics_axis_init_failed result
         else do {
           result \<leftarrow> hcics_axis_stop;
           if result \<noteq> RT_EOK then hcics_axis_init_failed result
           else do {
             modify (\<lambda>s. s\<lparr>ax_initialized := True\<rparr>);
             ret RT_EOK } } } } }"

section \<open>The line as a receiver sees it\<close>

text \<open>
  \<open>line_at p l cs t\<close>: the level of pin \<open>p\<close> at time \<open>t\<close>, when \<open>l\<close> is its level at time 0 and
  \<open>cs\<close> are the calls made from then on. Only delays take time. The unit is 1/230400 of a
  microsecond, so that half a bit period at 115200 baud is 1000000 units.
\<close>

definition units_per_us :: nat where "units_per_us = 230400"
definition half_bit_units :: nat where "half_bit_units = 1000000"

fun line_at :: "int \<Rightarrow> int \<Rightarrow> hw_call list \<Rightarrow> nat \<Rightarrow> int" where
  "line_at p l (Pin_Write q v # cs) t = line_at p (if q = p then v else l) cs t"
| "line_at p l (Us_Delay d # cs) t =
     (if t < unat d * units_per_us then l else line_at p l cs (t - unat d * units_per_us))"
| "line_at p l (c # cs) t = line_at p l cs t"
| "line_at p l [] t = l"

text \<open>
  A UART receiver sees the falling edge at time 0 and samples the ten bits of a character in
  the middle of their periods.
\<close>

definition uart_sample :: "int \<Rightarrow> hw_call list \<Rightarrow> nat \<Rightarrow> int" where
  "uart_sample p cs k = line_at p PIN_HIGH cs ((2 * k + 1) * half_bit_units)"

definition uart_decode :: "int \<Rightarrow> hw_call list \<Rightarrow> u8 option" where
  "uart_decode p cs =
     (if uart_sample p cs 0 = PIN_LOW \<and> uart_sample p cs 9 = PIN_HIGH
      then Some (horner_sum of_bool 2 (map (\<lambda>k. uart_sample p cs (Suc k) = PIN_HIGH) [0..<8]))
      else None)"

text \<open>
  The receiver resynchronises on every start bit. A character is 20 calls; \<open>n\<close> characters are
  read.
\<close>

fun uart_receive :: "int \<Rightarrow> nat \<Rightarrow> hw_call list \<Rightarrow> u8 list option" where
  "uart_receive p 0 cs = (if cs = [] then Some [] else None)"
| "uart_receive p (Suc n) cs =
     (case uart_decode p (take 20 cs) of
        None \<Rightarrow> None
      | Some b \<Rightarrow>
          (case uart_receive p n (drop 20 cs) of None \<Rightarrow> None | Some bs \<Rightarrow> Some (b # bs)))"

text \<open>The calls of one character: the levels of its ten bits and the delays after them.\<close>

definition uart_levels :: "u8 \<Rightarrow> int list" where
  "uart_levels b =
     PIN_LOW # map (\<lambda>k. pin_level (odd (drop_bit k b))) [0..<8] @ [PIN_HIGH]"

definition uart_delays :: "u32 list" where
  "uart_delays = [8, 9, 9, 8, 9, 9, 8, 9, 9, 8]"

definition uart_calls :: "int \<Rightarrow> u8 \<Rightarrow> hw_call list" where
  "uart_calls p b =
     concat (map (\<lambda>(l, d). [Pin_Write p l, Us_Delay d]) (zip (uart_levels b) uart_delays))"

lemma upt_0_8: "[0..<8] = [0, 1, 2, 3, 4, 5, 6, 7::nat]"
  by (simp add: upt_rec)

lemma run_soft_delay_bits:
  "run_state (hcics_axis_soft_delay_bit 0) s = (78400, s\<lparr>trace := Us_Delay 8 # trace s\<rparr>)"
  "run_state (hcics_axis_soft_delay_bit 78400) s = (41600, s\<lparr>trace := Us_Delay 9 # trace s\<rparr>)"
  "run_state (hcics_axis_soft_delay_bit 41600) s = (4800, s\<lparr>trace := Us_Delay 9 # trace s\<rparr>)"
  "run_state (hcics_axis_soft_delay_bit 4800) s = (83200, s\<lparr>trace := Us_Delay 8 # trace s\<rparr>)"
  "run_state (hcics_axis_soft_delay_bit 83200) s = (46400, s\<lparr>trace := Us_Delay 9 # trace s\<rparr>)"
  "run_state (hcics_axis_soft_delay_bit 46400) s = (9600, s\<lparr>trace := Us_Delay 9 # trace s\<rparr>)"
  "run_state (hcics_axis_soft_delay_bit 9600) s = (88000, s\<lparr>trace := Us_Delay 8 # trace s\<rparr>)"
  "run_state (hcics_axis_soft_delay_bit 88000) s = (51200, s\<lparr>trace := Us_Delay 9 # trace s\<rparr>)"
  "run_state (hcics_axis_soft_delay_bit 51200) s = (14400, s\<lparr>trace := Us_Delay 9 # trace s\<rparr>)"
  "run_state (hcics_axis_soft_delay_bit 14400) s = (92800, s\<lparr>trace := Us_Delay 8 # trace s\<rparr>)"
  by (simp_all add: hcics_axis_soft_delay_bit_def axis_config_defs Let_def)

lemma eight_Suc: "(8::nat) = Suc (Suc (Suc (Suc (Suc (Suc (Suc (Suc 0)))))))"
  by simp

lemma and_one_neq_zero: "(b AND 1 \<noteq> 0) = odd b" for b :: u8
  by (simp add: and_one_eq odd_iff_mod_2_eq_one)

lemma uart_calls_eq: "uart_calls p b =
  [Pin_Write p PIN_LOW, Us_Delay 8,
   Pin_Write p (pin_level (odd b)), Us_Delay 9,
   Pin_Write p (pin_level (odd (drop_bit 1 b))), Us_Delay 9,
   Pin_Write p (pin_level (odd (drop_bit 2 b))), Us_Delay 8,
   Pin_Write p (pin_level (odd (drop_bit 3 b))), Us_Delay 9,
   Pin_Write p (pin_level (odd (drop_bit 4 b))), Us_Delay 9,
   Pin_Write p (pin_level (odd (drop_bit 5 b))), Us_Delay 8,
   Pin_Write p (pin_level (odd (drop_bit 6 b))), Us_Delay 9,
   Pin_Write p (pin_level (odd (drop_bit 7 b))), Us_Delay 9,
   Pin_Write p PIN_HIGH, Us_Delay 8]"
  by (simp add: uart_calls_def uart_levels_def uart_delays_def upt_0_8)

lemma length_uart_calls [simp]: "length (uart_calls p b) = 20"
  by (simp add: uart_calls_eq)

lemma run_soft_write_byte:
  "run_state (hcics_axis_soft_write_byte b) s =
     ((), s\<lparr>trace := rev (uart_calls (ax_tx_pin s) b) @ trace s\<rparr>)"
  by (simp add: hcics_axis_soft_write_byte_def eight_Suc run_soft_delay_bits and_one_neq_zero
      uart_calls_eq numeral_eq_Suc)

lemma run_write_bytes:
  "run_state (hcics_axis_write_bytes bs) s =
     ((), s\<lparr>trace := rev (concat (map (uart_calls (ax_tx_pin s)) bs)) @ trace s\<rparr>)"
  by (induction bs arbitrary: s) (simp_all add: run_soft_write_byte)

lemmas uart_sample_simps = uart_sample_def uart_calls_eq units_per_us_def half_bit_units_def

lemma uart_sample_calls:
  "uart_sample p (uart_calls p b) 0 = PIN_LOW"
  "uart_sample p (uart_calls p b) 1 = pin_level (odd b)"
  "uart_sample p (uart_calls p b) 2 = pin_level (odd (drop_bit 1 b))"
  "uart_sample p (uart_calls p b) 3 = pin_level (odd (drop_bit 2 b))"
  "uart_sample p (uart_calls p b) 4 = pin_level (odd (drop_bit 3 b))"
  "uart_sample p (uart_calls p b) 5 = pin_level (odd (drop_bit 4 b))"
  "uart_sample p (uart_calls p b) 6 = pin_level (odd (drop_bit 5 b))"
  "uart_sample p (uart_calls p b) 7 = pin_level (odd (drop_bit 6 b))"
  "uart_sample p (uart_calls p b) 8 = pin_level (odd (drop_bit 7 b))"
  "uart_sample p (uart_calls p b) 9 = PIN_HIGH"
  by (simp_all add: uart_sample_simps)

lemma horner_bits_u8: "horner_sum of_bool 2 (map (bit b) [0..<8]) = b" for b :: u8
proof -
  have "horner_sum of_bool 2 (map (bit b) [0..<8]) = take_bit 8 b"
    by (rule horner_sum_bit_eq_take_bit)
  also have "\<dots> = b"
    by (simp add: take_bit_word_eq_self)
  finally show ?thesis .
qed

lemma uart_decode_calls: "uart_decode p (uart_calls p b) = Some b"
proof -
  have "map (\<lambda>k. uart_sample p (uart_calls p b) (Suc k) = PIN_HIGH) [0..<8] = map (bit b) [0..<8]"
    by (simp add: upt_0_8 uart_sample_calls uart_sample_calls(2,3) [simplified numeral_2_eq_2 One_nat_def]
        bit_iff_odd_drop_bit)
  then show ?thesis
    by (simp only: uart_decode_def uart_sample_calls horner_bits_u8) simp
qed

section \<open>A byte channel\<close>

text \<open>
  What the frame layer relies on: sending a byte makes a fixed number of calls, and a decoder
  recovers the byte from them. Then frames come through.
\<close>

locale byte_channel =
  fixes emit :: "u8 \<Rightarrow> hw_call list"
    and decode :: "hw_call list \<Rightarrow> u8 option"
    and width :: nat
  assumes emit_length: "length (emit b) = width"
    and decode_emit: "decode (emit b) = Some b"
begin

fun receive :: "nat \<Rightarrow> hw_call list \<Rightarrow> u8 list option" where
  "receive 0 cs = (if cs = [] then Some [] else None)"
| "receive (Suc n) cs =
     (case decode (take width cs) of
        None \<Rightarrow> None
      | Some b \<Rightarrow>
          (case receive n (drop width cs) of None \<Rightarrow> None | Some bs \<Rightarrow> Some (b # bs)))"

lemma receive_emitted: "receive (length bs) (concat (map emit bs)) = Some bs"
  by (induction bs) (simp_all add: emit_length decode_emit)

end

interpretation uart: byte_channel "uart_calls p" "uart_decode p" 20 for p
  by unfold_locales (simp_all add: uart_decode_calls)

lemma uart_receive_eq: "uart_receive p n cs = uart.receive p n cs"
  by (induction n arbitrary: cs) (simp_all split: option.split)

lemma uart_receive_calls: "uart_receive p (length bs) (concat (map (uart_calls p) bs)) = Some bs"
  by (simp add: uart_receive_eq uart.receive_emitted)

section \<open>Running the operations\<close>

text \<open>The calls of one frame: the bus is locked and interrupts are off around the characters.\<close>

definition frame_calls :: "int \<Rightarrow> u8 list \<Rightarrow> hw_call list" where
  "frame_calls p frame =
     [Mutex_Take ''haxis'', Irq_Disable] @ concat (map (uart_calls p) frame) @
     [Irq_Restore, Mutex_Release ''haxis'']"

text \<open>What the motor's receiver makes of the calls of one command.\<close>

fun on_line :: "hw_call \<Rightarrow> bool" where
  "on_line (Pin_Write _ _) = True"
| "on_line (Us_Delay _) = True"
| "on_line _ = False"

definition line_calls :: "hw_call list \<Rightarrow> hw_call list" where
  "line_calls cs = filter on_line cs"

definition motor_receives :: "int \<Rightarrow> hw_call list \<Rightarrow> u8 list option" where
  "motor_receives p cs = uart_receive p (length (line_calls cs) div 20) (line_calls cs)"

lemma line_calls_uart [simp]: "line_calls (uart_calls p b) = uart_calls p b"
  by (simp add: line_calls_def uart_calls_eq)

lemma line_calls_append [simp]: "line_calls (xs @ ys) = line_calls xs @ line_calls ys"
  by (simp add: line_calls_def)

lemma line_calls_concat [simp]:
  "line_calls (concat (map (uart_calls p) bs)) = concat (map (uart_calls p) bs)"
  by (induction bs) (simp_all add: line_calls_def [of "[]"])

lemma line_calls_lock [simp]:
  "line_calls [] = []"
  "\<not> on_line c \<Longrightarrow> line_calls (c # cs) = line_calls cs"
  by (simp_all add: line_calls_def)

lemma length_concat_uart [simp]: "length (concat (map (uart_calls p) bs)) = 20 * length bs"
  by (induction bs) simp_all

lemma motor_receives_frame [simp]: "motor_receives p (frame_calls p frame) = Some frame"
proof -
  have "line_calls (frame_calls p frame) = concat (map (uart_calls p) frame)"
    by (simp add: frame_calls_def)
  then show ?thesis
    by (simp add: motor_receives_def uart_receive_calls)
qed

lemma run_axis_write:
  "run_state (hcics_axis_write frame) s =
     (if \<not> ax_ready s then (- RT_ENOSYS, s)
      else if frame = [] then
        (- RT_EINVAL, s\<lparr>trace := [Mutex_Release ''haxis'', Mutex_Take ''haxis''] @ trace s\<rparr>)
      else (RT_EOK, s\<lparr>trace := rev (frame_calls (ax_tx_pin s) frame) @ trace s\<rparr>))"
  by (simp add: hcics_axis_write_def hcics_axis_write_locked_def run_write_bytes frame_calls_def)

lemma axis_frames_not_empty [simp]:
  "axis_enable_frame \<noteq> []" "axis_speed_frame d v \<noteq> []" "axis_move_frame d v n \<noteq> []"
  by (simp_all add: axis_enable_frame_def axis_speed_frame_def axis_move_frame_def Let_def)

text \<open>One frame per command: the frame \<open>f\<close> that a command sends when the driver is ready.\<close>

definition axis_sends :: "('a axis_scheme, rt_err) state \<Rightarrow> u8 list \<Rightarrow> bool" where
  "axis_sends m f \<longleftrightarrow>
     (\<forall>s. run_state m s =
       (if ax_ready s then (RT_EOK, s\<lparr>trace := rev (frame_calls (ax_tx_pin s) f) @ trace s\<rparr>)
        else (- RT_ENOSYS, s)))"

lemma axis_sends_enable: "axis_sends hcics_axis_enable axis_enable_frame"
  by (simp add: axis_sends_def hcics_axis_enable_def run_axis_write)

lemma axis_sends_speed: "axis_sends (hcics_axis_speed d v) (axis_speed_frame d v)"
  by (simp add: axis_sends_def hcics_axis_speed_def run_axis_write)

lemma axis_sends_stop: "axis_sends hcics_axis_stop (axis_speed_frame True 0)"
  by (simp add: hcics_axis_stop_def axis_sends_speed)

lemma axis_sends_move:
  "axis_sends (hcics_axis_move_pulses d v n)
     (if n = 0 then axis_speed_frame True 0 else axis_move_frame d v n)"
  by (simp add: hcics_axis_move_pulses_def axis_sends_stop)
     (simp add: axis_sends_def run_axis_write)

lemma axis_sendsD:
  "axis_sends m f \<Longrightarrow> run_state m s =
     (if ax_ready s then (RT_EOK, s\<lparr>trace := rev (frame_calls (ax_tx_pin s) f) @ trace s\<rparr>)
      else (- RT_ENOSYS, s))"
  by (simp add: axis_sends_def)

lemmas axis_run = axis_sends_enable [THEN axis_sendsD] axis_sends_speed [THEN axis_sendsD]
  axis_sends_stop [THEN axis_sendsD] axis_sends_move [THEN axis_sendsD]

section \<open>What the motor understands\<close>

text \<open>The motor's side of the protocol: a frame as a command (spec, not code).\<close>

datatype axis_cmd = Axis_Enable | Axis_Speed bool nat | Axis_Move bool nat nat

definition axis_frame_parse :: "u8 list \<Rightarrow> axis_cmd option" where
  "axis_frame_parse f =
     (case f of
        [i, c, x, k] \<Rightarrow>
          if i = 1 \<and> c = 0xF3 \<and> x = 0xAB \<and> k = i + c + x then Some Axis_Enable else None
      | [i, c, d, h, l, a, b, e] \<Rightarrow>
          if i = 1 \<and> c = 0xF6 \<and> d \<le> 1 \<and> a = 0 \<and> b = 0 \<and> e = 0x6B
          then Some (Axis_Speed (d = 1) (unat h * 256 + unat l)) else None
      | [i, c, d, h, l, a, p3, p2, p1, p0, b, y, e] \<Rightarrow>
          if i = 1 \<and> c = 0xFD \<and> d \<le> 1 \<and> a = 0 \<and> b = 0 \<and> y = 0 \<and> e = 0x6B
          then Some (Axis_Move (d = 1) (unat h * 256 + unat l)
                 (unat p3 * 16777216 + unat p2 * 65536 + unat p1 * 256 + unat p0))
          else None
      | _ \<Rightarrow> None)"

lemma unat_clamp_speed: "unat (hcics_axis_clamp_speed v) = min (unat v) 3000"
  by (auto simp: hcics_axis_clamp_speed_def word_less_nat_alt min_def)

lemma unat_high_byte: "unat (ucast (drop_bit 8 v) :: u8) = unat v div 256" for v :: u16
proof -
  have "unat v div 256 < 256"
    using unat_u16 [of v] by (simp add: less_mult_imp_div_less)
  then show ?thesis
    by (simp only: unat_ucast_u8 unat_drop_bit) simp
qed

lemma speed_bytes:
  "unat (ucast (drop_bit 8 v) :: u8) * 256 + unat (ucast (v AND 0xFF) :: u8) = unat v" for v :: u16
  by (simp only: unat_high_byte unat_low_byte div_mult_mod_eq)

lemma pulse_bytes:
  "unat (ucast (drop_bit 24 n AND 0xFF) :: u8) * 16777216 +
   unat (ucast (drop_bit 16 n AND 0xFF) :: u8) * 65536 +
   unat (ucast (drop_bit 8 n AND 0xFF) :: u8) * 256 + unat (ucast (n AND 0xFF) :: u8) = unat n"
  for n :: u32
  using nat_four_bytes [OF unat_u32 [of n]]
  by (simp only: unat_byte_of [of 24 n] unat_byte_of [of 16 n] unat_byte_of [of 8 n]
      unat_low_byte [of n] numeral_power_eqs)

lemma parse_enable_frame [simp]: "axis_frame_parse axis_enable_frame = Some Axis_Enable"
  by (simp add: axis_frame_parse_def axis_enable_frame_def axis_config_defs)

lemma axis_dir_simps [simp]:
  "hcics_axis_dir d \<le> 1" "(hcics_axis_dir d = 1) = d"
  by (simp_all add: hcics_axis_dir_def axis_config_defs)

lemma parse_speed_frame [simp]:
  "axis_frame_parse (axis_speed_frame d v) = Some (Axis_Speed d (min (unat v) 3000))"
  by (simp add: axis_frame_parse_def axis_speed_frame_def Let_def speed_bytes unat_clamp_speed)
     (simp add: axis_config_defs)

lemma parse_move_frame [simp]:
  "axis_frame_parse (axis_move_frame d v n) =
     Some (Axis_Move d (min (unat v) 3000) (unat n))"
  by (simp add: axis_frame_parse_def axis_move_frame_def Let_def speed_bytes pulse_bytes
      unat_clamp_speed) (simp add: axis_config_defs)

text \<open>The command the motor has understood after \<open>m\<close> ran in \<open>s\<close>.\<close>

definition axis_understood :: "('a axis_scheme, rt_err) state \<Rightarrow> 'a axis_scheme \<Rightarrow> axis_cmd option" where
  "axis_understood m s =
     Option.bind (motor_receives (ax_tx_pin s) (new_calls s (snd (run_state m s)))) axis_frame_parse"

lemma axis_understood_sends:
  "axis_sends m f \<Longrightarrow> ax_ready s \<Longrightarrow> axis_understood m s = axis_frame_parse f"
  by (simp add: axis_understood_def axis_sendsD)

text \<open>The pulses of a centring move, away from the dead band.\<close>

lemma center_from_error_move:
  assumes "HCICS_AXIS_CENTER_DEADBAND_PX < \<bar>e\<bar>" "\<bar>e\<bar> \<le> 65535"
  shows "\<exists>n. hcics_axis_center_from_error e = hcics_axis_move_pulses (e > 0) HCICS_AXIS_SPEED n \<and>
    unat n = min (6 * nat \<bar>e\<bar>) 1200"
proof -
  define a where "a = nat \<bar>e\<bar>"
  define w :: u32 where "w = word_of_nat a * 6"
  have a: "18 < a" "a \<le> 65535" and e: "\<bar>e\<bar> = int a"
    using assms by (auto simp: a_def axis_config_defs)
  have "w = word_of_nat (a * 6)"
    by (simp add: w_def)
  then have w: "unat w = a * 6"
    using a by (simp only: unat_of_nat take_bit_eq_mod) simp
  have "(if e < 0 then - e else e) = int a"
    using e by auto
  then have "hcics_axis_center_from_error e = hcics_axis_move_pulses (e > 0) HCICS_AXIS_SPEED
      (if w > 1200 then 1200 else w)"
    using a by (simp add: hcics_axis_center_from_error_def axis_config_defs w_def)
  moreover have "unat (if w > 1200 then 1200 else w) = min (6 * a) 1200"
    using w by (auto simp: word_less_nat_alt min_def)
  ultimately show ?thesis
    by (auto simp: a_def)
qed

lemma center_from_error_stop:
  "\<bar>e\<bar> \<le> HCICS_AXIS_CENTER_DEADBAND_PX \<Longrightarrow> hcics_axis_center_from_error e = hcics_axis_stop"
  by (auto simp: hcics_axis_center_from_error_def)

lemma axis_understood_move:
  "ax_ready s \<Longrightarrow> axis_understood (hcics_axis_move_pulses d v n) s =
     Some (if n = 0 then Axis_Speed True 0 else Axis_Move d (min (unat v) 3000) (unat n))"
  by (simp add: axis_understood_sends [OF axis_sends_move])

section \<open>Properties\<close>

text \<open>A driver that is ready, on pin 8, over a quiet device.\<close>

definition axis_example :: axis where
  "axis_example = \<lparr>clock = 0, trace = [], answer = (\<lambda>_. 0), rx = (\<lambda>_. []),
     ax_initialized = True, ax_ready = True, ax_tx_pin = 8\<rparr>"

text \<open>
  C20: The axis commands survive the software UART. A receiver that samples the middle of each
  bit period of the emitted waveform and parses the frame understands exactly the commanded
  speed or move, with the speed limited to 3000 and a move of 0 pulses sent as a stop.
\<close>

theorem axis_command_roundtrip:
  assumes "ax_ready s"
  shows "axis_understood hcics_axis_enable s = Some Axis_Enable \<and>
    axis_understood (hcics_axis_speed d v) s = Some (Axis_Speed d (min (unat v) 3000)) \<and>
    axis_understood (hcics_axis_move_pulses d v n) s =
      Some (if n = 0 then Axis_Speed True 0 else Axis_Move d (min (unat v) 3000) (unat n))"
  using assms
  by (simp add: axis_understood_sends [OF axis_sends_enable]
      axis_understood_sends [OF axis_sends_speed] axis_understood_sends [OF axis_sends_move])

theorem axis_command_roundtrip_witness:
  "axis_understood (hcics_axis_move_pulses False 5000 70000) axis_example =
     Some (Axis_Move False 3000 70000)"
  using axis_command_roundtrip [of axis_example False 5000 70000]
  by (simp add: axis_example_def)

text \<open>
  Centring on a camera error. Within the dead band of 18 pixels the axis is stopped; outside
  it moves towards the error, 6 pulses per pixel and at most 1200, and this is what the motor
  receives.
\<close>

lemma axis_center_bounded:
  fixes s :: "'a axis_scheme"
  assumes "ax_ready s" and "\<bar>e\<bar> \<le> 65535"
  shows "axis_understood (hcics_axis_center_from_error e) s =
    Some (if \<bar>e\<bar> \<le> 18 then Axis_Speed True 0 else Axis_Move (e > 0) 180 (min (6 * nat \<bar>e\<bar>) 1200))"
proof (cases "\<bar>e\<bar> \<le> 18")
  case True
  then show ?thesis
    using assms by (simp add: center_from_error_stop axis_config_defs
        axis_understood_sends [OF axis_sends_stop])
next
  case False
  then obtain n where m: "(hcics_axis_center_from_error e :: ('a axis_scheme, rt_err) state) =
      hcics_axis_move_pulses (e > 0) HCICS_AXIS_SPEED n" and n: "unat n = min (6 * nat \<bar>e\<bar>) 1200"
    using assms(2) center_from_error_move [of e]
    by (auto simp: HCICS_AXIS_CENTER_DEADBAND_PX_def)
  have "n \<noteq> 0"
    using n False by (auto simp: min_def split: if_splits)
  then show ?thesis
    using assms(1) False n by (simp add: m axis_understood_move) (simp add: HCICS_AXIS_SPEED_def)
qed

lemma axis_center_bounded_example:
  "axis_understood (hcics_axis_center_from_error (- 250)) axis_example =
     Some (Axis_Move False 180 1200)"
  using axis_center_bounded [of axis_example "- 250"] by (simp add: axis_example_def)

text \<open>
  Before the driver is ready no command reaches the motor: each returns \<open>-RT_ENOSYS\<close> and
  leaves the state and the trace as they were.
\<close>

lemma axis_silent_until_ready:
  assumes "\<not> ax_ready s"
  shows "run_state hcics_axis_enable s = (- RT_ENOSYS, s) \<and>
    run_state (hcics_axis_speed d v) s = (- RT_ENOSYS, s) \<and>
    run_state (hcics_axis_move_pulses d v n) s = (- RT_ENOSYS, s) \<and>
    run_state (hcics_axis_center_from_error e) s = (- RT_ENOSYS, s) \<and>
    run_state (hcics_axis_sweep_step d) s = (- RT_ENOSYS, s)"
  using assms
  by (simp add: axis_run hcics_axis_center_from_error_def hcics_axis_sweep_step_def Let_def)

lemma axis_silent_until_ready_example:
  "run_state (hcics_axis_sweep_step True) (axis_example\<lparr>ax_ready := False\<rparr>) =
     (- RT_ENOSYS, axis_example\<lparr>ax_ready := False\<rparr>)"
  using axis_silent_until_ready [of "axis_example\<lparr>ax_ready := False\<rparr>" True 0 0 0] by simp

text \<open>
  Initialisation. It fails only when the mutex cannot be created, and then leaves the driver
  unusable and uninitialised; otherwise the driver is ready and the motor has received the
  enable and the stop frame, in this order. A second call changes nothing.
\<close>

lemma axis_init_outcome:
  assumes "\<not> ax_initialized s"
    and "run_state hcics_axis_init s = (r, t)"
  shows "r = answer s (Mutex_Init ''haxis'' # trace s) \<and>
    (r \<noteq> RT_EOK \<longrightarrow> \<not> ax_initialized t \<and> \<not> ax_ready t) \<and>
    (r = RT_EOK \<longrightarrow> ax_initialized t \<and> ax_ready t \<and> run_state hcics_axis_init t = (RT_EOK, t) \<and>
      trace t = rev (frame_calls HCICS_AXIS_SOFT_TX_PIN (axis_speed_frame True 0)) @
        rev (frame_calls HCICS_AXIS_SOFT_TX_PIN axis_enable_frame) @
        [M_Delay 2, Pin_Write HCICS_AXIS_SOFT_TX_PIN PIN_HIGH, Pin_Mode HCICS_AXIS_SOFT_TX_PIN,
         Mutex_Init ''haxis''] @ trace s)"
  using assms
  by (auto simp: hcics_axis_init_def axis_run run_rt_thread_mdelay split: if_splits)

lemma axis_init_outcome_example:
  "fst (run_state hcics_axis_init (axis_example\<lparr>ax_initialized := False\<rparr>)) = RT_EOK"
proof -
  obtain r t where *: "run_state hcics_axis_init (axis_example\<lparr>ax_initialized := False\<rparr>) = (r, t)"
    by fastforce
  have "r = answer axis_example [Mutex_Init ''haxis'']"
    using axis_init_outcome [OF _ *] by (simp add: axis_example_def)
  then have "r = RT_EOK"
    by (simp add: axis_example_def RT_EOK_def)
  then show ?thesis
    by (simp only: * fst_conv)
qed

end
