(* ===== verification/HcicsEncoder.thy ===== *)
theory HcicsEncoder
  imports HcicsAxis
begin

text \<open>
  The wheel encoders, \<open>applications/hcics_encoder.c\<close>: two quadrature encoders decoded in GPIO
  interrupts and registered as RT-Thread pulse encoder devices. The device layer between them
  and the motion adapter (\<open>pulse_encoder.c\<close> and the open, close, read and control functions of
  \<open>device.c\<close>) is modelled with them. The lemmas show that the count follows the wheel.
\<close>

section \<open>State\<close>

datatype pulse_encoder_type =
  UNKNOWN_PULSE_ENCODER_TYPE | SINGLE_PHASE_PULSE_ENCODER | AB_PHASE_PULSE_ENCODER

text \<open>
  \<open>hcics_encoder_device_t\<close> with the fields of its \<open>struct rt_device\<close> that the device layer
  uses: whether the object is registered, the flag bits \<open>ACTIVATED\<close> and \<open>OPEN\<close>, and the
  reference count.
\<close>

record hcics_encoder_device =
  enc_registered :: bool
  enc_activated :: bool
  enc_open :: bool
  enc_ref_count :: u8
  enc_type :: pulse_encoder_type
  enc_name :: string
  enc_pin_a :: int
  enc_pin_b :: int
  enc_reversed :: bool
  enc_attached :: bool
  enc_enabled :: bool
  enc_count :: int
  enc_last_state :: u8

datatype wheel = Left_Wheel | Right_Wheel

record encoder = axis +
  g_left_encoder :: hcics_encoder_device
  g_right_encoder :: hcics_encoder_device
  g_encoder_registered :: bool

text \<open>The statics before the first call.\<close>

definition encoder_static :: "string \<Rightarrow> int \<Rightarrow> int \<Rightarrow> hcics_encoder_device" where
  "encoder_static name pin_a pin_b =
     \<lparr>enc_registered = False, enc_activated = False, enc_open = False, enc_ref_count = 0,
      enc_type = UNKNOWN_PULSE_ENCODER_TYPE, enc_name = name, enc_pin_a = pin_a,
      enc_pin_b = pin_b, enc_reversed = False, enc_attached = False, enc_enabled = False,
      enc_count = 0, enc_last_state = 0\<rparr>"

definition g_left_encoder_static :: hcics_encoder_device where
  "g_left_encoder_static =
     encoder_static ''pulse1'' (GET_PIN (CHR ''H'') 2) (GET_PIN (CHR ''H'') 3)"

definition g_right_encoder_static :: hcics_encoder_device where
  "g_right_encoder_static =
     encoder_static ''pulse2'' (GET_PIN (CHR ''H'') 13) (GET_PIN (CHR ''H'') 14)"

text \<open>A pointer to an encoder is the wheel it belongs to.\<close>

fun enc :: "wheel \<Rightarrow> 'a encoder_scheme \<Rightarrow> hcics_encoder_device" where
  "enc Left_Wheel s = g_left_encoder s"
| "enc Right_Wheel s = g_right_encoder s"

fun enc_update ::
  "wheel \<Rightarrow> (hcics_encoder_device \<Rightarrow> hcics_encoder_device) \<Rightarrow> 'a encoder_scheme \<Rightarrow> 'a encoder_scheme"
where
  "enc_update Left_Wheel f s = s\<lparr>g_left_encoder := f (g_left_encoder s)\<rparr>"
| "enc_update Right_Wheel f s = s\<lparr>g_right_encoder := f (g_right_encoder s)\<rparr>"

definition set_enc ::
  "wheel \<Rightarrow> (hcics_encoder_device \<Rightarrow> hcics_encoder_device) \<Rightarrow> ('a encoder_scheme, unit) state"
where
  "set_enc w f = modify (enc_update w f)"

lemma enc_simps [simp]:
  "enc w (s\<lparr>trace := cs\<rparr>) = enc w s" "enc w (s\<lparr>answer := an\<rparr>) = enc w s"
  "enc w (s\<lparr>g_encoder_registered := b\<rparr>) = enc w s"
  "enc w (enc_update w f s) = f (enc w s)"
  "w \<noteq> v \<Longrightarrow> enc w (enc_update v f s) = enc w s"
  "trace (enc_update w f s) = trace s" "answer (enc_update w f s) = answer s"
  "g_encoder_registered (enc_update w f s) = g_encoder_registered s"
  "clock (enc_update w f s) = clock s" "rx (enc_update w f s) = rx s"
  by (cases w; cases v; simp)+

lemma run_set_enc [simp]: "run_state (set_enc w f) s = ((), enc_update w f s)"
  by (simp add: set_enc_def)

lemma wp_set_enc [wp]: "wp (set_enc w f) Q s = Q () (enc_update w f s)"
  by (simp add: wp_def)

section \<open>The interrupt handler\<close>

definition hcics_encoder_read_state :: "wheel \<Rightarrow> ('a encoder_scheme, u8) state" where
  "hcics_encoder_read_state w = do {
     e \<leftarrow> gets (enc w);
     va \<leftarrow> hw_do (Pin_Read (enc_pin_a e));
     vb \<leftarrow> hw_do (Pin_Read (enc_pin_b e));
     let a = (if va = PIN_HIGH then 1 else 0 :: u8);
     let b = (if vb = PIN_HIGH then 1 else 0 :: u8);
     ret (push_bit 1 a OR b) }"

definition decode_table :: "int list" where
  "decode_table = [0, -1, 1, 0, 1, 0, 0, -1, -1, 0, 0, 1, 0, 1, -1, 0]"

definition hcics_encoder_irq :: "wheel \<Rightarrow> ('a encoder_scheme, unit) state" where
  "hcics_encoder_irq w = do {
     e \<leftarrow> gets (enc w);
     if \<not> enc_enabled e then ret ()
     else do {
       state \<leftarrow> hcics_encoder_read_state w;
       let index = push_bit 2 (enc_last_state e) OR state;
       set_enc w (\<lambda>e. e\<lparr>enc_last_state := state\<rparr>);
       let delta = decode_table ! unat (index AND 0x0F);
       if delta = 0 then ret ()
       else do {
         let delta = (if enc_reversed e then i8 (- delta) else delta);
         set_enc w (\<lambda>e. e\<lparr>enc_count := i32 (enc_count e + delta)\<rparr>) } } }"

section \<open>Device operations\<close>

definition hcics_encoder_attach_irqs :: "wheel \<Rightarrow> ('a encoder_scheme, rt_err) state" where
  "hcics_encoder_attach_irqs w = do {
     e \<leftarrow> gets (enc w);
     if enc_attached e then ret RT_EOK
     else do {
       result \<leftarrow> hw_do (Pin_Attach_Irq (enc_pin_a e));
       if result \<noteq> RT_EOK then ret result
       else do {
         result \<leftarrow> hw_do (Pin_Attach_Irq (enc_pin_b e));
         if result \<noteq> RT_EOK then do {
           hw_do (Pin_Detach_Irq (enc_pin_a e));
           ret result }
         else do {
           set_enc w (\<lambda>e. e\<lparr>enc_attached := True\<rparr>);
           ret RT_EOK } } } }"

definition hcics_encoder_enable_irqs :: "wheel \<Rightarrow> ('a encoder_scheme, rt_err) state" where
  "hcics_encoder_enable_irqs w = do {
     e \<leftarrow> gets (enc w);
     result \<leftarrow> hw_do (Pin_Irq_Enable (enc_pin_a e) True);
     if result \<noteq> RT_EOK then ret result
     else do {
       result \<leftarrow> hw_do (Pin_Irq_Enable (enc_pin_b e) True);
       if result \<noteq> RT_EOK then do {
         hw_do (Pin_Irq_Enable (enc_pin_a e) False);
         ret result }
       else ret RT_EOK } }"

definition hcics_encoder_device_init :: "wheel \<Rightarrow> ('a encoder_scheme, rt_err) state" where
  "hcics_encoder_device_init w = do {
     e \<leftarrow> gets (enc w);
     hw_out (Pin_Mode (enc_pin_a e));
     hw_out (Pin_Mode (enc_pin_b e));
     hw_out Irq_Disable;
     state \<leftarrow> hcics_encoder_read_state w;
     set_enc w (\<lambda>e. e\<lparr>enc_last_state := state\<rparr>);
     set_enc w (\<lambda>e. e\<lparr>enc_count := 0\<rparr>);
     hw_out Irq_Restore;
     ret RT_EOK }"

definition hcics_encoder_get_count :: "wheel \<Rightarrow> ('a encoder_scheme, int) state" where
  "hcics_encoder_get_count w = do {
     hw_out Irq_Disable;
     count \<leftarrow> gets (\<lambda>s. enc_count (enc w s));
     hw_out Irq_Restore;
     ret count }"

definition hcics_encoder_clear_count :: "wheel \<Rightarrow> ('a encoder_scheme, rt_err) state" where
  "hcics_encoder_clear_count w = do {
     hw_out Irq_Disable;
     set_enc w (\<lambda>e. e\<lparr>enc_count := 0\<rparr>);
     state \<leftarrow> hcics_encoder_read_state w;
     set_enc w (\<lambda>e. e\<lparr>enc_last_state := state\<rparr>);
     hw_out Irq_Restore;
     ret RT_EOK }"

definition PULSE_ENCODER_CMD_GET_TYPE :: nat where "PULSE_ENCODER_CMD_GET_TYPE = 128"
definition PULSE_ENCODER_CMD_ENABLE :: nat where "PULSE_ENCODER_CMD_ENABLE = 129"
definition PULSE_ENCODER_CMD_DISABLE :: nat where "PULSE_ENCODER_CMD_DISABLE = 130"
definition PULSE_ENCODER_CMD_CLEAR_COUNT :: nat where "PULSE_ENCODER_CMD_CLEAR_COUNT = 131"

lemmas encoder_cmd_defs = PULSE_ENCODER_CMD_GET_TYPE_def PULSE_ENCODER_CMD_ENABLE_def
  PULSE_ENCODER_CMD_DISABLE_def PULSE_ENCODER_CMD_CLEAR_COUNT_def

definition hcics_encoder_control :: "wheel \<Rightarrow> nat \<Rightarrow> ('a encoder_scheme, rt_err) state" where
  "hcics_encoder_control w cmd =
     (if cmd = PULSE_ENCODER_CMD_ENABLE then do {
        result \<leftarrow> hcics_encoder_device_init w;
        if result \<noteq> RT_EOK then ret result
        else do {
          result \<leftarrow> hcics_encoder_attach_irqs w;
          if result \<noteq> RT_EOK then ret result
          else do {
            set_enc w (\<lambda>e. e\<lparr>enc_enabled := True\<rparr>);
            result \<leftarrow> hcics_encoder_enable_irqs w;
            if result \<noteq> RT_EOK then do {
              set_enc w (\<lambda>e. e\<lparr>enc_enabled := False\<rparr>);
              ret result }
            else ret RT_EOK } } }
      else if cmd = PULSE_ENCODER_CMD_DISABLE then do {
        set_enc w (\<lambda>e. e\<lparr>enc_enabled := False\<rparr>);
        e \<leftarrow> gets (enc w);
        hw_do (Pin_Irq_Enable (enc_pin_a e) False);
        hw_do (Pin_Irq_Enable (enc_pin_b e) False);
        ret RT_EOK }
      else ret (- RT_ENOSYS))"

section \<open>The pulse encoder framework\<close>

text \<open>All four operations of the table \<open>g_hcics_encoder_ops\<close> are set.\<close>

definition rt_pulse_encoder_init :: "wheel \<Rightarrow> ('a encoder_scheme, rt_err) state" where
  "rt_pulse_encoder_init w = hcics_encoder_device_init w"

definition rt_pulse_encoder_open :: "wheel \<Rightarrow> ('a encoder_scheme, rt_err) state" where
  "rt_pulse_encoder_open w = hcics_encoder_control w PULSE_ENCODER_CMD_ENABLE"

definition rt_pulse_encoder_close :: "wheel \<Rightarrow> ('a encoder_scheme, rt_err) state" where
  "rt_pulse_encoder_close w = hcics_encoder_control w PULSE_ENCODER_CMD_DISABLE"

text \<open>The size read, and what is stored in the buffer.\<close>

definition rt_pulse_encoder_read :: "wheel \<Rightarrow> ('a encoder_scheme, int \<times> int) state" where
  "rt_pulse_encoder_read w = do {
     count \<leftarrow> hcics_encoder_get_count w;
     ret (1, count) }"

text \<open>The second component is what \<open>GET_TYPE\<close> stores through \<open>args\<close>.\<close>

definition rt_pulse_encoder_control ::
  "wheel \<Rightarrow> nat \<Rightarrow> ('a encoder_scheme, rt_err \<times> pulse_encoder_type option) state"
where
  "rt_pulse_encoder_control w cmd =
     (if cmd = PULSE_ENCODER_CMD_CLEAR_COUNT then do {
        result \<leftarrow> hcics_encoder_clear_count w;
        ret (result, None) }
      else if cmd = PULSE_ENCODER_CMD_GET_TYPE then do {
        e \<leftarrow> gets (enc w);
        ret (RT_EOK, Some (enc_type e)) }
      else if cmd = PULSE_ENCODER_CMD_ENABLE \<or> cmd = PULSE_ENCODER_CMD_DISABLE then do {
        result \<leftarrow> hcics_encoder_control w cmd;
        ret (result, None) }
      else ret (- RT_ENOSYS, None))"

section \<open>The device layer\<close>

text \<open>
  A device pointer: one of the two encoders, or a device of another driver, about which only
  the answers of the boundary are known.
\<close>

datatype rt_device = Encoder_Dev wheel | Other_Dev string

definition rt_device_find :: "string \<Rightarrow> ('a encoder_scheme, rt_device option) state" where
  "rt_device_find name = do {
     left \<leftarrow> gets g_left_encoder;
     right \<leftarrow> gets g_right_encoder;
     if enc_registered left \<and> enc_name left = name then ret (Some (Encoder_Dev Left_Wheel))
     else if enc_registered right \<and> enc_name right = name
       then ret (Some (Encoder_Dev Right_Wheel))
     else do {
       found \<leftarrow> hw_do (Dev_Find name);
       ret (if found \<noteq> 0 then Some (Other_Dev name) else None) } }"

definition rt_device_register :: "wheel \<Rightarrow> string \<Rightarrow> ('a encoder_scheme, rt_err) state" where
  "rt_device_register w name = do {
     found \<leftarrow> rt_device_find name;
     if found \<noteq> None then ret (- RT_ERROR)
     else do {
       hw_out (Dev_Register name);
       set_enc w (\<lambda>e. e\<lparr>enc_registered := True, enc_activated := False, enc_ref_count := 0,
                        enc_open := False\<rparr>);
       ret RT_EOK } }"

definition rt_device_pulse_encoder_register ::
  "wheel \<Rightarrow> string \<Rightarrow> ('a encoder_scheme, rt_err) state" where
  "rt_device_pulse_encoder_register w name = rt_device_register w name"

text \<open>The encoders are registered with the flag \<open>STANDALONE\<close>.\<close>

fun rt_device_open :: "rt_device \<Rightarrow> ('a encoder_scheme, rt_err) state" where
  "rt_device_open (Other_Dev name) = hw_do (Dev_Open name)"
| "rt_device_open (Encoder_Dev w) = do {
     e \<leftarrow> gets (enc w);
     result \<leftarrow> (if \<not> enc_activated e then rt_pulse_encoder_init w else ret RT_EOK);
     if result \<noteq> RT_EOK then ret result
     else do {
       set_enc w (\<lambda>e. e\<lparr>enc_activated := True\<rparr>);
       e \<leftarrow> gets (enc w);
       if enc_open e then ret (- RT_EBUSY)
       else do {
         result \<leftarrow> rt_pulse_encoder_open w;
         (if result = RT_EOK \<or> result = - RT_ENOSYS
          then set_enc w (\<lambda>e. e\<lparr>enc_open := True, enc_ref_count := enc_ref_count e + 1\<rparr>)
          else ret ());
         ret result } } }"

fun rt_device_close :: "rt_device \<Rightarrow> ('a encoder_scheme, rt_err) state" where
  "rt_device_close (Other_Dev name) = hw_do (Dev_Close name)"
| "rt_device_close (Encoder_Dev w) = do {
     e \<leftarrow> gets (enc w);
     if enc_ref_count e = 0 then ret (- RT_ERROR)
     else do {
       set_enc w (\<lambda>e. e\<lparr>enc_ref_count := enc_ref_count e - 1\<rparr>);
       e \<leftarrow> gets (enc w);
       if enc_ref_count e \<noteq> 0 then ret RT_EOK
       else do {
         result \<leftarrow> rt_pulse_encoder_close w;
         (if result = RT_EOK \<or> result = - RT_ENOSYS
          then set_enc w (\<lambda>e. e\<lparr>enc_open := False\<rparr>) else ret ());
         ret result } } }"

text \<open>
  \<open>rt_device_read(dev, 0, &count, 1)\<close>: the size, and the count when something was stored.
  Another driver's device stores a 32-bit little endian integer.
\<close>

fun rt_device_read_count :: "rt_device \<Rightarrow> ('a encoder_scheme, int \<times> int) state" where
  "rt_device_read_count (Other_Dev name) = do {
     (size, bytes) \<leftarrow> hw_rx (Dev_Read name);
     ret (size, i32 (horner_sum uint 256 (take 4 bytes))) }"
| "rt_device_read_count (Encoder_Dev w) = do {
     e \<leftarrow> gets (enc w);
     if enc_ref_count e = 0 then ret (0, 0) else rt_pulse_encoder_read w }"

fun rt_device_control :: "rt_device \<Rightarrow> nat \<Rightarrow> ('a encoder_scheme, rt_err) state" where
  "rt_device_control (Other_Dev name) cmd = hw_do (Dev_Control name cmd)"
| "rt_device_control (Encoder_Dev w) cmd = do {
     (result, _) \<leftarrow> rt_pulse_encoder_control w cmd;
     ret result }"

section \<open>Initialisation\<close>

definition hcics_encoder_register_one :: "wheel \<Rightarrow> ('a encoder_scheme, rt_err) state" where
  "hcics_encoder_register_one w = do {
     e \<leftarrow> gets (enc w);
     found \<leftarrow> rt_device_find (enc_name e);
     if found \<noteq> None then ret (- RT_ERROR)
     else do {
       set_enc w (\<lambda>e. e\<lparr>enc_type := AB_PHASE_PULSE_ENCODER\<rparr>);
       result \<leftarrow> rt_device_pulse_encoder_register w (enc_name e);
       if result \<noteq> RT_EOK then ret result
       else ret RT_EOK } }"

definition hcics_encoder_init :: "('a encoder_scheme, rt_err) state" where
  "hcics_encoder_init = do {
     registered \<leftarrow> gets g_encoder_registered;
     if registered then ret RT_EOK
     else do {
       result \<leftarrow> hcics_encoder_register_one Left_Wheel;
       if result \<noteq> RT_EOK then ret result
       else do {
         result \<leftarrow> hcics_encoder_register_one Right_Wheel;
         if result \<noteq> RT_EOK then ret result
         else do {
           modify (\<lambda>s. s\<lparr>g_encoder_registered := True\<rparr>);
           ret RT_EOK } } } }"

text \<open>The kernel calls this when it initialises the devices, before \<open>main\<close>.\<close>

definition hcics_encoder_auto_init :: "('a encoder_scheme, rt_err) state" where
  "hcics_encoder_auto_init = hcics_encoder_init"

section \<open>The wheel\<close>

text \<open>
  A quadrature wheel at position \<open>p\<close>: channel A is high at the positions 1 and 2 of every four,
  channel B at 2 and 3, so one step forward makes A lead.
\<close>

definition wheel_a :: "int \<Rightarrow> bool" where
  "wheel_a p \<longleftrightarrow> p mod 4 = 1 \<or> p mod 4 = 2"

definition wheel_b :: "int \<Rightarrow> bool" where
  "wheel_b p \<longleftrightarrow> p mod 4 = 2 \<or> p mod 4 = 3"

definition wheel_state :: "int \<Rightarrow> u8" where
  "wheel_state p = push_bit 1 (of_bool (wheel_a p)) OR of_bool (wheel_b p)"

text \<open>
  The environment turns the wheel between interrupts, and possibly between the two reads of one
  handler: A is read at position \<open>x\<close> and B at position \<open>y\<close>.
\<close>

definition wheel_at :: "wheel \<Rightarrow> int \<Rightarrow> int \<Rightarrow> ('a encoder_scheme, unit) state" where
  "wheel_at w x y = modify (\<lambda>s. s\<lparr>answer := (\<lambda>tr.
     case tr of
       Pin_Read p # _ \<Rightarrow>
         if p = enc_pin_a (enc w s) then pin_level (wheel_a x)
         else if p = enc_pin_b (enc w s) then pin_level (wheel_b y)
         else answer s tr
     | _ \<Rightarrow> answer s tr)\<rparr>)"

fun wheel_turns :: "wheel \<Rightarrow> (int \<times> int) list \<Rightarrow> ('a encoder_scheme, unit) state" where
  "wheel_turns w [] = ret ()"
| "wheel_turns w ((x, y) # ps) = do {
     wheel_at w x y;
     hcics_encoder_irq w;
     wheel_turns w ps }"

text \<open>
  The position a handler samples. The wheel is slow enough when it never gets more than one
  step away from the last sample before the next handler has read it.
\<close>

definition wheel_sample :: "int \<Rightarrow> int \<Rightarrow> int" where
  "wheel_sample x y = (if wheel_a x = wheel_a y then y else x)"

fun wheel_slow :: "int \<Rightarrow> (int \<times> int) list \<Rightarrow> bool" where
  "wheel_slow c [] = True"
| "wheel_slow c ((x, y) # ps) \<longleftrightarrow>
     \<bar>x - c\<bar> \<le> 1 \<and> \<bar>y - c\<bar> \<le> 1 \<and> \<bar>x - y\<bar> \<le> 1 \<and> wheel_slow (wheel_sample x y) ps"

fun wheel_end :: "int \<Rightarrow> (int \<times> int) list \<Rightarrow> int" where
  "wheel_end c [] = c"
| "wheel_end c ((x, y) # ps) = wheel_end (wheel_sample x y) ps"

lemma mod_4_cases: "(p::int) mod 4 = 0 \<or> p mod 4 = 1 \<or> p mod 4 = 2 \<or> p mod 4 = 3"
  by presburger

lemma step_cases: "\<bar>x - y\<bar> \<le> (1::int) \<Longrightarrow> x = y \<or> x = y + 1 \<or> x = y - 1"
  by arith

lemma mod_4_step:
  "(p::int) mod 4 = 0 \<Longrightarrow> (p + 1) mod 4 = 1" "p mod 4 = 1 \<Longrightarrow> (p + 1) mod 4 = 2"
  "p mod 4 = 2 \<Longrightarrow> (p + 1) mod 4 = 3" "p mod 4 = 3 \<Longrightarrow> (p + 1) mod 4 = 0"
  "p mod 4 = 0 \<Longrightarrow> (p - 1) mod 4 = 3" "p mod 4 = 1 \<Longrightarrow> (p - 1) mod 4 = 0"
  "p mod 4 = 2 \<Longrightarrow> (p - 1) mod 4 = 1" "p mod 4 = 3 \<Longrightarrow> (p - 1) mod 4 = 2"
  by presburger+

lemmas wheel_phase_defs = wheel_state_def wheel_a_def wheel_b_def

lemma decode_step:
  assumes "\<bar>q - c\<bar> \<le> 1"
  shows "decode_table ! unat ((push_bit 2 (wheel_state c) OR wheel_state q) AND 0x0F) = q - c"
  using step_cases [OF assms] mod_4_cases [of c]
  by (elim disjE) (simp_all add: wheel_phase_defs mod_4_step decode_table_def)

lemma wheel_skew:
  assumes "\<bar>x - y\<bar> \<le> 1"
  shows "push_bit 1 (of_bool (wheel_a x)) OR of_bool (wheel_b y) = wheel_state (wheel_sample x y)"
  using step_cases [OF assms] mod_4_cases [of y]
  by (elim disjE) (simp_all add: wheel_phase_defs wheel_sample_def mod_4_step)

text \<open>
  \<open>tracks w d z c s\<close>: the encoder of \<open>w\<close> is in use, its last sample was at position \<open>c\<close> and its
  count is the distance from \<open>z\<close>, in its sense of rotation \<open>d\<close>.
\<close>

definition enc_sense :: "hcics_encoder_device \<Rightarrow> int" where
  "enc_sense e = (if enc_reversed e then - 1 else 1)"

definition tracks :: "wheel \<Rightarrow> int \<Rightarrow> int \<Rightarrow> int \<Rightarrow> 'a encoder_scheme \<Rightarrow> bool" where
  "tracks w d z c s \<longleftrightarrow>
     (let e = enc w s in
      enc_enabled e \<and> enc_ref_count e \<noteq> 0 \<and> enc_sense e = d \<and> enc_pin_a e \<noteq> enc_pin_b e \<and>
      enc_last_state e = wheel_state c \<and> enc_count e = i32 (d * (c - z)))"

lemma i32_add: "i32 (i32 x + y) = i32 (x + y)"
proof -
  have "signed_take_bit 31 (signed_take_bit 31 x + y) = signed_take_bit 31 (x + y)"
    by (metis signed_take_bit_add signed_take_bit_signed_take_bit min.idem)
  then show ?thesis by (simp add: i32_def)
qed

lemma run_wheel_at:
  "fst (run_state (wheel_at w x y) s) = ()" "enc v (snd (run_state (wheel_at w x y) s)) = enc v s"
  "trace (snd (run_state (wheel_at w x y) s)) = trace s"
  by (simp_all add: wheel_at_def)

lemma run_wheel_read:
  assumes "enc_pin_a (enc w s) \<noteq> enc_pin_b (enc w s)" "\<bar>x - y\<bar> \<le> 1"
  shows "\<exists>tr. run_state (hcics_encoder_read_state w) (snd (run_state (wheel_at w x y) s)) =
     (wheel_state (wheel_sample x y), (snd (run_state (wheel_at w x y) s))\<lparr>trace := tr\<rparr>)"
  using assms wheel_skew [OF assms(2)]
  by (auto simp: wheel_at_def hcics_encoder_read_state_def of_bool_def split: if_splits)

lemma wheel_sample_near:
  "\<bar>x - c\<bar> \<le> 1 \<Longrightarrow> \<bar>y - c\<bar> \<le> 1 \<Longrightarrow> \<bar>wheel_sample x y - c\<bar> \<le> 1"
  by (simp add: wheel_sample_def)

lemma i8_delta: "\<bar>d\<bar> \<le> 1 \<Longrightarrow> i8 (- d) = - d"
  by (simp add: i8_def signed_take_bit_int_eq_self)

lemma tracks_irq:
  assumes "tracks w d z c s" "\<bar>x - c\<bar> \<le> 1" "\<bar>y - c\<bar> \<le> 1" "\<bar>x - y\<bar> \<le> 1"
  shows "tracks w d z (wheel_sample x y)
    (snd (run_state (hcics_encoder_irq w) (snd (run_state (wheel_at w x y) s))))"
proof -
  define q where "q = wheel_sample x y"
  define s1 where "s1 = snd (run_state (wheel_at w x y) s)"
  have e1: "enc w s1 = enc w s"
    by (simp add: s1_def run_wheel_at)
  have t: "enc_enabled (enc w s)" "enc_pin_a (enc w s) \<noteq> enc_pin_b (enc w s)"
    "enc_last_state (enc w s) = wheel_state c"
    "enc_count (enc w s) = i32 (d * (c - z))" "enc_ref_count (enc w s) \<noteq> 0" "d = enc_sense (enc w s)"
    using assms(1) by (simp_all add: tracks_def Let_def)
  obtain tr where rd:
    "run_state (hcics_encoder_read_state w) s1 = (wheel_state q, s1\<lparr>trace := tr\<rparr>)"
    using run_wheel_read [OF t(2) assms(4)] unfolding s1_def q_def by blast
  have q: "\<bar>q - c\<bar> \<le> 1"
    unfolding q_def using assms by (simp add: wheel_sample_near)
  note dec = decode_step [OF q]
  have "i8 (c - q) = c - q"
    using i8_delta [OF q] by simp
  then show ?thesis
    unfolding q_def [symmetric] s1_def [symmetric]
    using t dec by (auto simp: hcics_encoder_irq_def rd e1 tracks_def Let_def i32_add enc_sense_def)
qed

lemma tracks_turns:
  assumes "tracks w d z c s" "wheel_slow c ps"
  shows "tracks w d z (wheel_end c ps) (snd (run_state (wheel_turns w ps) s))"
  using assms
proof (induction ps arbitrary: c s)
  case (Cons p ps)
  obtain x y where p: "p = (x, y)" by (cases p)
  show ?case
    using Cons.IH [OF tracks_irq [of w d z c s x y]] Cons.prems
    by (simp add: p split: prod.split) (metis snd_conv)
qed simp

lemma tracks_clear:
  assumes "enc_enabled (enc w s)" "enc_ref_count (enc w s) \<noteq> 0"
    "enc_pin_a (enc w s) \<noteq> enc_pin_b (enc w s)"
  shows "tracks w (enc_sense (enc w s)) z z (snd (run_state (hcics_encoder_clear_count w)
    (snd (run_state (wheel_at w z z) s))))"
proof -
  have "push_bit 1 (of_bool (wheel_a z)) OR of_bool (wheel_b z) = wheel_state z"
    by (simp add: wheel_state_def)
  then show ?thesis
    using assms
    by (cases w) (auto simp: hcics_encoder_clear_count_def hcics_encoder_read_state_def wheel_at_def
        tracks_def Let_def enc_sense_def of_bool_def i32_id is_i32_def)
qed

section \<open>Opening\<close>

lemma read_state_keeps_enc:
  "enc v (snd (run_state (hcics_encoder_read_state w) s)) = enc v s"
  by (simp add: hcics_encoder_read_state_def)

lemma enc_irq_disabled:
  "\<not> enc_enabled (enc w s) \<Longrightarrow> run_state (hcics_encoder_irq w) s = ((), s)"
  by (simp add: hcics_encoder_irq_def)

text \<open>
  A closed encoder: not open, so no user and no handler active.
\<close>

definition enc_closed :: "hcics_encoder_device \<Rightarrow> bool" where
  "enc_closed e \<longleftrightarrow> \<not> enc_open e \<and> \<not> enc_enabled e \<and> enc_ref_count e = 0"

definition enc_opened :: "hcics_encoder_device \<Rightarrow> bool" where
  "enc_opened e \<longleftrightarrow> enc_open e \<and> enc_enabled e \<and> enc_attached e \<and> enc_activated e \<and>
     enc_ref_count e = 1 \<and> enc_count e = 0"

lemma vc_read_state [vc]:
  "(\<And>v. Q v (s\<lparr>trace := Pin_Read (enc_pin_b (enc w s)) # Pin_Read (enc_pin_a (enc w s)) # trace s\<rparr>))
     \<Longrightarrow> wp (hcics_encoder_read_state w) Q s"
  by (simp add: wp_def hcics_encoder_read_state_def)

lemma vc_set_enc [vc]: "Q () (enc_update w f s) \<Longrightarrow> wp (set_enc w f) Q s"
  by (simp add: wp)

lemma enc_update_update [simp]:
  "enc_update w f (enc_update w g s) = enc_update w (\<lambda>e. f (g e)) s"
  "enc_update w f (s\<lparr>trace := cs\<rparr>) = (enc_update w f s)\<lparr>trace := cs\<rparr>"
  by (cases w; simp)+

lemma vc_attach_irqs [vc]:
  assumes "\<And>r tr. enc_attached (enc w s) \<Longrightarrow> Q RT_EOK s"
    and "\<And>tr. Q RT_EOK ((enc_update w (\<lambda>e. e\<lparr>enc_attached := True\<rparr>) s)\<lparr>trace := tr\<rparr>)"
    and "\<And>r tr. r \<noteq> RT_EOK \<Longrightarrow> Q r (s\<lparr>trace := tr\<rparr>)"
  shows "wp (hcics_encoder_attach_irqs w) Q s"
  unfolding hcics_encoder_attach_irqs_def
  by (intro vc) (simp_all add: assms)

lemma vc_enable_irqs [vc]:
  assumes "\<And>r tr. Q r (s\<lparr>trace := tr\<rparr>)"
  shows "wp (hcics_encoder_enable_irqs w) Q s"
  unfolding hcics_encoder_enable_irqs_def
  by (intro vc) (simp_all add: assms)

lemma vc_device_init [vc]:
  assumes "\<And>v tr. Q RT_EOK
    ((enc_update w (\<lambda>e. e\<lparr>enc_last_state := v, enc_count := 0\<rparr>) s)\<lparr>trace := tr\<rparr>)"
  shows "wp (hcics_encoder_device_init w) Q s"
  unfolding hcics_encoder_device_init_def
  by (intro vc) (simp add: assms)

lemma vc_control_enable:
  assumes "\<not> enc_enabled (enc w s)"
    and "\<And>r t. \<lbrakk>if r = RT_EOK then enc_enabled (enc w t) \<and> enc_attached (enc w t) \<and>
          enc_count (enc w t) = 0 else \<not> enc_enabled (enc w t);
        enc_open (enc w t) = enc_open (enc w s); enc_activated (enc w t) = enc_activated (enc w s);
        enc_ref_count (enc w t) = enc_ref_count (enc w s)\<rbrakk> \<Longrightarrow> Q r t"
  shows "wp (hcics_encoder_control w PULSE_ENCODER_CMD_ENABLE) Q s"
  unfolding hcics_encoder_control_def using assms(1)
  by (simp, intro vc) (auto intro!: assms(2))

lemma open_outcome:
  assumes "enc_closed (enc w s)"
  shows "wp (rt_device_open (Encoder_Dev w)) (\<lambda>r t.
     if r = RT_EOK then enc_opened (enc w t)
     else \<not> enc_enabled (enc w t) \<and> enc_activated (enc w t) \<and>
       (enc_open (enc w t) \<longleftrightarrow> r = - RT_ENOSYS)) s"
  using assms
  unfolding rt_device_open.simps rt_pulse_encoder_init_def rt_pulse_encoder_open_def
  by (intro vc vc_control_enable) (auto simp: enc_closed_def enc_opened_def rt_err_defs)

definition encoder_fresh :: "'a encoder_scheme \<Rightarrow> bool" where
  "encoder_fresh s \<longleftrightarrow> g_left_encoder s = g_left_encoder_static \<and>
     g_right_encoder s = g_right_encoder_static \<and> \<not> g_encoder_registered s"

lemma run_init_again:
  "g_encoder_registered s \<Longrightarrow> run_state hcics_encoder_init s = (RT_EOK, s)"
  "\<not> g_encoder_registered s \<Longrightarrow> enc_registered (g_left_encoder s) \<Longrightarrow>
     run_state hcics_encoder_init s = (- RT_ERROR, s)"
  by (simp_all add: hcics_encoder_init_def hcics_encoder_register_one_def rt_device_find_def rt_err_defs)

fun other_wheel :: "wheel \<Rightarrow> wheel" where
  "other_wheel Left_Wheel = Right_Wheel"
| "other_wheel Right_Wheel = Left_Wheel"

definition enc_unnamed :: "string \<Rightarrow> 'a encoder_scheme \<Rightarrow> bool" where
  "enc_unnamed name s \<longleftrightarrow>
     (enc_registered (g_left_encoder s) \<longrightarrow> enc_name (g_left_encoder s) \<noteq> name) \<and>
     (enc_registered (g_right_encoder s) \<longrightarrow> enc_name (g_right_encoder s) \<noteq> name)"

lemma enc_unnamed_trace [simp]: "enc_unnamed name (s\<lparr>trace := tr\<rparr>) = enc_unnamed name s"
  by (simp add: enc_unnamed_def)

lemma enc_unnamed_type [simp]:
  "enc_unnamed name (enc_update w (\<lambda>e. e\<lparr>enc_type := ty\<rparr>) s) = enc_unnamed name s"
  by (cases w) (simp_all add: enc_unnamed_def)

lemma vc_find_unnamed:
  assumes "enc_unnamed name s" "\<And>r tr. Q r (s\<lparr>trace := tr\<rparr>)"
  shows "wp (rt_device_find name) Q s"
proof -
  have "wp (rt_device_find name) Q s = wp (do { found \<leftarrow> hw_do (Dev_Find name);
      ret (if found \<noteq> 0 then Some (Other_Dev name) else None) }) Q s"
    using assms(1) by (auto simp: rt_device_find_def wp enc_unnamed_def)
  then show ?thesis
    using assms(2) by (simp add: wp)
qed

lemma vc_register_one:
  assumes "enc_unnamed (enc_name (enc w s)) s" "\<not> enc_registered (enc w s)"
    and "\<And>r t. \<lbrakk>r = RT_EOK \<or> r = - RT_ERROR; enc_registered (enc w t) \<longleftrightarrow> r = RT_EOK;
      enc_name (enc w t) = enc_name (enc w s); enc (other_wheel w) t = enc (other_wheel w) s;
      g_encoder_registered t = g_encoder_registered s\<rbrakk> \<Longrightarrow> Q r t"
  shows "wp (hcics_encoder_register_one w) Q s"
  unfolding hcics_encoder_register_one_def rt_device_pulse_encoder_register_def
    rt_device_register_def
  using assms(1,2)
  by (cases w; intro vc vc_find_unnamed; simp add: assms(3) enc_unnamed_def rt_err_defs)

lemma init_fresh:
  assumes "encoder_fresh s"
  shows "wp hcics_encoder_init (\<lambda>r t.
     if r = RT_EOK then g_encoder_registered t \<and> enc_registered (g_left_encoder t) \<and>
       enc_registered (g_right_encoder t)
     else r = - RT_ERROR \<and> \<not> g_encoder_registered t \<and> \<not> enc_registered (g_right_encoder t)) s"
proof -
  have fresh: "enc_name (g_left_encoder s) = ''pulse1''" "enc_name (g_right_encoder s) = ''pulse2''"
    "\<not> enc_registered (g_left_encoder s)" "\<not> enc_registered (g_right_encoder s)"
    "\<not> g_encoder_registered s"
    using assms by (simp_all add: encoder_fresh_def g_left_encoder_static_def
        g_right_encoder_static_def encoder_static_def)
  then have un: "enc_unnamed name s" for name
    by (simp add: enc_unnamed_def)
  show ?thesis
    unfolding hcics_encoder_init_def
    by (intro vc vc_register_one) (simp_all add: fresh un enc_unnamed_def)
qed


section \<open>Clients of the device layer\<close>

text \<open>
  What a client may rely on when it calls the device layer: only the encoder objects change, and
  only calls of these kinds are made. An invariant that both leave alone survives every device
  operation.
\<close>

fun device_call :: "hw_call \<Rightarrow> bool" where
  "device_call (Pin_Mode _) = True"
| "device_call (Pin_Read _) = True"
| "device_call (Pin_Attach_Irq _) = True"
| "device_call (Pin_Detach_Irq _) = True"
| "device_call (Pin_Irq_Enable _ _) = True"
| "device_call Irq_Disable = True"
| "device_call Irq_Restore = True"
| "device_call (Dev_Find _) = True"
| "device_call (Dev_Open _) = True"
| "device_call (Dev_Close _) = True"
| "device_call (Dev_Control _ _) = True"
| "device_call (Dev_Read _) = True"
| "device_call (Dev_Register _) = True"
| "device_call _ = False"

locale wheel_client =
  fixes inv :: "'a encoder_scheme \<Rightarrow> bool" and w :: wheel
  assumes inv_enc: "inv s \<Longrightarrow> inv (enc_update w f s)"
    and inv_call: "device_call c \<Longrightarrow> inv s \<Longrightarrow> inv (s\<lparr>trace := c # trace s\<rparr>)"
begin

lemma pres_call: "device_call c \<Longrightarrow> preserves inv (hw_do c)"
  "device_call c \<Longrightarrow> preserves inv (hw_out c)" "device_call c \<Longrightarrow> preserves inv (hw_rx c)"
  by (auto intro: preserves_hw_do preserves_hw_out preserves_hw_rx inv_call)

lemma pres_set_enc: "preserves inv (set_enc w f)"
  by (simp add: preserves_def inv_enc)

lemmas pres_basic = pres pres_call pres_set_enc

lemma pres_read_state: "preserves inv (hcics_encoder_read_state w)"
  unfolding hcics_encoder_read_state_def by (intro pres_basic) simp_all

lemma pres_irq: "preserves inv (hcics_encoder_irq w)"
  unfolding hcics_encoder_irq_def by (intro pres_basic pres_read_state)

lemma pres_device_init: "preserves inv (hcics_encoder_device_init w)"
  unfolding hcics_encoder_device_init_def by (intro pres_basic pres_read_state) simp_all

lemma pres_control: "preserves inv (hcics_encoder_control w cmd)"
  unfolding hcics_encoder_control_def hcics_encoder_attach_irqs_def hcics_encoder_enable_irqs_def
  by (intro pres_basic pres_device_init) simp_all

lemma pres_find: "preserves inv (rt_device_find name)"
  unfolding rt_device_find_def by (intro pres_basic) simp_all

lemma pres_open: "d \<in> {Encoder_Dev w, Other_Dev n} \<Longrightarrow> preserves inv (rt_device_open d)"
  by (auto simp: rt_pulse_encoder_init_def rt_pulse_encoder_open_def
      intro!: pres_basic pres_device_init pres_control)

lemma pres_close: "d \<in> {Encoder_Dev w, Other_Dev n} \<Longrightarrow> preserves inv (rt_device_close d)"
  by (auto simp: rt_pulse_encoder_close_def intro!: pres_basic pres_control)

lemma pres_read: "d \<in> {Encoder_Dev w, Other_Dev n} \<Longrightarrow> preserves inv (rt_device_read_count d)"
  by (auto simp: rt_pulse_encoder_read_def hcics_encoder_get_count_def intro!: pres_basic)

lemma pres_device_control:
  "d \<in> {Encoder_Dev w, Other_Dev n} \<Longrightarrow> preserves inv (rt_device_control d cmd)"
  by (auto simp: rt_pulse_encoder_control_def hcics_encoder_clear_count_def
      intro!: pres_basic pres_read_state pres_control)

lemma pres_register_one: "preserves inv (hcics_encoder_register_one w)"
  unfolding hcics_encoder_register_one_def rt_device_pulse_encoder_register_def
    rt_device_register_def
  by (intro pres_basic pres_find) simp_all

end

text \<open>A client of both wheels, which need not know which device it holds.\<close>

locale encoder_client =
  fixes inv :: "'a encoder_scheme \<Rightarrow> bool"
  assumes inv_enc: "inv s \<Longrightarrow> inv (enc_update w f s)"
    and inv_call: "device_call c \<Longrightarrow> inv s \<Longrightarrow> inv (s\<lparr>trace := c # trace s\<rparr>)"

sublocale encoder_client \<subseteq> each: wheel_client inv w for w
  by unfold_locales (rule inv_enc inv_call; assumption)+

context encoder_client begin

lemma device_cases: "\<exists>w n. d \<in> {Encoder_Dev w, Other_Dev n}"
  by (cases d) auto

lemmas pres_call = each.pres_call

lemmas pres_basic = each.pres_basic

lemmas pres_find = each.pres_find

lemmas pres_irq = each.pres_irq

lemma pres_open: "preserves inv (rt_device_open d)"
  using device_cases [of d] each.pres_open by blast

lemma pres_close: "preserves inv (rt_device_close d)"
  using device_cases [of d] each.pres_close by blast

lemma pres_read: "preserves inv (rt_device_read_count d)"
  using device_cases [of d] each.pres_read by blast

lemma pres_device_control: "preserves inv (rt_device_control d cmd)"
  using device_cases [of d] each.pres_device_control by blast

end

section \<open>Properties\<close>

text \<open>A registered and opened left encoder.\<close>

definition encoder_example :: "encoder" where
  "encoder_example =
     \<lparr>clock = 0, trace = [], answer = (\<lambda>_. 0), rx = (\<lambda>_. []), ax_initialized = False, ax_ready = False,
      ax_tx_pin = 0,
      g_left_encoder = g_left_encoder_static\<lparr>enc_registered := True, enc_open := True,
        enc_ref_count := 1, enc_activated := True, enc_attached := True, enc_enabled := True\<rparr>,
      g_right_encoder = g_right_encoder_static, g_encoder_registered = False\<rparr>"

text \<open>
  C21: The count follows the wheel. The count of an enabled encoder is cleared while the wheel
  rests at \<open>z\<close>; then the wheel turns, never more than one step away from the last sample when a
  handler reads it, but in any direction and also between the two pin reads of one handler. What
  the device then reads as is the signed distance turned, negated for a reversed encoder, as a
  32-bit integer.
\<close>

theorem encoder_counts_wheel:
  assumes "enc_enabled (enc w s)" and "enc_ref_count (enc w s) \<noteq> 0"
    and "enc_pin_a (enc w s) \<noteq> enc_pin_b (enc w s)" and "wheel_slow z ps"
  shows "fst (run_state (do {
     wheel_at w z z;
     rt_device_control (Encoder_Dev w) PULSE_ENCODER_CMD_CLEAR_COUNT;
     wheel_turns w ps;
     rt_device_read_count (Encoder_Dev w) }) s) =
       (1, i32 (enc_sense (enc w s) * (wheel_end z ps - z)))"
proof -
  define s1 where "s1 = snd (run_state (wheel_at w z z) s)"
  define s2 where "s2 = snd (run_state (hcics_encoder_clear_count w) s1)"
  have "tracks w (enc_sense (enc w s)) z (wheel_end z ps) (snd (run_state (wheel_turns w ps) s2))"
    unfolding s2_def s1_def using assms by (intro tracks_turns tracks_clear)
  then show ?thesis
    by (simp add: s1_def s2_def rt_pulse_encoder_control_def encoder_cmd_defs tracks_def Let_def
        rt_pulse_encoder_read_def hcics_encoder_get_count_def split: prod.split)
      (metis snd_conv)
qed

theorem encoder_counts_wheel_witness:
  "fst (run_state (do {
     wheel_at Left_Wheel 0 0;
     rt_device_control (Encoder_Dev Left_Wheel) PULSE_ENCODER_CMD_CLEAR_COUNT;
     wheel_turns Left_Wheel [(0, 1), (1, 1), (1, 2), (2, 3), (3, 3)];
     rt_device_read_count (Encoder_Dev Left_Wheel) }) encoder_example) = (1, 3)"
  using encoder_counts_wheel [of Left_Wheel encoder_example 0 "[(0, 1), (1, 1), (1, 2), (2, 3), (3, 3)]"]
  by (simp add: encoder_example_def g_left_encoder_static_def encoder_static_def wheel_sample_def
      wheel_a_def enc_sense_def i32_id is_i32_def GET_PIN_def)

text \<open>
  Opening an encoder. From a closed device, an open that returns \<open>RT_EOK\<close> leaves it
  open with one user, its interrupts attached, the handler active and the count 0. When it fails, the
  handler stays inactive and ignores interrupts; but a driver that answers \<open>-RT_ENOSYS\<close> still
  gets the device marked as open, so every later open is refused as busy.
\<close>

lemma encoder_open_outcome:
  assumes "enc_closed (enc w s)"
  shows "wp (rt_device_open (Encoder_Dev w)) (\<lambda>r t.
     if r = RT_EOK then enc_opened (enc w t)
     else run_state (hcics_encoder_irq w) t = ((), t) \<and>
       (r = - RT_ENOSYS \<longrightarrow> fst (run_state (rt_device_open (Encoder_Dev w)) t) = - RT_EBUSY)) s"
  by (rule wp_conseq [OF open_outcome [OF assms]]) (auto simp: enc_irq_disabled split: if_splits)

lemma encoder_open_outcome_example:
  "wp (rt_device_open (Encoder_Dev Right_Wheel)) (\<lambda>r t.
     if r = RT_EOK then enc_opened (enc Right_Wheel t)
     else run_state (hcics_encoder_irq Right_Wheel) t = ((), t) \<and>
       (r = - RT_ENOSYS \<longrightarrow>
         fst (run_state (rt_device_open (Encoder_Dev Right_Wheel)) t) = - RT_EBUSY)) encoder_example"
  using encoder_open_outcome [of Right_Wheel encoder_example]
  by (simp add: encoder_example_def g_right_encoder_static_def encoder_static_def enc_closed_def)

text \<open>
  Registering the encoders. From the initial statics, the init function either registers both
  encoders and stays successful, or fails with \<open>-RT_ERROR\<close>. When it fails after the left encoder
  was registered, it can never succeed again: the left encoder is found as already existing.
\<close>

lemma encoder_init_outcome:
  assumes "encoder_fresh s"
  shows "wp hcics_encoder_init (\<lambda>r t.
     if r = RT_EOK
     then enc_registered (g_left_encoder t) \<and> enc_registered (g_right_encoder t) \<and>
       run_state hcics_encoder_init t = (RT_EOK, t)
     else r = - RT_ERROR \<and> \<not> enc_registered (g_right_encoder t) \<and>
       (enc_registered (g_left_encoder t) \<longrightarrow> run_state hcics_encoder_init t = (- RT_ERROR, t))) s"
  by (rule wp_conseq [OF init_fresh [OF assms]]) (auto simp: run_init_again split: if_splits)


lemma encoder_init_outcome_example:
  "wp hcics_encoder_init (\<lambda>r t.
     if r = RT_EOK
     then enc_registered (g_left_encoder t) \<and> enc_registered (g_right_encoder t) \<and>
       run_state hcics_encoder_init t = (RT_EOK, t)
     else r = - RT_ERROR \<and> \<not> enc_registered (g_right_encoder t) \<and>
       (enc_registered (g_left_encoder t) \<longrightarrow> run_state hcics_encoder_init t = (- RT_ERROR, t)))
     (encoder_example\<lparr>g_left_encoder := g_left_encoder_static\<rparr>)"
  by (rule encoder_init_outcome) (simp add: encoder_fresh_def encoder_example_def)

end
