(* ===== verification/HcicsMotion.thy ===== *)
theory HcicsMotion
  imports HcicsEncoder
begin

text \<open>
  The chassis motion adapter, \<open>applications/hcics_motion.c\<close>: signed wheel targets, a ramp, wheel
  speed feedback from the encoders, a boost against stuck wheels, an emergency stop latch, and
  the PWM and direction outputs. The record holds the static \<open>g_motion\<close>.
\<close>

section \<open>State and configuration\<close>

datatype hcics_motion_actual_source =
  HCICS_MOTION_ACTUAL_NONE | HCICS_MOTION_ACTUAL_EXTERNAL | HCICS_MOTION_ACTUAL_ENCODER

text \<open>
  \<open>mo_pwm\<close> and \<open>mo_output_cb\<close> say whether the pointer is set; a call of the callback is the event
  \<open>Motor_Output\<close>.
\<close>

record motion = encoder +
  mo_initialized :: bool
  mo_output_ready :: bool
  mo_emergency_stop :: bool
  mo_stop_reason :: u8
  mo_actual_source :: hcics_motion_actual_source
  mo_target_left :: int
  mo_target_right :: int
  mo_command_left :: int
  mo_command_right :: int
  mo_actual_left :: int
  mo_actual_right :: int
  mo_output_left :: int
  mo_output_right :: int
  mo_encoder_left_total :: int
  mo_encoder_right_total :: int
  mo_encoder_left_last :: int
  mo_encoder_right_last :: int
  mo_encoder_left_fail_count :: u8
  mo_encoder_right_fail_count :: u8
  mo_stuck_start_ms :: u32
  mo_boost_until_ms :: u32
  mo_stuck_boost_count :: u8
  mo_last_update_tick :: u32
  mo_left_encoder :: "rt_device option"
  mo_right_encoder :: "rt_device option"
  mo_pwm :: bool
  mo_output_cb :: bool

definition HCICS_MOTION_SPEED_MAX :: int where "HCICS_MOTION_SPEED_MAX = 250"
definition HCICS_MOTION_RAMP_STEP :: int where "HCICS_MOTION_RAMP_STEP = 15"
definition HCICS_MOTION_MIN_NONZERO_CMD :: int where "HCICS_MOTION_MIN_NONZERO_CMD = 25"
definition HCICS_MOTION_STUCK_MIN_CMD :: int where "HCICS_MOTION_STUCK_MIN_CMD = 35"
definition HCICS_MOTION_STUCK_BOOST_CMD :: int where "HCICS_MOTION_STUCK_BOOST_CMD = 90"
definition HCICS_MOTION_STUCK_ACTUAL_MAX :: int where "HCICS_MOTION_STUCK_ACTUAL_MAX = 3"
definition HCICS_MOTION_STUCK_TRIGGER_MS :: u32 where "HCICS_MOTION_STUCK_TRIGGER_MS = 220"
definition HCICS_MOTION_STUCK_HOLD_MS :: u32 where "HCICS_MOTION_STUCK_HOLD_MS = 450"
definition HCICS_MOTION_STUCK_FAIL_MS :: u32 where "HCICS_MOTION_STUCK_FAIL_MS = 1800"
definition HCICS_MOTION_STUCK_MAX_BOOSTS :: u8 where "HCICS_MOTION_STUCK_MAX_BOOSTS = 2"
definition HCICS_MOTION_ENCODER_SANITY_LIMIT :: int where
  "HCICS_MOTION_ENCODER_SANITY_LIMIT = 1200"
definition HCICS_MOTION_ENCODER_FAIL_LIMIT :: u8 where "HCICS_MOTION_ENCODER_FAIL_LIMIT = 20"
definition HCICS_MOTION_PWM_PERIOD_NS :: u32 where "HCICS_MOTION_PWM_PERIOD_NS = 1000000"
definition HCICS_MOTION_PWM_FULL_PULSE_NS :: u32 where
  "HCICS_MOTION_PWM_FULL_PULSE_NS = 900000"
definition HCICS_MOTION_LEFT_A_PIN :: int where "HCICS_MOTION_LEFT_A_PIN = GET_PIN (CHR ''B'') 1"
definition HCICS_MOTION_LEFT_B_PIN :: int where "HCICS_MOTION_LEFT_B_PIN = GET_PIN (CHR ''B'') 2"
definition HCICS_MOTION_RIGHT_A_PIN :: int where
  "HCICS_MOTION_RIGHT_A_PIN = GET_PIN (CHR ''D'') 13"
definition HCICS_MOTION_RIGHT_B_PIN :: int where
  "HCICS_MOTION_RIGHT_B_PIN = GET_PIN (CHR ''B'') 0"
definition HCICS_MOTION_STBY_PIN :: int where "HCICS_MOTION_STBY_PIN = GET_PIN (CHR ''G'') 7"
definition HCICS_MOTION_STBY_ACTIVE_LEVEL :: int where
  "HCICS_MOTION_STBY_ACTIVE_LEVEL = PIN_HIGH"
definition HCICS_MOTION_PWM_DEVICE_NAME :: string where
  "HCICS_MOTION_PWM_DEVICE_NAME = ''pwm5''"
definition HCICS_MOTION_LEFT_PWM_CHANNEL :: int where "HCICS_MOTION_LEFT_PWM_CHANNEL = 1"
definition HCICS_MOTION_RIGHT_PWM_CHANNEL :: int where "HCICS_MOTION_RIGHT_PWM_CHANNEL = 2"
definition HCICS_MOTION_LEFT_ENCODER_NAME :: string where
  "HCICS_MOTION_LEFT_ENCODER_NAME = ''pulse1''"
definition HCICS_MOTION_RIGHT_ENCODER_NAME :: string where
  "HCICS_MOTION_RIGHT_ENCODER_NAME = ''pulse2''"

lemmas motion_speed_defs = HCICS_MOTION_SPEED_MAX_def HCICS_MOTION_RAMP_STEP_def
  HCICS_MOTION_MIN_NONZERO_CMD_def HCICS_MOTION_STUCK_MIN_CMD_def
  HCICS_MOTION_STUCK_BOOST_CMD_def HCICS_MOTION_STUCK_ACTUAL_MAX_def
  HCICS_MOTION_ENCODER_SANITY_LIMIT_def

lemmas motion_count_defs = HCICS_MOTION_STUCK_MAX_BOOSTS_def HCICS_MOTION_ENCODER_FAIL_LIMIT_def
  HCICS_MOTION_STUCK_TRIGGER_MS_def HCICS_MOTION_STUCK_HOLD_MS_def HCICS_MOTION_STUCK_FAIL_MS_def

section \<open>Speeds\<close>

definition hcics_motion_abs16 :: "int \<Rightarrow> int" where
  "hcics_motion_abs16 value = (if value \<ge> 0 then value else i16 (- value))"

definition hcics_motion_clamp_raw :: "int \<Rightarrow> int" where
  "hcics_motion_clamp_raw speed =
     (if speed > HCICS_MOTION_SPEED_MAX then HCICS_MOTION_SPEED_MAX
      else if speed < - HCICS_MOTION_SPEED_MAX then - HCICS_MOTION_SPEED_MAX
      else speed)"

definition hcics_motion_normalize_target :: "int \<Rightarrow> int" where
  "hcics_motion_normalize_target speed =
     (let clamped = hcics_motion_clamp_raw speed;
          abs_speed = hcics_motion_abs16 clamped
      in if abs_speed = 0 then 0
         else if abs_speed < HCICS_MOTION_MIN_NONZERO_CMD then
           (if clamped > 0 then HCICS_MOTION_MIN_NONZERO_CMD
            else i16 (- HCICS_MOTION_MIN_NONZERO_CMD))
         else clamped)"

definition hcics_motion_ramp_toward :: "int \<Rightarrow> int \<Rightarrow> int" where
  "hcics_motion_ramp_toward current target =
     (if target > current then
        let current = i16 (current + HCICS_MOTION_RAMP_STEP)
        in if current > target then target else current
      else if target < current then
        let current = i16 (current - HCICS_MOTION_RAMP_STEP)
        in if current < target then target else current
      else current)"

definition hcics_motion_preserve_direction :: "int \<Rightarrow> int \<Rightarrow> int" where
  "hcics_motion_preserve_direction speed min_abs =
     (let abs_speed = hcics_motion_abs16 speed
      in if speed = 0 \<or> abs_speed \<ge> min_abs then speed
         else if speed > 0 then min_abs else i16 (- min_abs))"

section \<open>Outputs\<close>

definition hcics_motion_refresh_output_mode :: "('a motion_scheme, unit) state" where
  "hcics_motion_refresh_output_mode = do {
     modify (\<lambda>s. s\<lparr>mo_output_ready := False\<rparr>);
     pwm \<leftarrow> gets mo_pwm;
     if pwm then modify (\<lambda>s. s\<lparr>mo_output_ready := True\<rparr>) else ret () }"

definition hcics_motion_inactive_stby_level :: int where
  "hcics_motion_inactive_stby_level =
     (if HCICS_MOTION_STBY_ACTIVE_LEVEL = PIN_HIGH then PIN_LOW else PIN_HIGH)"

definition hcics_motion_gpio_safe :: "('a motion_scheme, unit) state" where
  "hcics_motion_gpio_safe = do {
     hw_out (Pin_Write HCICS_MOTION_LEFT_A_PIN PIN_LOW);
     hw_out (Pin_Write HCICS_MOTION_LEFT_B_PIN PIN_LOW);
     hw_out (Pin_Write HCICS_MOTION_RIGHT_A_PIN PIN_LOW);
     hw_out (Pin_Write HCICS_MOTION_RIGHT_B_PIN PIN_LOW);
     hw_out (Pin_Write HCICS_MOTION_STBY_PIN hcics_motion_inactive_stby_level) }"

definition hcics_motion_gpio_init :: "('a motion_scheme, unit) state" where
  "hcics_motion_gpio_init = do {
     hw_out (Pin_Mode HCICS_MOTION_LEFT_A_PIN);
     hw_out (Pin_Mode HCICS_MOTION_LEFT_B_PIN);
     hw_out (Pin_Mode HCICS_MOTION_RIGHT_A_PIN);
     hw_out (Pin_Mode HCICS_MOTION_RIGHT_B_PIN);
     hw_out (Pin_Mode HCICS_MOTION_STBY_PIN);
     hcics_motion_gpio_safe }"

definition hcics_motion_write_dir :: "int \<Rightarrow> int \<Rightarrow> int \<Rightarrow> ('a motion_scheme, unit) state" where
  "hcics_motion_write_dir pin_a pin_b speed =
     (if speed > 0 then do {
        hw_out (Pin_Write pin_a PIN_HIGH);
        hw_out (Pin_Write pin_b PIN_LOW) }
      else if speed < 0 then do {
        hw_out (Pin_Write pin_a PIN_LOW);
        hw_out (Pin_Write pin_b PIN_HIGH) }
      else do {
        hw_out (Pin_Write pin_a PIN_LOW);
        hw_out (Pin_Write pin_b PIN_LOW) })"

definition hcics_motion_find_pwm :: "('a motion_scheme, unit) state" where
  "hcics_motion_find_pwm = do {
     found \<leftarrow> rt_device_find HCICS_MOTION_PWM_DEVICE_NAME;
     modify (\<lambda>s. s\<lparr>mo_pwm := found \<noteq> None\<rparr>) }"

text \<open>The device, if it could be opened, and what is stored to \<open>*last_count\<close>.\<close>

definition hcics_motion_open_encoder ::
  "string \<Rightarrow> int \<Rightarrow> ('a motion_scheme, rt_device option \<times> int) state" where
  "hcics_motion_open_encoder name last_count = do {
     dev \<leftarrow> rt_device_find name;
     case dev of
       None \<Rightarrow> ret (None, last_count)
     | Some dev \<Rightarrow> do {
         opened \<leftarrow> rt_device_open dev;
         if opened \<noteq> RT_EOK then ret (None, last_count)
         else do {
           _ \<leftarrow> rt_device_control dev PULSE_ENCODER_CMD_CLEAR_COUNT;
           (size, count) \<leftarrow> rt_device_read_count dev;
           ret (Some dev, if size = 1 then count else 0) } } }"

definition hcics_motion_pwm_fail :: "rt_err \<Rightarrow> ('a motion_scheme, rt_err) state" where
  "hcics_motion_pwm_fail result = do {
     _ \<leftarrow> hw_do (Pwm_Disable HCICS_MOTION_PWM_DEVICE_NAME HCICS_MOTION_LEFT_PWM_CHANNEL);
     _ \<leftarrow> hw_do (Pwm_Disable HCICS_MOTION_PWM_DEVICE_NAME HCICS_MOTION_RIGHT_PWM_CHANNEL);
     hcics_motion_gpio_safe;
     modify (\<lambda>s. s\<lparr>mo_emergency_stop := True, mo_stop_reason := 0xE1\<rparr>);
     ret result }"

text \<open>The pulse width of a speed, \<open>((rt_uint32_t)abs16(speed) * FULL_PULSE) / SPEED_MAX\<close>.\<close>

definition motion_pulse :: "int \<Rightarrow> u32" where
  "motion_pulse speed =
     (word_of_int (hcics_motion_abs16 speed) * HCICS_MOTION_PWM_FULL_PULSE_NS) div
       word_of_int HCICS_MOTION_SPEED_MAX"

definition hcics_motion_output_pwm :: "int \<Rightarrow> int \<Rightarrow> ('a motion_scheme, rt_err) state" where
  "hcics_motion_output_pwm left right = do {
     pwm \<leftarrow> gets mo_pwm;
     if \<not> pwm then do { hcics_motion_gpio_safe; ret (- RT_ENOSYS) }
     else do {
       hcics_motion_write_dir HCICS_MOTION_LEFT_A_PIN HCICS_MOTION_LEFT_B_PIN left;
       hcics_motion_write_dir HCICS_MOTION_RIGHT_A_PIN HCICS_MOTION_RIGHT_B_PIN right;
       hw_out (Pin_Write HCICS_MOTION_STBY_PIN
         (if left \<noteq> 0 \<or> right \<noteq> 0 then HCICS_MOTION_STBY_ACTIVE_LEVEL
          else hcics_motion_inactive_stby_level));
       result \<leftarrow> hw_do (Pwm_Set HCICS_MOTION_PWM_DEVICE_NAME HCICS_MOTION_LEFT_PWM_CHANNEL
         HCICS_MOTION_PWM_PERIOD_NS (motion_pulse left));
       if result \<noteq> RT_EOK then hcics_motion_pwm_fail result
       else do {
         result \<leftarrow> hw_do (Pwm_Enable HCICS_MOTION_PWM_DEVICE_NAME HCICS_MOTION_LEFT_PWM_CHANNEL);
         if result \<noteq> RT_EOK then hcics_motion_pwm_fail result
         else do {
           result \<leftarrow> hw_do (Pwm_Set HCICS_MOTION_PWM_DEVICE_NAME HCICS_MOTION_RIGHT_PWM_CHANNEL
             HCICS_MOTION_PWM_PERIOD_NS (motion_pulse right));
           if result \<noteq> RT_EOK then hcics_motion_pwm_fail result
           else do {
             result \<leftarrow> hw_do
               (Pwm_Enable HCICS_MOTION_PWM_DEVICE_NAME HCICS_MOTION_RIGHT_PWM_CHANNEL);
             if result \<noteq> RT_EOK then hcics_motion_pwm_fail result
             else ret RT_EOK } } } } }"

definition hcics_motion_output :: "int \<Rightarrow> int \<Rightarrow> ('a motion_scheme, rt_err) state" where
  "hcics_motion_output left right = do {
     modify (\<lambda>s. s\<lparr>mo_output_left := left, mo_output_right := right\<rparr>);
     cb \<leftarrow> gets mo_output_cb;
     result \<leftarrow> (if cb then hw_do (Motor_Output left right) else ret RT_EOK);
     out \<leftarrow> hcics_motion_output_pwm left right;
     ret (if out \<noteq> RT_EOK then - RT_ERROR else result) }"

section \<open>Wheel feedback\<close>

text \<open>
  The flag, \<open>*last_count\<close> and \<open>*delta\<close>. A difference outside of the sanity limit is dropped;
  \<open>diff\<close> wraps in 32 bits.
\<close>

definition hcics_motion_read_encoder_delta ::
  "rt_device option \<Rightarrow> int \<Rightarrow> int \<Rightarrow> ('a motion_scheme, bool \<times> int \<times> int) state" where
  "hcics_motion_read_encoder_delta dev last_count delta =
     (case dev of
        None \<Rightarrow> ret (False, last_count, delta)
      | Some dev \<Rightarrow> do {
          (size, count) \<leftarrow> rt_device_read_count dev;
          if size \<noteq> 1 then ret (False, last_count, delta)
          else
            let diff = i32 (count - last_count)
            in if diff > HCICS_MOTION_ENCODER_SANITY_LIMIT \<or>
                  diff < - HCICS_MOTION_ENCODER_SANITY_LIMIT
               then ret (False, count, 0)
               else ret (True, count, i16 diff) })"

definition hcics_motion_poll_actual_speed :: "('a motion_scheme, rt_err) state" where
  "hcics_motion_poll_actual_speed = do {
     s \<leftarrow> gets (\<lambda>s. s);
     (left_ok, last, left_delta) \<leftarrow>
       hcics_motion_read_encoder_delta (mo_left_encoder s) (mo_encoder_left_last s) 0;
     modify (\<lambda>s. s\<lparr>mo_encoder_left_last := last\<rparr>);
     (right_ok, last, right_delta) \<leftarrow>
       hcics_motion_read_encoder_delta (mo_right_encoder s) (mo_encoder_right_last s) 0;
     modify (\<lambda>s. s\<lparr>mo_encoder_right_last := last\<rparr>);
     s \<leftarrow> gets (\<lambda>s. s);
     let motion_requested =
       (mo_target_left s \<noteq> 0 \<or> mo_target_right s \<noteq> 0 \<or>
        mo_command_left s \<noteq> 0 \<or> mo_command_right s \<noteq> 0);
     (if left_ok then modify (\<lambda>s. s\<lparr>mo_encoder_left_fail_count := 0\<rparr>)
      else if motion_requested \<and> mo_encoder_left_fail_count s < 255
      then modify (\<lambda>s. s\<lparr>mo_encoder_left_fail_count := mo_encoder_left_fail_count s + 1\<rparr>)
      else ret ());
     (if right_ok then modify (\<lambda>s. s\<lparr>mo_encoder_right_fail_count := 0\<rparr>)
      else if motion_requested \<and> mo_encoder_right_fail_count s < 255
      then modify (\<lambda>s. s\<lparr>mo_encoder_right_fail_count := mo_encoder_right_fail_count s + 1\<rparr>)
      else ret ());
     s \<leftarrow> gets (\<lambda>s. s);
     if motion_requested \<and>
        (mo_encoder_left_fail_count s \<ge> HCICS_MOTION_ENCODER_FAIL_LIMIT \<or>
         mo_encoder_right_fail_count s \<ge> HCICS_MOTION_ENCODER_FAIL_LIMIT)
     then do {
       modify (\<lambda>s. s\<lparr>mo_emergency_stop := True, mo_stop_reason := 0xE2,
         mo_target_left := 0, mo_target_right := 0,
         mo_command_left := 0, mo_command_right := 0\<rparr>);
       ret (- RT_ERROR) }
     else if left_ok \<or> right_ok then do {
       modify (\<lambda>s. s\<lparr>mo_actual_left := (if left_ok then left_delta else 0),
         mo_actual_right := (if right_ok then right_delta else 0)\<rparr>);
       modify (\<lambda>s. s\<lparr>
         mo_encoder_left_total := i32 (mo_encoder_left_total s + mo_actual_left s),
         mo_encoder_right_total := i32 (mo_encoder_right_total s + mo_actual_right s),
         mo_actual_source := HCICS_MOTION_ACTUAL_ENCODER\<rparr>);
       ret RT_EOK }
     else ret RT_EOK }"

text \<open>The outputs \<open>*left\<close> and \<open>*right\<close> are passed and returned.\<close>

definition motion_stuck_fault :: "('a motion_scheme, unit) state" where
  "motion_stuck_fault = modify (\<lambda>s. s\<lparr>mo_emergency_stop := True, mo_stop_reason := 0xE3,
     mo_target_left := 0, mo_target_right := 0, mo_command_left := 0, mo_command_right := 0,
     mo_boost_until_ms := 0\<rparr>)"

text \<open>
  The first half: recognising that the wheels are stuck. It returns whether the fault was
  raised, that is whether the caller returns \<open>-RT_ERROR\<close>.
\<close>

definition motion_detect_stuck :: "u32 \<Rightarrow> bool \<Rightarrow> bool \<Rightarrow> ('a motion_scheme, bool) state" where
  "motion_detect_stuck now command_nonzero actual_stalled = do {
     s \<leftarrow> gets (\<lambda>s. s);
     if command_nonzero \<and> actual_stalled then
       (if mo_stuck_start_ms s = 0 then do {
          modify (\<lambda>s. s\<lparr>mo_stuck_start_ms := now\<rparr>);
          ret False }
        else if now - mo_stuck_start_ms s \<ge> HCICS_MOTION_STUCK_TRIGGER_MS \<and>
                mo_boost_until_ms s = 0 then
          (if mo_stuck_boost_count s \<ge> HCICS_MOTION_STUCK_MAX_BOOSTS then do {
             motion_stuck_fault;
             ret True }
           else do {
             modify (\<lambda>s. s\<lparr>mo_boost_until_ms := now + HCICS_MOTION_STUCK_HOLD_MS,
               mo_stuck_boost_count := mo_stuck_boost_count s + 1\<rparr>);
             ret False })
        else ret False)
     else do {
       modify (\<lambda>s. s\<lparr>mo_stuck_start_ms := 0, mo_stuck_boost_count := 0\<rparr>);
       ret False } }"

definition hcics_motion_apply_stuck_boost ::
  "int \<Rightarrow> int \<Rightarrow> ('a motion_scheme, rt_err \<times> int \<times> int) state" where
  "hcics_motion_apply_stuck_boost left right = do {
     s \<leftarrow> gets (\<lambda>s. s);
     if mo_actual_source s = HCICS_MOTION_ACTUAL_NONE then do {
       modify (\<lambda>s. s\<lparr>mo_stuck_start_ms := 0, mo_boost_until_ms := 0,
         mo_stuck_boost_count := 0\<rparr>);
       ret (RT_EOK, left, right) }
     else do {
       now \<leftarrow> now_ms;
       let command_nonzero = (hcics_motion_abs16 left \<ge> HCICS_MOTION_STUCK_MIN_CMD \<or>
         hcics_motion_abs16 right \<ge> HCICS_MOTION_STUCK_MIN_CMD);
       let actual_stalled =
         (hcics_motion_abs16 (mo_actual_left s) \<le> HCICS_MOTION_STUCK_ACTUAL_MAX \<and>
          hcics_motion_abs16 (mo_actual_right s) \<le> HCICS_MOTION_STUCK_ACTUAL_MAX);
       fault \<leftarrow> motion_detect_stuck now command_nonzero actual_stalled;
       if fault then ret (- RT_ERROR, left, right)
       else do {
         s \<leftarrow> gets (\<lambda>s. s);
         if command_nonzero \<and> actual_stalled \<and>
            now - mo_stuck_start_ms s \<ge> HCICS_MOTION_STUCK_FAIL_MS
         then do { motion_stuck_fault; ret (- RT_ERROR, left, right) }
         else if mo_boost_until_ms s \<noteq> 0 \<and> now < mo_boost_until_ms s
         then ret (RT_EOK,
           hcics_motion_preserve_direction left HCICS_MOTION_STUCK_BOOST_CMD,
           hcics_motion_preserve_direction right HCICS_MOTION_STUCK_BOOST_CMD)
         else if mo_boost_until_ms s \<noteq> 0 \<and> now \<ge> mo_boost_until_ms s
         then do {
           modify (\<lambda>s. s\<lparr>mo_boost_until_ms := 0, mo_stuck_start_ms := 0\<rparr>);
           ret (RT_EOK, left, right) }
         else ret (RT_EOK, left, right) } } }"

section \<open>The adapter\<close>

definition hcics_motion_init :: "('a motion_scheme, rt_err) state" where
  "hcics_motion_init = do {
     initialized \<leftarrow> gets mo_initialized;
     if initialized then ret RT_EOK
     else do {
       modify (\<lambda>s. s\<lparr>mo_target_left := 0, mo_target_right := 0,
         mo_command_left := 0, mo_command_right := 0, mo_actual_left := 0, mo_actual_right := 0,
         mo_actual_source := HCICS_MOTION_ACTUAL_NONE\<rparr>);
       hcics_motion_gpio_init;
       hcics_motion_find_pwm;
       last \<leftarrow> gets mo_encoder_left_last;
       (dev, last) \<leftarrow> hcics_motion_open_encoder HCICS_MOTION_LEFT_ENCODER_NAME last;
       modify (\<lambda>s. s\<lparr>mo_encoder_left_last := last, mo_left_encoder := dev\<rparr>);
       last \<leftarrow> gets mo_encoder_right_last;
       (dev, last) \<leftarrow> hcics_motion_open_encoder HCICS_MOTION_RIGHT_ENCODER_NAME last;
       modify (\<lambda>s. s\<lparr>mo_encoder_right_last := last, mo_right_encoder := dev\<rparr>);
       left \<leftarrow> gets mo_left_encoder;
       right \<leftarrow> gets mo_right_encoder;
       if left = None \<or> right = None then ret (- RT_ENOSYS)
       else do {
         hcics_motion_refresh_output_mode;
         ready \<leftarrow> gets mo_output_ready;
         if \<not> ready then ret (- RT_ENOSYS)
         else do {
           modify (\<lambda>s. s\<lparr>mo_initialized := True\<rparr>);
           _ \<leftarrow> hcics_motion_output 0 0;
           ret RT_EOK } } } }"

definition hcics_motion_ensure_init :: "('a motion_scheme, rt_err) state" where
  "hcics_motion_ensure_init = do {
     initialized \<leftarrow> gets mo_initialized;
     if \<not> initialized then hcics_motion_init else ret RT_EOK }"

text \<open>The name in the status on the console.\<close>

fun hcics_motion_actual_source_name :: "hcics_motion_actual_source \<Rightarrow> string" where
  "hcics_motion_actual_source_name HCICS_MOTION_ACTUAL_EXTERNAL = ''external''"
| "hcics_motion_actual_source_name HCICS_MOTION_ACTUAL_ENCODER = ''encoder''"
| "hcics_motion_actual_source_name HCICS_MOTION_ACTUAL_NONE = ''none''"

text \<open>The last part of the service: the latch is open and the feedback was read.\<close>

definition motion_drive :: "bool \<Rightarrow> ('a motion_scheme, rt_err) state" where
  "motion_drive direct = do {
     (if direct then
        modify (\<lambda>s. s\<lparr>mo_command_left := mo_target_left s,
          mo_command_right := mo_target_right s,
          mo_stuck_start_ms := 0, mo_boost_until_ms := 0\<rparr>)
      else
        modify (\<lambda>s. s\<lparr>
          mo_command_left := hcics_motion_ramp_toward (mo_command_left s) (mo_target_left s),
          mo_command_right := hcics_motion_ramp_toward (mo_command_right s) (mo_target_right s)\<rparr>));
     out_left \<leftarrow> gets (\<lambda>s. hcics_motion_clamp_raw (mo_command_left s));
     out_right \<leftarrow> gets (\<lambda>s. hcics_motion_clamp_raw (mo_command_right s));
     (result, out_left, out_right) \<leftarrow>
       (if \<not> direct then hcics_motion_apply_stuck_boost out_left out_right
        else ret (RT_EOK, out_left, out_right));
     if result \<noteq> RT_EOK then hcics_motion_output 0 0
     else do {
       tick \<leftarrow> rt_tick_get;
       modify (\<lambda>s. s\<lparr>mo_last_update_tick := tick\<rparr>);
       hcics_motion_output (hcics_motion_clamp_raw out_left)
         (hcics_motion_clamp_raw out_right) } }"

definition hcics_motion_service :: "bool \<Rightarrow> ('a motion_scheme, rt_err) state" where
  "hcics_motion_service direct = do {
     result \<leftarrow> hcics_motion_ensure_init;
     if result \<noteq> RT_EOK then ret (- RT_ERROR)
     else do {
       result \<leftarrow> hcics_motion_poll_actual_speed;
       if result \<noteq> RT_EOK then hcics_motion_output 0 0
       else do {
         stopped \<leftarrow> gets mo_emergency_stop;
         if stopped then do {
           tick \<leftarrow> rt_tick_get;
           modify (\<lambda>s. s\<lparr>mo_target_left := 0, mo_target_right := 0,
             mo_command_left := 0, mo_command_right := 0,
             mo_stuck_start_ms := 0, mo_boost_until_ms := 0, mo_last_update_tick := tick\<rparr>);
           hcics_motion_output 0 0 }
         else motion_drive direct } } }"

definition hcics_motion_set_output_callback :: "bool \<Rightarrow> ('a motion_scheme, rt_err) state" where
  "hcics_motion_set_output_callback callback = do {
     result \<leftarrow> hcics_motion_ensure_init;
     if result \<noteq> RT_EOK then ret (- RT_ERROR)
     else do {
       modify (\<lambda>s. s\<lparr>mo_output_cb := callback\<rparr>);
       hcics_motion_refresh_output_mode;
       ret RT_EOK } }"

definition hcics_motion_set_target :: "int \<Rightarrow> int \<Rightarrow> ('a motion_scheme, rt_err) state" where
  "hcics_motion_set_target left right = do {
     result \<leftarrow> hcics_motion_ensure_init;
     if result \<noteq> RT_EOK then ret (- RT_ERROR)
     else do {
       stopped \<leftarrow> gets mo_emergency_stop;
       if stopped then ret (- RT_ERROR)
       else do {
         modify (\<lambda>s. s\<lparr>mo_target_left := hcics_motion_normalize_target left,
           mo_target_right := hcics_motion_normalize_target right\<rparr>);
         ret RT_EOK } } }"

definition hcics_motion_set_target_direct :: "int \<Rightarrow> int \<Rightarrow> ('a motion_scheme, rt_err) state" where
  "hcics_motion_set_target_direct left right = do {
     result \<leftarrow> hcics_motion_ensure_init;
     if result \<noteq> RT_EOK then ret (- RT_ERROR)
     else do {
       stopped \<leftarrow> gets mo_emergency_stop;
       if stopped then ret (- RT_ERROR)
       else do {
         modify (\<lambda>s. s\<lparr>mo_target_left := hcics_motion_normalize_target left,
           mo_target_right := hcics_motion_normalize_target right\<rparr>);
         hcics_motion_service True } } }"

definition hcics_motion_update :: "('a motion_scheme, rt_err) state" where
  "hcics_motion_update = hcics_motion_service False"

definition hcics_motion_emergency_stop :: "u8 \<Rightarrow> ('a motion_scheme, unit) state" where
  "hcics_motion_emergency_stop reason = do {
     result \<leftarrow> hcics_motion_ensure_init;
     if result \<noteq> RT_EOK then ret ()
     else do {
       modify (\<lambda>s. s\<lparr>mo_emergency_stop := True, mo_stop_reason := reason,
         mo_target_left := 0, mo_target_right := 0, mo_command_left := 0, mo_command_right := 0,
         mo_stuck_start_ms := 0, mo_boost_until_ms := 0\<rparr>);
       _ \<leftarrow> hcics_motion_output 0 0;
       ret () } }"

definition hcics_motion_clear_emergency_stop :: "('a motion_scheme, unit) state" where
  "hcics_motion_clear_emergency_stop = do {
     result \<leftarrow> hcics_motion_ensure_init;
     if result \<noteq> RT_EOK then ret ()
     else modify (\<lambda>s. s\<lparr>mo_emergency_stop := False, mo_stop_reason := 0\<rparr>) }"

definition hcics_motion_reset :: "('a motion_scheme, unit) state" where
  "hcics_motion_reset = do {
     result \<leftarrow> hcics_motion_ensure_init;
     if result \<noteq> RT_EOK then ret ()
     else do {
       modify (\<lambda>s. s\<lparr>mo_target_left := 0, mo_target_right := 0,
         mo_command_left := 0, mo_command_right := 0, mo_actual_left := 0, mo_actual_right := 0,
         mo_output_left := 0, mo_output_right := 0,
         mo_encoder_left_total := 0, mo_encoder_right_total := 0,
         mo_encoder_left_fail_count := 0, mo_encoder_right_fail_count := 0,
         mo_stuck_start_ms := 0, mo_boost_until_ms := 0, mo_stuck_boost_count := 0,
         mo_actual_source := HCICS_MOTION_ACTUAL_NONE\<rparr>);
       _ \<leftarrow> hcics_motion_output 0 0;
       ret () } }"

definition hcics_motion_set_actual_speed :: "int \<Rightarrow> int \<Rightarrow> ('a motion_scheme, rt_err) state" where
  "hcics_motion_set_actual_speed left right = do {
     result \<leftarrow> hcics_motion_ensure_init;
     if result \<noteq> RT_EOK then ret (- RT_ERROR)
     else do {
       modify (\<lambda>s. s\<lparr>mo_actual_left := left, mo_actual_right := right,
         mo_actual_source := HCICS_MOTION_ACTUAL_EXTERNAL\<rparr>);
       ret RT_EOK } }"

definition hcics_motion_set_encoder_delta :: "int \<Rightarrow> int \<Rightarrow> ('a motion_scheme, rt_err) state" where
  "hcics_motion_set_encoder_delta left_delta right_delta = do {
     result \<leftarrow> hcics_motion_ensure_init;
     if result \<noteq> RT_EOK then ret (- RT_ERROR)
     else do {
       modify (\<lambda>s. s\<lparr>mo_actual_left := left_delta, mo_actual_right := right_delta,
         mo_encoder_left_total := i32 (mo_encoder_left_total s + left_delta),
         mo_encoder_right_total := i32 (mo_encoder_right_total s + right_delta),
         mo_actual_source := HCICS_MOTION_ACTUAL_EXTERNAL\<rparr>);
       ret RT_EOK } }"

text \<open>Target and actual speed of the left wheel, then of the right wheel.\<close>

definition hcics_motion_get_realtime :: "('a motion_scheme, int \<times> int \<times> int \<times> int) state" where
  "hcics_motion_get_realtime =
     gets (\<lambda>s. (mo_target_left s, mo_actual_left s, mo_target_right s, mo_actual_right s))"

record hcics_motion_snapshot =
  snap_initialized :: bool
  snap_output_ready :: bool
  snap_emergency_stop :: bool
  snap_stop_reason :: u8
  snap_actual_source :: hcics_motion_actual_source
  snap_target_left :: int
  snap_target_right :: int
  snap_command_left :: int
  snap_command_right :: int
  snap_actual_left :: int
  snap_actual_right :: int
  snap_output_left :: int
  snap_output_right :: int
  snap_encoder_left_total :: int
  snap_encoder_right_total :: int
  snap_boost_active_ms :: u32
  snap_last_update_tick :: u32

definition hcics_motion_get_snapshot :: "('a motion_scheme, hcics_motion_snapshot) state" where
  "hcics_motion_get_snapshot = do {
     now \<leftarrow> now_ms;
     gets (\<lambda>s. \<lparr>snap_initialized = mo_initialized s, snap_output_ready = mo_output_ready s,
       snap_emergency_stop = mo_emergency_stop s, snap_stop_reason = mo_stop_reason s,
       snap_actual_source = mo_actual_source s,
       snap_target_left = mo_target_left s, snap_target_right = mo_target_right s,
       snap_command_left = mo_command_left s, snap_command_right = mo_command_right s,
       snap_actual_left = mo_actual_left s, snap_actual_right = mo_actual_right s,
       snap_output_left = mo_output_left s, snap_output_right = mo_output_right s,
       snap_encoder_left_total = mo_encoder_left_total s,
       snap_encoder_right_total = mo_encoder_right_total s,
       snap_boost_active_ms =
         (if mo_boost_until_ms s \<noteq> 0 \<and> sint (mo_boost_until_ms s - now) > 0
          then mo_boost_until_ms s - now else 0),
       snap_last_update_tick = mo_last_update_tick s\<rparr>) }"

section \<open>Speed lemmas\<close>

lemma abs16_eq: "\<bar>x\<bar> \<le> 32767 \<Longrightarrow> hcics_motion_abs16 x = \<bar>x\<bar>"
  by (simp add: hcics_motion_abs16_def i16_id is_i16_def)

lemma clamp_raw_bound: "\<bar>hcics_motion_clamp_raw x\<bar> \<le> 250"
  by (auto simp: hcics_motion_clamp_raw_def motion_speed_defs abs_le_iff)

lemma clamp_raw_id: "\<bar>x\<bar> \<le> 250 \<Longrightarrow> hcics_motion_clamp_raw x = x"
  by (auto simp: hcics_motion_clamp_raw_def motion_speed_defs abs_le_iff)

lemma normalize_eq:
  "hcics_motion_normalize_target x =
     (if x = 0 then 0 else if \<bar>x\<bar> < 25 then 25 * sgn x else if \<bar>x\<bar> > 250 then 250 * sgn x else x)"
  by (auto simp: hcics_motion_normalize_target_def hcics_motion_clamp_raw_def
      hcics_motion_abs16_def motion_speed_defs Let_def i16_id is_i16_def sgn_if)

lemma normalize_bound: "\<bar>hcics_motion_normalize_target x\<bar> \<le> 250"
  by (auto simp: normalize_eq sgn_if)

lemma ramp_eq:
  assumes "\<bar>c\<bar> \<le> 250" "\<bar>t\<bar> \<le> 250"
  shows "hcics_motion_ramp_toward c t =
    (if \<bar>t - c\<bar> \<le> 15 then t else c + 15 * sgn (t - c))"
proof -
  have "i16 (c + 15) = c + 15" "i16 (c - 15) = c - 15"
    using assms by (simp_all add: i16_id is_i16_def abs_le_iff)
  then show ?thesis
    by (auto simp: hcics_motion_ramp_toward_def motion_speed_defs Let_def sgn_if abs_if)
qed

lemma ramp_bound:
  assumes "\<bar>c\<bar> \<le> 250" "\<bar>t\<bar> \<le> 250"
  shows "\<bar>hcics_motion_ramp_toward c t\<bar> \<le> 250"
  using assms by (auto simp: ramp_eq sgn_if split: if_splits)

lemma preserve_direction_eq:
  assumes "\<bar>x\<bar> \<le> 250"
  shows "hcics_motion_preserve_direction x 90 = (if \<bar>x\<bar> \<ge> 90 then x else 90 * sgn x)"
  using assms
  by (auto simp: hcics_motion_preserve_direction_def abs16_eq Let_def i16_id is_i16_def sgn_if)

lemma motion_pulse_eq:
  assumes "\<bar>x\<bar> \<le> 250"
  shows "uint (motion_pulse x) = 3600 * \<bar>x\<bar>"
proof -
  have "hcics_motion_abs16 x = \<bar>x\<bar>" using assms by (simp add: abs16_eq)
  have "uint (word_of_int \<bar>x\<bar> * 900000 :: u32) = \<bar>x\<bar> * 900000"
    using assms by (simp add: uint_mult_lem [THEN iffD1] unsigned_of_int take_bit_int_eq_self uint_word_ariths)
  then have "uint ((word_of_int \<bar>x\<bar> * 900000 :: u32) div 250) = \<bar>x\<bar> * 900000 div 250"
    by (simp add: uint_div)
  also have "\<dots> = 3600 * \<bar>x\<bar>"
    by simp
  finally show ?thesis
    unfolding motion_pulse_def \<open>hcics_motion_abs16 x = \<bar>x\<bar>\<close>
    by (simp add: HCICS_MOTION_PWM_FULL_PULSE_NS_def motion_speed_defs)
qed


section \<open>What the outputs may do\<close>

text \<open>
  \<open>drive_call m c\<close>: the call \<open>c\<close> drives the wheels at most at speed \<open>m\<close>. A PWM pulse has at most
  the share \<open>m / 250\<close> of the full pulse of 90 percent of the period; a callback gets at most \<open>m\<close>; and
  at speed 0 every pin written goes low: the bridge inputs and the standby line.
\<close>

fun drive_call :: "int \<Rightarrow> hw_call \<Rightarrow> bool" where
  "drive_call m (Pwm_Set _ _ period pulse) \<longleftrightarrow> period = 1000000 \<and> uint pulse \<le> 3600 * m"
| "drive_call m (Motor_Output l r) \<longleftrightarrow> \<bar>l\<bar> \<le> m \<and> \<bar>r\<bar> \<le> m"
| "drive_call m (Pin_Write _ v) \<longleftrightarrow> (m = 0 \<longrightarrow> v = PIN_LOW)"
| "drive_call m _ \<longleftrightarrow> True"

lemma device_call_drive [simp]: "device_call c \<Longrightarrow> drive_call m c"
  by (cases c) simp_all

lemmas motion_pin_defs = hcics_motion_inactive_stby_level_def HCICS_MOTION_STBY_ACTIVE_LEVEL_def

text \<open>The calls the adapter makes when it drives the wheels at most at speed \<open>m\<close>.\<close>

definition motion_pins :: "int set" where
  "motion_pins = {HCICS_MOTION_LEFT_A_PIN, HCICS_MOTION_LEFT_B_PIN, HCICS_MOTION_RIGHT_A_PIN,
     HCICS_MOTION_RIGHT_B_PIN, HCICS_MOTION_STBY_PIN}"

fun motion_call :: "int \<Rightarrow> hw_call \<Rightarrow> bool" where
  "motion_call m (Pwm_Set name _ period pulse) \<longleftrightarrow>
     name = HCICS_MOTION_PWM_DEVICE_NAME \<and> period = 1000000 \<and> uint pulse \<le> 3600 * m"
| "motion_call m (Pwm_Enable name _) \<longleftrightarrow> name = HCICS_MOTION_PWM_DEVICE_NAME"
| "motion_call m (Pwm_Disable name _) \<longleftrightarrow> name = HCICS_MOTION_PWM_DEVICE_NAME"
| "motion_call m (Motor_Output l r) \<longleftrightarrow> \<bar>l\<bar> \<le> m \<and> \<bar>r\<bar> \<le> m"
| "motion_call m (Pin_Write p v) \<longleftrightarrow> p \<in> motion_pins \<and> (m = 0 \<longrightarrow> v = PIN_LOW)"
| "motion_call m c \<longleftrightarrow> device_call c"

lemma motion_pins [simp]:
  "HCICS_MOTION_LEFT_A_PIN \<in> motion_pins" "HCICS_MOTION_LEFT_B_PIN \<in> motion_pins"
  "HCICS_MOTION_RIGHT_A_PIN \<in> motion_pins" "HCICS_MOTION_RIGHT_B_PIN \<in> motion_pins"
  "HCICS_MOTION_STBY_PIN \<in> motion_pins"
  by (simp_all add: motion_pins_def)

lemma motion_call_drive [simp]: "motion_call m c \<Longrightarrow> drive_call m c"
  by (cases c) simp_all

lemma device_call_motion [simp]: "device_call c \<Longrightarrow> motion_call m c"
  by (cases c) simp_all

lemma inactive_stby [simp]: "hcics_motion_inactive_stby_level = PIN_LOW"
  by (simp add: motion_pin_defs)

text \<open>
  \<open>driven m tr0 s\<close>: since the trace \<open>tr0\<close> the wheels were driven at most at speed \<open>m\<close>, which is
  also a bound of the last output. \<open>held tr0 s\<close>: the emergency stop is latched, and since
  \<open>tr0\<close> nothing drove the wheels.
\<close>

definition driven :: "int \<Rightarrow> hw_call list \<Rightarrow> 'a motion_scheme \<Rightarrow> bool" where
  "driven m tr0 s \<longleftrightarrow> extends (drive_call m) tr0 (trace s) \<and>
     \<bar>mo_target_left s\<bar> \<le> m \<and> \<bar>mo_target_right s\<bar> \<le> m \<and>
     \<bar>mo_command_left s\<bar> \<le> m \<and> \<bar>mo_command_right s\<bar> \<le> m \<and>
     \<bar>mo_output_left s\<bar> \<le> m \<and> \<bar>mo_output_right s\<bar> \<le> m"

definition held :: "hw_call list \<Rightarrow> 'a motion_scheme \<Rightarrow> bool" where
  "held tr0 s \<longleftrightarrow> extends (drive_call 0) tr0 (trace s) \<and> mo_emergency_stop s"

lemma motion_enc_simps [simp]:
  "mo_target_left (enc_update w f s) = mo_target_left s"
  "mo_target_right (enc_update w f s) = mo_target_right s"
  "mo_command_left (enc_update w f s) = mo_command_left s"
  "mo_command_right (enc_update w f s) = mo_command_right s"
  "mo_output_left (enc_update w f s) = mo_output_left s"
  "mo_output_right (enc_update w f s) = mo_output_right s"
  "mo_emergency_stop (enc_update w f s) = mo_emergency_stop s"
  "mo_initialized (enc_update w f s) = mo_initialized s"
  by (cases w; simp)+

text \<open>
  The output stage under any invariant that allows the calls of a drive up to \<open>m\<close> and a
  latched emergency stop.
\<close>

locale motion_output =
  fixes inv :: "'a motion_scheme \<Rightarrow> bool" and m :: int
  assumes bound: "0 \<le> m" "m \<le> 250"
    and call: "motion_call m c \<Longrightarrow> inv s \<Longrightarrow> inv (s\<lparr>trace := c # trace s\<rparr>)"
    and stop: "inv s \<Longrightarrow> inv (s\<lparr>mo_emergency_stop := True, mo_stop_reason := v\<rparr>)"
    and out: "\<bar>l\<bar> \<le> m \<Longrightarrow> \<bar>r\<bar> \<le> m \<Longrightarrow> inv s \<Longrightarrow> inv (s\<lparr>mo_output_left := l, mo_output_right := r\<rparr>)"
begin

lemma pres_call: "motion_call m c \<Longrightarrow> preserves inv (hw_do c)"
  "motion_call m c \<Longrightarrow> preserves inv (hw_out c)"
  by (auto intro: preserves_hw_do preserves_hw_out call)

lemmas pres_basic = pres pres_call

lemma pres_gpio_safe: "preserves inv hcics_motion_gpio_safe"
  unfolding hcics_motion_gpio_safe_def by (intro pres_basic) simp_all

lemma pres_gpio_init: "preserves inv hcics_motion_gpio_init"
  unfolding hcics_motion_gpio_init_def by (intro pres_basic pres_gpio_safe) simp_all

lemma pres_pwm_fail: "preserves inv (hcics_motion_pwm_fail result)"
  unfolding hcics_motion_pwm_fail_def
  by (intro pres_basic pres_gpio_safe preserves_modify) (simp_all add: stop)

lemma pres_write_dir:
  "\<bar>v\<bar> \<le> m \<Longrightarrow> pa \<in> motion_pins \<Longrightarrow> pb \<in> motion_pins \<Longrightarrow>
     preserves inv (hcics_motion_write_dir pa pb v)"
  unfolding hcics_motion_write_dir_def by (intro pres_basic) auto

lemma pulse_bound: "\<bar>v\<bar> \<le> m \<Longrightarrow> uint (motion_pulse v) \<le> 3600 * m"
  using bound by (simp add: motion_pulse_eq)

lemma pres_output: "\<bar>l\<bar> \<le> m \<Longrightarrow> \<bar>r\<bar> \<le> m \<Longrightarrow> preserves inv (hcics_motion_output l r)"
  unfolding hcics_motion_output_def hcics_motion_output_pwm_def
  by (intro pres_basic pres_gpio_safe pres_pwm_fail pres_write_dir preserves_modify)
    (auto simp: out pulse_bound HCICS_MOTION_PWM_PERIOD_NS_def)

end

text \<open>
  The whole adapter under such an invariant: of the adapter's own state it may depend on its being
  initialised, on the latch and on the speeds being in range only. For the calls that drive, in \<open>motion_client\<close>, the wheels may
  only be driven when the latch is open.
\<close>

definition speeds_ok :: "'a motion_scheme \<Rightarrow> bool" where
  "speeds_ok s \<longleftrightarrow>
     \<bar>mo_target_left s\<bar> \<le> 250 \<and> \<bar>mo_target_right s\<bar> \<le> 250 \<and>
     \<bar>mo_command_left s\<bar> \<le> 250 \<and> \<bar>mo_command_right s\<bar> \<le> 250 \<and>
     \<bar>mo_output_left s\<bar> \<le> 250 \<and> \<bar>mo_output_right s\<bar> \<le> 250"

locale motion_keeps = motion_output inv m + dev: encoder_client inv
  for inv :: "'a motion_scheme \<Rightarrow> bool" and m +
  assumes step: "inv s \<Longrightarrow> encoder.truncate t = encoder.truncate s \<Longrightarrow> motion.more t = motion.more s \<Longrightarrow>
      mo_initialized s \<longrightarrow> mo_initialized t \<Longrightarrow> mo_emergency_stop s \<longrightarrow> mo_emergency_stop t \<Longrightarrow>
      speeds_ok s \<longrightarrow> speeds_ok t \<Longrightarrow> inv t"
begin

lemma pres_modify:
  assumes "\<And>s. encoder.truncate (f s) = encoder.truncate s" "\<And>s. motion.more (f s) = motion.more s"
    "\<And>s. mo_initialized s \<longrightarrow> mo_initialized (f s)" "\<And>s. mo_emergency_stop s \<longrightarrow> mo_emergency_stop (f s)"
    "\<And>s. speeds_ok s \<longrightarrow> speeds_ok (f s)"
  shows "preserves inv (modify f)"
proof (rule preserves_modify)
  fix s assume "inv s"
  then show "inv (f s)"
    using step [of s "f s"] assms by blast
qed

lemmas pres_all = pres_basic pres_modify dev.pres_find dev.pres_open dev.pres_read
  dev.pres_device_control pres_output pres_gpio_init

lemma pres_open_encoder: "preserves inv (hcics_motion_open_encoder name n)"
  unfolding hcics_motion_open_encoder_def by (intro pres_all)

lemma pres_refresh: "preserves inv hcics_motion_refresh_output_mode"
  unfolding hcics_motion_refresh_output_mode_def by (intro pres_all) (simp_all add: speeds_ok_def encoder.defs)

lemma pres_init: "preserves inv hcics_motion_init"
  unfolding hcics_motion_init_def hcics_motion_find_pwm_def
  by (intro pres_all pres_open_encoder pres_refresh) (simp_all add: speeds_ok_def encoder.defs bound)

lemma pres_ensure: "preserves inv hcics_motion_ensure_init"
  unfolding hcics_motion_ensure_init_def by (intro pres_all pres_init)

lemma pres_read_delta: "preserves inv (hcics_motion_read_encoder_delta d n delta)"
  unfolding hcics_motion_read_encoder_delta_def by (intro pres_all)

lemma pres_poll: "preserves inv hcics_motion_poll_actual_speed"
  unfolding hcics_motion_poll_actual_speed_def
  by (intro pres_all pres_read_delta) (simp_all add: speeds_ok_def encoder.defs)

lemma pres_boost: "preserves inv (hcics_motion_apply_stuck_boost l r)"
  unfolding hcics_motion_apply_stuck_boost_def motion_detect_stuck_def motion_stuck_fault_def
  by (intro pres_all) (simp_all add: speeds_ok_def encoder.defs)

lemma pres_estop: "preserves inv (hcics_motion_emergency_stop reason)"
  unfolding hcics_motion_emergency_stop_def
  by (intro pres_all pres_ensure) (simp_all add: speeds_ok_def encoder.defs bound)

lemma pres_reset: "preserves inv hcics_motion_reset"
  unfolding hcics_motion_reset_def
  by (intro pres_all pres_ensure) (simp_all add: speeds_ok_def encoder.defs bound)

lemma pres_set_cb: "preserves inv (hcics_motion_set_output_callback cb)"
  unfolding hcics_motion_set_output_callback_def
  by (intro pres_all pres_ensure pres_refresh) (simp_all add: speeds_ok_def encoder.defs)

lemma pres_set_actual: "preserves inv (hcics_motion_set_actual_speed l r)"
  unfolding hcics_motion_set_actual_speed_def
  by (intro pres_all pres_ensure) (simp_all add: speeds_ok_def encoder.defs)

lemma pres_set_delta: "preserves inv (hcics_motion_set_encoder_delta l r)"
  unfolding hcics_motion_set_encoder_delta_def
  by (intro pres_all pres_ensure) (simp_all add: speeds_ok_def encoder.defs)

lemma pres_set_target: "preserves inv (hcics_motion_set_target l r)"
  unfolding hcics_motion_set_target_def
  by (intro pres_all pres_ensure) (simp_all add: speeds_ok_def encoder.defs normalize_bound)

end

text \<open>With the latch open the commands are in range, and so are the outputs.\<close>

locale motion_client = motion_keeps inv m for inv :: "'a motion_scheme \<Rightarrow> bool" and m +
  assumes moving: "inv s \<Longrightarrow> \<not> mo_emergency_stop s \<Longrightarrow> m = 250 \<and> speeds_ok s"
begin

lemma speeds_ok_ramp:
  "speeds_ok s \<longrightarrow> speeds_ok (s\<lparr>
     mo_command_left := hcics_motion_ramp_toward (mo_command_left s) (mo_target_left s),
     mo_command_right := hcics_motion_ramp_toward (mo_command_right s) (mo_target_right s)\<rparr>)"
  by (simp add: speeds_ok_def ramp_bound)

lemma pres_drive:
  assumes "m = 250" shows "preserves inv (motion_drive direct)"
  unfolding motion_drive_def
  by (intro pres_all pres_boost)
    (simp_all add: assms clamp_raw_bound speeds_ok_ramp encoder.defs, simp_all add: speeds_ok_def)

lemma pres_service: "preserves inv (hcics_motion_service direct)"
proof -
  have serve: "preserves inv (do {
      stopped \<leftarrow> gets mo_emergency_stop;
      if stopped then do {
        tick \<leftarrow> rt_tick_get;
        modify (\<lambda>s. s\<lparr>mo_target_left := 0, mo_target_right := 0,
          mo_command_left := 0, mo_command_right := 0,
          mo_stuck_start_ms := 0, mo_boost_until_ms := 0, mo_last_update_tick := tick\<rparr>);
        hcics_motion_output 0 0 }
      else motion_drive direct })" (is "preserves inv (gets _ \<bind> ?rest)")
  proof (rule preservesI)
    fix s assume i: "inv s"
    have "preserves inv (?rest (mo_emergency_stop s))"
    proof (cases "mo_emergency_stop s")
      case True
      have "preserves inv (?rest True)"
        unfolding if_True by (intro pres_all) (simp_all add: speeds_ok_def encoder.defs bound)
      with True show ?thesis by simp
    next
      case False
      then show ?thesis
        using moving [OF i] pres_drive by simp
    qed
    then show "wp (gets mo_emergency_stop \<bind> ?rest) (\<lambda>_. inv) s"
      using i by (simp add: wp_bind wp_gets preserves_wp)
  qed
  show ?thesis
    unfolding hcics_motion_service_def
    by (rule serve pres_ensure pres_poll pres_output preserves_ret preserves_if preserves_bind |
        simp add: bound)+
qed

lemma pres_set_direct: "preserves inv (hcics_motion_set_target_direct l r)"
  unfolding hcics_motion_set_target_direct_def
  by (intro pres_all pres_ensure pres_service) (simp_all add: speeds_ok_def encoder.defs normalize_bound)

end

interpretation drive: motion_client "driven 250 tr0" 250 for tr0
  by unfold_locales (simp_all add: driven_def speeds_ok_def encoder.defs)

interpretation hold: motion_client "held tr0" 0 for tr0
  by unfold_locales (simp_all add: held_def encoder.defs)

section \<open>Step by step\<close>

text \<open>\<open>only_encoders s t\<close>: from \<open>s\<close> to \<open>t\<close> only the encoder objects and the trace changed.\<close>

definition only_encoders :: "'a motion_scheme \<Rightarrow> 'a motion_scheme \<Rightarrow> bool" where
  "only_encoders s t \<longleftrightarrow>
     (\<exists>l r tr. t = s\<lparr>g_left_encoder := l, g_right_encoder := r, trace := tr\<rparr>)"

lemma only_encoders_refl: "only_encoders s s"
  unfolding only_encoders_def
  by (intro exI [of _ "g_left_encoder s"] exI [of _ "g_right_encoder s"] exI [of _ "trace s"]) simp

lemma only_encoders_enc: "only_encoders s t \<Longrightarrow> only_encoders s (enc_update w f t)"
proof -
  assume "only_encoders s t"
  then obtain l r tr where "t = s\<lparr>g_left_encoder := l, g_right_encoder := r, trace := tr\<rparr>"
    unfolding only_encoders_def by blast
  then have "enc_update w f t = s\<lparr>
      g_left_encoder := (case w of Left_Wheel \<Rightarrow> f l | Right_Wheel \<Rightarrow> l),
      g_right_encoder := (case w of Left_Wheel \<Rightarrow> r | Right_Wheel \<Rightarrow> f r), trace := tr\<rparr>"
    by (cases w) simp_all
  then show ?thesis
    unfolding only_encoders_def by blast
qed

interpretation only_enc: encoder_client "only_encoders s" for s
  by unfold_locales (rule only_encoders_enc, assumption, force simp: only_encoders_def)

lemma vc_read_delta:
  assumes "\<And>ok n d l r tr. Q (ok, n, d) (s\<lparr>g_left_encoder := l, g_right_encoder := r, trace := tr\<rparr>)"
  shows "wp (hcics_motion_read_encoder_delta dev n delta) Q s"
proof -
  have "preserves (only_encoders s) (hcics_motion_read_encoder_delta dev n delta)"
    unfolding hcics_motion_read_encoder_delta_def
    by (intro only_enc.pres_basic only_enc.pres_read)
  then have "only_encoders s (snd (run_state (hcics_motion_read_encoder_delta dev n delta) s))"
    by (rule preservesD) (rule only_encoders_refl)
  then show ?thesis
    using assms unfolding wp_run only_encoders_def by (metis prod.collapse)
qed

text \<open>What the feedback does to the state: it latches the stop and clears the speeds, or leaves both.\<close>

lemma vc_poll:
  assumes "\<And>r t. \<lbrakk>r = - RT_ERROR; mo_emergency_stop t; mo_stop_reason t = 0xE2\<rbrakk> \<Longrightarrow> Q r t"
    and "\<And>t. \<lbrakk>mo_emergency_stop t = mo_emergency_stop s;
      mo_target_left t = mo_target_left s; mo_target_right t = mo_target_right s;
      mo_command_left t = mo_command_left s; mo_command_right t = mo_command_right s;
      mo_output_left t = mo_output_left s; mo_output_right t = mo_output_right s\<rbrakk> \<Longrightarrow> Q RT_EOK t"
  shows "wp hcics_motion_poll_actual_speed Q s"
  unfolding hcics_motion_poll_actual_speed_def
  by (intro vc vc_read_delta) (simp_all add: assms)

lemma vc_gpio_safe [vc]: "(\<And>tr. Q () (s\<lparr>trace := tr\<rparr>)) \<Longrightarrow> wp hcics_motion_gpio_safe Q s"
  unfolding hcics_motion_gpio_safe_def by (intro vc) simp

lemma vc_write_dir [vc]: "(\<And>tr. Q () (s\<lparr>trace := tr\<rparr>)) \<Longrightarrow> wp (hcics_motion_write_dir a b v) Q s"
  unfolding hcics_motion_write_dir_def by (intro vc) simp_all

lemma vc_pwm_fail [vc]:
  assumes "\<And>tr. Q r (s\<lparr>trace := tr, mo_emergency_stop := True, mo_stop_reason := 0xE1\<rparr>)"
  shows "wp (hcics_motion_pwm_fail r) Q s"
  unfolding hcics_motion_pwm_fail_def using assms by (intro vc) simp

lemma vc_output:
  assumes "\<And>tr r. Q r (s\<lparr>mo_output_left := x, mo_output_right := y, trace := tr\<rparr>)"
    and "\<And>tr. Q (- RT_ERROR) (s\<lparr>mo_output_left := x, mo_output_right := y, trace := tr,
      mo_emergency_stop := True, mo_stop_reason := 0xE1\<rparr>)"
  shows "wp (hcics_motion_output x y) Q s"
  unfolding hcics_motion_output_def hcics_motion_output_pwm_def
  using assms by (intro vc) auto

text \<open>
  What the stuck detection may do to the speeds: raise the fault, leave them alone, or push
  both up to the boost speed in their own direction.
\<close>

lemma vc_boost:
  assumes "\<And>r a b t. \<lbrakk>r = - RT_ERROR; mo_emergency_stop t; mo_stop_reason t = 0xE3\<rbrakk> \<Longrightarrow> Q (r, a, b) t"
    and "\<And>a b t. \<lbrakk>(a, b) = (x, y) \<or>
        (a, b) = (hcics_motion_preserve_direction x 90, hcics_motion_preserve_direction y 90);
      mo_emergency_stop t = mo_emergency_stop s;
      mo_target_left t = mo_target_left s; mo_target_right t = mo_target_right s;
      mo_command_left t = mo_command_left s; mo_command_right t = mo_command_right s\<rbrakk> \<Longrightarrow>
      Q (RT_EOK, a, b) t"
  shows "wp (hcics_motion_apply_stuck_boost x y) Q s"
  unfolding hcics_motion_apply_stuck_boost_def motion_detect_stuck_def motion_stuck_fault_def
  by (intro vc) (simp_all add: assms HCICS_MOTION_STUCK_BOOST_CMD_def)

text \<open>
  \<open>motion_stopped t\<close>: the emergency stop is latched and the last output was 0.
\<close>

definition motion_stopped :: "'a motion_scheme \<Rightarrow> bool" where
  "motion_stopped t \<longleftrightarrow> mo_emergency_stop t \<and> mo_output_left t = 0 \<and> mo_output_right t = 0"

text \<open>
  One step of the ramp towards the targets of \<open>s\<close>, and the outputs it leads to: the commands, or
  both boosted in their own direction.
\<close>

definition ramp_step :: "int \<Rightarrow> int \<Rightarrow> int" where
  "ramp_step c t = (if \<bar>t - c\<bar> \<le> 15 then t else c + 15 * sgn (t - c))"

definition boosted :: "int \<Rightarrow> int" where
  "boosted c = (if \<bar>c\<bar> \<ge> 90 then c else 90 * sgn c)"

definition motion_ramped :: "'a motion_scheme \<Rightarrow> 'a motion_scheme \<Rightarrow> bool" where
  "motion_ramped s t \<longleftrightarrow>
     mo_target_left t = mo_target_left s \<and> mo_target_right t = mo_target_right s \<and>
     mo_command_left t = ramp_step (mo_command_left s) (mo_target_left s) \<and>
     mo_command_right t = ramp_step (mo_command_right s) (mo_target_right s) \<and>
     ((mo_output_left t, mo_output_right t) = (mo_command_left t, mo_command_right t) \<or>
      (mo_output_left t, mo_output_right t) =
        (boosted (mo_command_left t), boosted (mo_command_right t)))"

lemma boosted_bound: "\<bar>c\<bar> \<le> 250 \<Longrightarrow> \<bar>boosted c\<bar> \<le> 250"
  by (simp add: boosted_def sgn_if)

lemma ramp_step_bound: "\<bar>c\<bar> \<le> 250 \<Longrightarrow> \<bar>t\<bar> \<le> 250 \<Longrightarrow> \<bar>ramp_step c t\<bar> \<le> 250"
  using ramp_bound [of c t] by (simp add: ramp_eq ramp_step_def)

lemma drive_outcome:
  assumes "speeds_ok s"
  shows "wp (motion_drive False) (\<lambda>r t. motion_stopped t \<or> motion_ramped s t) s"
proof -
  let ?l = "ramp_step (mo_command_left s) (mo_target_left s)"
  let ?r = "ramp_step (mo_command_right s) (mo_target_right s)"
  have ramp: "hcics_motion_ramp_toward (mo_command_left s) (mo_target_left s) = ?l"
    "hcics_motion_ramp_toward (mo_command_right s) (mo_target_right s) = ?r"
    using assms by (simp_all add: speeds_ok_def ramp_eq ramp_step_def)
  have "\<bar>?l\<bar> \<le> 250" "\<bar>?r\<bar> \<le> 250"
    using assms by (simp_all add: speeds_ok_def ramp_step_bound)
  then have clamp: "hcics_motion_clamp_raw ?l = ?l" "hcics_motion_clamp_raw ?r = ?r"
    "hcics_motion_clamp_raw (boosted ?l) = boosted ?l"
    "hcics_motion_clamp_raw (boosted ?r) = boosted ?r"
    "hcics_motion_preserve_direction ?l 90 = boosted ?l"
    "hcics_motion_preserve_direction ?r 90 = boosted ?r"
    by (simp_all add: clamp_raw_id boosted_bound preserve_direction_eq flip: boosted_def)
  show ?thesis
    unfolding motion_drive_def
    by (intro vc vc_boost vc_output)
      (auto simp: ramp clamp motion_stopped_def motion_ramped_def)
qed

lemma motion_ensure_initialized:
  "mo_initialized s \<Longrightarrow> run_state hcics_motion_ensure_init s = (RT_EOK, s)"
  by (simp add: hcics_motion_ensure_init_def)

lemma vc_ensure: "mo_initialized s \<Longrightarrow> Q RT_EOK s \<Longrightarrow> wp hcics_motion_ensure_init Q s"
  by (simp add: wp_def motion_ensure_initialized)

lemma vc_drive:
  "speeds_ok s \<Longrightarrow> (\<And>r t. motion_stopped t \<or> motion_ramped s t \<Longrightarrow> Q r t) \<Longrightarrow>
     wp (motion_drive False) Q s"
  by (rule wp_conseq [OF drive_outcome])

lemma update_outcome:
  assumes "mo_initialized s" "speeds_ok s" "\<not> mo_emergency_stop s"
  shows "wp hcics_motion_update (\<lambda>r t. motion_stopped t \<or> motion_ramped s t) s"
  unfolding hcics_motion_update_def hcics_motion_service_def
  by (intro vc vc_ensure vc_poll vc_output vc_drive)
    (use assms in \<open>simp_all add: motion_stopped_def motion_ramped_def speeds_ok_def\<close>)

section \<open>Runs\<close>

text \<open>What happens to the adapter from outside: its operations, time and wheel interrupts.\<close>

datatype motion_event =
    Mo_Init | Mo_Set_Callback bool | Mo_Set_Target int int | Mo_Set_Direct int int | Mo_Update
  | Mo_Stop u8 | Mo_Clear | Mo_Reset | Mo_Set_Actual int int | Mo_Set_Delta int int
  | Mo_Time u32 | Mo_Wheel wheel

fun motion_do :: "motion_event \<Rightarrow> ('a motion_scheme, unit) state" where
  "motion_do Mo_Init = do { _ \<leftarrow> hcics_motion_init; ret () }"
| "motion_do (Mo_Set_Callback b) = do { _ \<leftarrow> hcics_motion_set_output_callback b; ret () }"
| "motion_do (Mo_Set_Target l r) = do { _ \<leftarrow> hcics_motion_set_target l r; ret () }"
| "motion_do (Mo_Set_Direct l r) = do { _ \<leftarrow> hcics_motion_set_target_direct l r; ret () }"
| "motion_do Mo_Update = do { _ \<leftarrow> hcics_motion_update; ret () }"
| "motion_do (Mo_Stop reason) = hcics_motion_emergency_stop reason"
| "motion_do Mo_Clear = hcics_motion_clear_emergency_stop"
| "motion_do Mo_Reset = hcics_motion_reset"
| "motion_do (Mo_Set_Actual l r) = do { _ \<leftarrow> hcics_motion_set_actual_speed l r; ret () }"
| "motion_do (Mo_Set_Delta l r) = do { _ \<leftarrow> hcics_motion_set_encoder_delta l r; ret () }"
| "motion_do (Mo_Time ticks) = modify (\<lambda>s. s\<lparr>clock := clock s + ticks\<rparr>)"
| "motion_do (Mo_Wheel w) = hcics_encoder_irq w"

inductive motion_step :: "motion_event \<Rightarrow> 'a motion_scheme \<Rightarrow> 'a motion_scheme \<Rightarrow> bool" where
  "run_state (motion_do e) s = ((), t) \<Longrightarrow> motion_step e s t"

inductive motion_runs ::
  "motion_event list \<Rightarrow> 'a motion_scheme \<Rightarrow> 'a motion_scheme \<Rightarrow> bool" where
  motion_done: "motion_runs [] s s"
| motion_more: "motion_step e s t \<Longrightarrow> motion_runs es t u \<Longrightarrow> motion_runs (e # es) s u"

inductive_cases motion_step_cases: "motion_step e s t"
inductive_simps motion_runs_Nil [simp]: "motion_runs [] s t"

context motion_client begin

lemmas pres_event = pres_init pres_set_cb pres_set_target pres_set_direct pres_service pres_estop
  pres_reset pres_set_actual pres_set_delta dev.pres_irq

lemma event_keeps:
  assumes "\<And>s t. e = Mo_Clear \<Longrightarrow> inv s \<Longrightarrow> motion_step Mo_Clear s t \<Longrightarrow> inv t"
    and time: "\<And>s k. inv s \<Longrightarrow> inv (s\<lparr>clock := k\<rparr>)"
    and "motion_step e s t" "inv s"
  shows "inv t"
proof (cases "e = Mo_Clear")
  case True
  then show ?thesis using assms by blast
next
  case False
  have "preserves inv (motion_do e)"
  proof (cases "\<exists>ms. e = Mo_Time ms")
    case True
    then show ?thesis
      by (auto intro!: preserves_modify time)
  next
    case now: False
    with False show ?thesis
      by (cases e) (auto simp: hcics_motion_update_def speeds_ok_def encoder.defs
          intro!: pres pres_event pres_modify)
  qed
  then show ?thesis
    using assms(3,4) by (auto elim!: motion_step_cases dest: preservesD)
qed

lemma runs_keep:
  assumes "\<And>s t. Mo_Clear \<in> set es \<Longrightarrow> inv s \<Longrightarrow> motion_step Mo_Clear s t \<Longrightarrow> inv t"
    and "\<And>s k. inv s \<Longrightarrow> inv (s\<lparr>clock := k\<rparr>)"
    and "motion_runs es s t" "inv s"
  shows "inv t"
  using assms(3,4,1)
proof (induction rule: motion_runs.induct)
  case (motion_more e s t es u)
  have "inv t"
    by (rule event_keeps [OF _ assms(2) motion_more.hyps(1)]) (use motion_more.prems in auto)
  then show ?case
    using motion_more.IH motion_more.prems(2) by (metis list.set_intros(2))
qed

end


section \<open>Lost feedback\<close>

text \<open>
  \<open>blind d s\<close>: the left encoder is a device \<open>d\<close> that delivers nothing. It stays so whatever the
  adapter does.
\<close>

definition blind :: "string \<Rightarrow> 'a motion_scheme \<Rightarrow> bool" where
  "blind d s \<longleftrightarrow> mo_initialized s \<and> mo_left_encoder s = Some (Other_Dev d) \<and>
     (\<forall>tr. answer s (Dev_Read d # tr) \<noteq> 1)"

definition blind_count :: "string \<Rightarrow> u8 \<Rightarrow> 'a motion_scheme \<Rightarrow> bool" where
  "blind_count d k s \<longleftrightarrow> blind d s \<and> mo_encoder_left_fail_count s = k"

lemma blind_enc [simp]: "blind_count d k (enc_update w f s) = blind_count d k s"
  by (cases w) (simp_all add: blind_count_def blind_def)

lemmas motion_output_defs = hcics_motion_output_def hcics_motion_output_pwm_def
  hcics_motion_pwm_fail_def hcics_motion_gpio_safe_def hcics_motion_write_dir_def

lemma blind_output: "preserves (blind_count d k) (hcics_motion_output l r)"
  unfolding motion_output_defs
  by (intro pres preserves_modify preserves_hw_do preserves_hw_out)
    (simp_all add: blind_count_def blind_def)

lemma blind_drive: "preserves (blind_count d k) (motion_drive direct)"
  unfolding motion_drive_def hcics_motion_apply_stuck_boost_def motion_detect_stuck_def
    motion_stuck_fault_def
  by (intro pres blind_output preserves_modify) (simp_all add: blind_count_def blind_def)

lemma run_blind_read:
  "blind d s \<Longrightarrow> \<exists>tr. run_state (hcics_motion_read_encoder_delta (mo_left_encoder s) n 0) s =
     ((False, n, 0), s\<lparr>trace := tr\<rparr>)"
  by (auto simp: blind_def hcics_motion_read_encoder_delta_def)

lemma vc_blind_read:
  assumes "blind d s" "\<And>tr. Q (False, n, 0) (s\<lparr>trace := tr\<rparr>)"
  shows "wp (hcics_motion_read_encoder_delta (mo_left_encoder s) n 0) Q s"
  using run_blind_read [OF assms(1), of n] assms(2) by (auto simp: wp_def)

lemma u8_count: "(k::u8) < 20 \<Longrightarrow> k < 255 \<and> (20 \<le> k + 1 \<longleftrightarrow> k = 19)"
proof -
  assume "k < 20"
  then have k: "unat k < 20" by (simp add: word_less_nat_alt)
  then have "unat (k + 1) = unat k + 1"
    by (simp add: unat_word_ariths)
  then show ?thesis
    using k by (auto simp: word_less_nat_alt word_le_nat_alt word_unat_eq_iff)
qed

lemma blind_poll:
  assumes "blind_count d k s" "mo_target_left s \<noteq> 0" "k < 20"
  shows "wp hcics_motion_poll_actual_speed (\<lambda>r t. blind_count d (k + 1) t \<and>
     (r = - RT_ERROR \<and> mo_emergency_stop t \<and> mo_stop_reason t = 0xE2 \<or>
      k \<noteq> 19 \<and> r = RT_EOK \<and> mo_target_left t = mo_target_left s \<and>
        mo_emergency_stop t = mo_emergency_stop s)) s"
  unfolding hcics_motion_poll_actual_speed_def
  by (intro vc vc_blind_read vc_read_delta)
    (use assms u8_count [OF assms(3)] in
      \<open>auto simp: blind_count_def blind_def HCICS_MOTION_ENCODER_FAIL_LIMIT_def\<close>)


text \<open>The first so many updates in a row.\<close>

fun motion_updates :: "nat \<Rightarrow> ('a motion_scheme, rt_err) state" where
  "motion_updates 0 = ret RT_EOK"
| "motion_updates (Suc n) = do { _ \<leftarrow> motion_updates n; hcics_motion_update }"

lemma drive_keeps_target:
  "wp (motion_drive False) (\<lambda>r t. mo_emergency_stop t \<or> mo_target_left t = mo_target_left s) s"
  unfolding motion_drive_def by (intro vc vc_boost vc_output) simp_all

lemma preserves_wp_conj:
  "preserves I m \<Longrightarrow> I s \<Longrightarrow> wp m Q s \<Longrightarrow> wp m (\<lambda>r t. I t \<and> Q r t) s"
  by (simp add: preserves_def wp_run)

lemma blind_update:
  assumes "blind_count d k s" "k < 20" "mo_target_left s \<noteq> 0"
  shows "wp hcics_motion_update (\<lambda>r t. mo_emergency_stop t \<or>
     (k \<noteq> 19 \<and> blind_count d (k + 1) t \<and> mo_target_left t \<noteq> 0)) s"
  unfolding hcics_motion_update_def hcics_motion_service_def
  apply (intro vc vc_ensure wp_conseq [OF blind_poll] vc_output wp_conseq [OF preserves_wp_conj [OF blind_drive _ drive_keeps_target]])
  using assms
  by (auto simp: blind_count_def blind_def)

lemma held_update: "mo_emergency_stop s \<Longrightarrow> wp hcics_motion_update (\<lambda>r. mo_emergency_stop) s"
  using preservesD [OF hold.pres_service, of "trace s" s False]
  by (simp add: wp_run held_def hcics_motion_update_def)

lemma blind_updates:
  assumes "blind_count d 0 s" "mo_target_left s \<noteq> 0" "n \<le> 20"
  shows "wp (motion_updates n) (\<lambda>r t. mo_emergency_stop t \<or>
     (n < 20 \<and> blind_count d (word_of_nat n) t \<and> mo_target_left t \<noteq> 0)) s"
  using assms(3)
proof (induction n)
  case 0
  then show ?case using assms by (simp add: wp)
next
  case (Suc n)
  show ?case
    unfolding motion_updates.simps wp_bind
  proof (rule wp_conseq [OF Suc.IH])
    show "n \<le> 20" using Suc.prems by simp
  next
    fix r t
    assume a: "mo_emergency_stop t \<or>
      (n < 20 \<and> blind_count d (word_of_nat n) t \<and> mo_target_left t \<noteq> 0)"
    show "wp hcics_motion_update (\<lambda>_ t. mo_emergency_stop t \<or>
      (Suc n < 20 \<and> blind_count d (word_of_nat (Suc n)) t \<and> mo_target_left t \<noteq> 0)) t"
    proof (cases "mo_emergency_stop t")
      case True
      then show ?thesis
        by (intro wp_conseq [OF held_update]) simp_all
    next
      case False
      with a have k: "blind_count d (word_of_nat n) t" "n < 20" "mo_target_left t \<noteq> 0"
        by simp_all
      then have "(word_of_nat n :: u8) < 20" "(word_of_nat n :: u8) = 19 \<longleftrightarrow> n = 19"
        by (simp_all add: word_less_nat_alt word_unat_eq_iff unat_of_nat)
      then show ?thesis
        using k by (intro wp_conseq [OF blind_update]) (auto simp: add.commute)
    qed
  qed
qed

lemma clear_step_keeps:
  "preserves I hcics_motion_clear_emergency_stop \<Longrightarrow> I s \<Longrightarrow> motion_step Mo_Clear s t \<Longrightarrow> I t"
  by (erule motion_step_cases) (drule (1) preservesD, simp)

lemma driven_clear: "preserves (driven 250 tr0) hcics_motion_clear_emergency_stop"
  unfolding hcics_motion_clear_emergency_stop_def
  by (intro pres drive.pres_ensure preserves_modify) (simp_all add: driven_def)

section \<open>Properties\<close>

text \<open>An adapter at rest with both encoders of its own and a working PWM device.\<close>

definition motion_example :: motion where
  "motion_example = encoder.extend encoder_example
     (motion.fields True True False 0 HCICS_MOTION_ACTUAL_NONE 0 0 0 0 0 0 0 0 0 0 0 0 0 0 0 0 0 0
       (Some (Encoder_Dev Left_Wheel)) (Some (Encoder_Dev Right_Wheel)) True False)"

lemma motion_example_fields:
  "mo_initialized motion_example" "speeds_ok motion_example" "\<not> mo_emergency_stop motion_example"
  "mo_left_encoder motion_example = Some (Encoder_Dev Left_Wheel)"
  "trace motion_example = []"
  by (simp_all add: motion_example_def motion.defs encoder.defs encoder_example_def speeds_ok_def)

text \<open>
  C23: The drive is always within limits. Whatever sequence of calls, wheel interrupts and clock
  steps the adapter sees, the targets, commands and outputs stay within 250, every PWM pulse it
  sets has a period of 1 ms and is at most 90 percent of it, and a motor callback gets at most 250.
\<close>

theorem motion_drive_bounded:
  assumes "motion_runs es s t" and "speeds_ok s"
  shows "speeds_ok t \<and> extends (drive_call 250) (trace s) (trace t)"
proof -
  have "driven 250 (trace s) t"
  proof (rule drive.runs_keep [OF _ _ assms(1)])
    fix s' t'
    assume "driven 250 (trace s) s'" "motion_step Mo_Clear s' t'"
    then show "driven 250 (trace s) t'"
      by (rule clear_step_keeps [OF driven_clear])
  qed (use assms(2) in \<open>simp_all add: driven_def speeds_ok_def\<close>)
  then show ?thesis
    by (simp add: driven_def speeds_ok_def)
qed

theorem motion_drive_bounded_witness:
  "speeds_ok (snd (run_state (motion_do (Mo_Set_Direct 32767 (- 32768))) motion_example))"
proof -
  let ?t = "snd (run_state (motion_do (Mo_Set_Direct 32767 (- 32768))) motion_example)"
  have "motion_runs [Mo_Set_Direct 32767 (- 32768)] motion_example ?t"
    by (intro motion_more [OF motion_step.intros motion_done]) (simp add: prod_eq_iff)
  then show ?thesis
    using motion_drive_bounded [of "[Mo_Set_Direct 32767 (- 32768)]" motion_example ?t] motion_example_fields
    by blast
qed

text \<open>
  C24: The emergency stop holds. Once it is latched, no sequence of calls without a clear, whatever
  targets are requested and whatever the hardware answers, unlatches it or drives a wheel: every
  PWM pulse set from then on is 0, every pin written goes low, also the standby line of the
  motor bridge, and a motor callback gets 0.
\<close>

theorem motion_stop_holds:
  assumes "motion_runs es s t" and "mo_emergency_stop s" and "Mo_Clear \<notin> set es"
  shows "mo_emergency_stop t \<and> extends (drive_call 0) (trace s) (trace t)"
proof -
  have "held (trace s) t"
    by (rule hold.runs_keep [OF _ _ assms(1)]) (use assms(2,3) in \<open>simp_all add: held_def\<close>)
  then show ?thesis
    by (simp add: held_def)
qed

theorem motion_stop_holds_witness:
  "mo_emergency_stop (snd (run_state (motion_do (Mo_Set_Direct 100 100))
     (motion_example\<lparr>mo_emergency_stop := True\<rparr>)))"
proof -
  let ?s = "motion_example\<lparr>mo_emergency_stop := True\<rparr>"
  let ?t = "snd (run_state (motion_do (Mo_Set_Direct 100 100)) ?s)"
  have "motion_runs [Mo_Set_Direct 100 100] ?s ?t"
    by (intro motion_more [OF motion_step.intros motion_done]) (simp add: prod_eq_iff)
  then show ?thesis
    using motion_stop_holds [of "[Mo_Set_Direct 100 100]" ?s ?t] by simp
qed


text \<open>
  One periodic update. With the adapter initialised and the latch open, an update either
  latches the emergency stop and outputs 0, or keeps the targets, moves each command one ramp step
  of at most 15 towards its target, and outputs the commands, or both commands boosted to
  at least 90 in their own direction: a boost never reverses a wheel and never starts one
  that is to stand.
\<close>

lemma motion_update_outcome:
  assumes "mo_initialized s" and "speeds_ok s" and "\<not> mo_emergency_stop s"
  shows "wp hcics_motion_update (\<lambda>r t.
     (mo_emergency_stop t \<and> mo_output_left t = 0 \<and> mo_output_right t = 0) \<or>
     (mo_target_left t = mo_target_left s \<and> mo_target_right t = mo_target_right s \<and>
      mo_command_left t = ramp_step (mo_command_left s) (mo_target_left s) \<and>
      mo_command_right t = ramp_step (mo_command_right s) (mo_target_right s) \<and>
      ((mo_output_left t, mo_output_right t) = (mo_command_left t, mo_command_right t) \<or>
       (mo_output_left t, mo_output_right t) =
         (boosted (mo_command_left t), boosted (mo_command_right t))))) s"
  using update_outcome [OF assms] by (simp add: motion_stopped_def motion_ramped_def)

lemma motion_update_outcome_example:
  "mo_command_left (snd (run_state hcics_motion_update
     (motion_example\<lparr>mo_target_left := 100\<rparr>))) \<in> {15} \<or>
   mo_emergency_stop (snd (run_state hcics_motion_update (motion_example\<lparr>mo_target_left := 100\<rparr>)))"
  using motion_update_outcome [of "motion_example\<lparr>mo_target_left := 100\<rparr>"] motion_example_fields
  by (auto simp: wp_run ramp_step_def motion_example_def motion.defs encoder.defs speeds_ok_def)



lemma ramp_step_iter:
  "\<bar>t - c\<bar> \<le> 15 * int n \<Longrightarrow> ((\<lambda>c. ramp_step c t) ^^ n) c = t"
proof (induction n arbitrary: c)
  case (Suc n)
  have "\<bar>t - ramp_step c t\<bar> \<le> 15 * int n"
    using Suc.prems by (auto simp: ramp_step_def sgn_if abs_if split: if_splits)
  then show ?case
    by (simp add: Suc.IH funpow_Suc_right del: funpow.simps)
qed simp

text \<open>\<open>obliging s\<close>: there is a PWM device, no callback, and the hardware answers every call with 0.\<close>

definition obliging :: "'a motion_scheme \<Rightarrow> bool" where
  "obliging s \<longleftrightarrow> mo_pwm s \<and> \<not> mo_output_cb s \<and> (\<forall>tr. answer s tr = RT_EOK)"

lemma vc_output_obliging:
  assumes "obliging s"
    and "\<And>tr. Q RT_EOK (s\<lparr>mo_output_left := x, mo_output_right := y, trace := tr\<rparr>)"
  shows "wp (hcics_motion_output x y) Q s"
  unfolding hcics_motion_output_def hcics_motion_output_pwm_def hcics_motion_write_dir_def
  using assms by (auto simp: wp obliging_def)

lemma obliging_enc [simp]: "obliging (enc_update w f s) = obliging s"
  by (cases w) (simp_all add: obliging_def)

interpretation obliging: encoder_client obliging
  by unfold_locales (simp_all, simp add: obliging_def)

lemma obliging_poll: "preserves obliging hcics_motion_poll_actual_speed"
  unfolding hcics_motion_poll_actual_speed_def hcics_motion_read_encoder_delta_def
  by (intro obliging.pres_basic obliging.pres_read preserves_modify) (simp_all add: obliging_def)

text \<open>
  A fault of the feedback is not reported. The update that latches the emergency stop because
  of lost wheel feedback still returns \<open>RT_EOK\<close> when the outputs could be set to 0, so a caller
  that looks at the result alone does not learn of the fault.
\<close>

lemma motion_feedback_fault_unreported:
  assumes "mo_initialized s" and "mo_left_encoder s = Some (Other_Dev d)" and "obliging s"
    and "mo_encoder_left_fail_count s = 19" and "mo_target_left s \<noteq> 0"
  shows "wp hcics_motion_update (\<lambda>r t. r = RT_EOK \<and> mo_emergency_stop t \<and> mo_stop_reason t = 0xE2) s"
proof -
  have b: "blind_count d 19 s"
    using assms by (simp add: blind_count_def blind_def obliging_def RT_EOK_def)
  show ?thesis
    unfolding hcics_motion_update_def hcics_motion_service_def
    by (intro vc vc_ensure vc_output_obliging
        wp_conseq [OF preserves_wp_conj [OF obliging_poll assms(3) blind_poll [OF b]]])
      (use assms in auto)
qed

lemma motion_feedback_fault_unreported_example:
  "wp hcics_motion_update (\<lambda>r t. r = RT_EOK \<and> mo_emergency_stop t \<and> mo_stop_reason t = 0xE2)
     (motion_example\<lparr>mo_left_encoder := Some (Other_Dev ''pulse1''), mo_target_left := 60,
        mo_encoder_left_fail_count := 19\<rparr>)"
  by (rule motion_feedback_fault_unreported [of _ "''pulse1''"])
    (simp_all add: motion_example_def motion.defs encoder.defs encoder_example_def obliging_def RT_EOK_def)

text \<open>
  A target is reached. From any command in range, repeated ramp steps arrive at the target
  after as many steps as fit 15 into the distance, rounded up, and stay there.
\<close>

lemma motion_ramp_converges:
  assumes "\<bar>c\<bar> \<le> 250" and "\<bar>t\<bar> \<le> 250" and "\<bar>t - c\<bar> \<le> 15 * int n"
  shows "((\<lambda>c. hcics_motion_ramp_toward c t) ^^ n) c = t"
proof -
  have "((\<lambda>c. hcics_motion_ramp_toward c t) ^^ k) c = ((\<lambda>c. ramp_step c t) ^^ k) c \<and>
      \<bar>((\<lambda>c. ramp_step c t) ^^ k) c\<bar> \<le> 250" for k
    by (induction k) (use assms ramp_step_bound in \<open>simp_all add: ramp_eq ramp_step_def\<close>)
  then show ?thesis
    using ramp_step_iter [OF assms(3)] by simp
qed

lemma motion_ramp_converges_example:
  "((\<lambda>c. hcics_motion_ramp_toward c 250) ^^ 34) (- 250) = 250"
  by (rule motion_ramp_converges) simp_all

definition left_encoder_is :: 
  "hcics_encoder_device \<Rightarrow> rt_device option \<Rightarrow> 'a motion_scheme \<Rightarrow> bool" where
  "left_encoder_is e d s \<longleftrightarrow>
     g_left_encoder s = e \<and> mo_left_encoder s = d \<and> \<not> mo_initialized s"

interpretation left_kept: wheel_client "left_encoder_is e d" Right_Wheel for e d
  by unfold_locales (simp_all add: left_encoder_is_def)

lemma vc_find_right:
  assumes "left_encoder_is e d s" "enc_name e \<noteq> name"
    and "\<And>dev t. \<lbrakk>dev = None \<or> dev = Some (Encoder_Dev Right_Wheel) \<or> dev = Some (Other_Dev name);
      left_encoder_is e d t\<rbrakk> \<Longrightarrow> Q dev t"
  shows "wp (rt_device_find name) Q s"
  unfolding rt_device_find_def using assms(1,2)
  by (intro vc assms(3)) (auto simp: left_encoder_is_def)

lemma vc_open_right:
  assumes "left_encoder_is e d s" "enc_name e \<noteq> name"
    and "\<And>r t. left_encoder_is e d t \<Longrightarrow> Q r t"
  shows "wp (hcics_motion_open_encoder name n) Q s"
  unfolding hcics_motion_open_encoder_def
proof (rule vc_bind, rule vc_find_right [OF assms(1,2)])
  fix dev :: "rt_device option" and t :: "'a motion_scheme"
  assume dev: "dev = None \<or> dev = Some (Encoder_Dev Right_Wheel) \<or> dev = Some (Other_Dev name)"
    and t: "left_encoder_is e d t"
  let ?m = "case dev of
       None \<Rightarrow> ret (None, n)
     | Some dev \<Rightarrow> do {
         opened \<leftarrow> rt_device_open dev;
         if opened \<noteq> RT_EOK then ret (None, n)
         else do {
           _ \<leftarrow> rt_device_control dev PULSE_ENCODER_CMD_CLEAR_COUNT;
           (size, count) \<leftarrow> rt_device_read_count dev;
           ret (Some dev, if size = 1 then count else 0) } }"
  have "preserves (left_encoder_is e d) ?m"
    using dev by (elim disjE; simp del: rt_device_open.simps rt_device_control.simps rt_device_read_count.simps;
        intro left_kept.pres_basic left_kept.pres_open [where n = name]
        left_kept.pres_device_control [where n = name] left_kept.pres_read [where n = name]; simp)
  then show "wp ?m Q t"
    by (rule vc_preserves [where I = "left_encoder_is e d"]) (use t assms(3) in simp_all)
qed

lemma vc_open_busy:
  assumes "left_encoder_is e d s" "enc_registered e" "enc_activated e" "enc_open e"
    and "\<And>t. left_encoder_is e d t \<Longrightarrow> Q (None, n) t"
  shows "wp (hcics_motion_open_encoder (enc_name e) n) Q s"
proof -
  have "enc_update Left_Wheel (\<lambda>e. e\<lparr>enc_activated := True\<rparr>) s = s"
    using assms(1,3) by (simp add: left_encoder_is_def)
  then have "run_state (hcics_motion_open_encoder (enc_name e) n) s = ((None, n), s)"
    using assms(1-4)
    by (simp add: hcics_motion_open_encoder_def rt_device_find_def left_encoder_is_def set_enc_def rt_err_defs)
  then show ?thesis
    using assms(1,5) by (simp add: wp_def)
qed

lemma left_kept_gpio: "preserves (left_encoder_is e d) hcics_motion_gpio_init"
  unfolding hcics_motion_gpio_init_def hcics_motion_gpio_safe_def
  by (intro pres preserves_hw_out) (simp_all add: left_encoder_is_def)

lemma init_retry:
  assumes "left_encoder_is e d s" "enc_registered e" "enc_activated e" "enc_open e"
    and "enc_name e = ''pulse1''"
  shows "wp hcics_motion_init (\<lambda>r t. r = - RT_ENOSYS \<and> left_encoder_is e None t) s"
  unfolding hcics_motion_init_def hcics_motion_find_pwm_def
    HCICS_MOTION_LEFT_ENCODER_NAME_def assms(5) [symmetric]
  by (intro vc vc_preserves [OF left_kept_gpio] vc_preserves [OF left_kept.pres_find]
      vc_open_busy vc_open_right)
    (use assms in \<open>auto simp: left_encoder_is_def HCICS_MOTION_RIGHT_ENCODER_NAME_def\<close>)

text \<open>
  A failed initialisation is final. When the left encoder was opened and the initialisation
  failed afterwards, for a missing right encoder or a missing PWM device, every later attempt
  fails too, whatever has been registered since: the encoder is still open, and opening it again
  is refused.
\<close>

lemma motion_init_retry_fails:
  assumes "\<not> mo_initialized s" and "enc_registered (g_left_encoder s)"
    and "enc_name (g_left_encoder s) = ''pulse1''" and "enc_activated (g_left_encoder s)"
    and "enc_open (g_left_encoder s)"
  shows "wp hcics_motion_init (\<lambda>r t. r = - RT_ENOSYS \<and> \<not> mo_initialized t \<and>
     g_left_encoder t = g_left_encoder s) s"
  by (rule wp_conseq [OF init_retry [of "g_left_encoder s" "mo_left_encoder s"]])
    (use assms in \<open>simp_all add: left_encoder_is_def\<close>)

lemma motion_init_retry_fails_example:
  "wp hcics_motion_init (\<lambda>r t. r = - RT_ENOSYS \<and> \<not> mo_initialized t \<and>
     g_left_encoder t = g_left_encoder motion_example) (motion_example\<lparr>mo_initialized := False\<rparr>)"
  using motion_init_retry_fails [of "motion_example\<lparr>mo_initialized := False\<rparr>"]
  by (simp add: motion_example_def motion.defs encoder.defs encoder_example_def
      g_left_encoder_static_def encoder_static_def)

end
