(* ===== verification/HcicsProtocol.thy ===== *)
theory HcicsProtocol
  imports HcicsPrelude
begin

text \<open>
  The protocol helpers, \<open>applications/hcics_protocol.c\<close>: the text commands of the UDP link and the
  nine-byte camera frames. A C string is a HOL string; reading it at or past its end gives the
  NUL character. A nullable string argument is an option. Out-parameters are returned, also on
  failure, and are never null here: every caller passes the address of a local variable.
\<close>

section \<open>Data\<close>

definition HCICS_CAM_FRAME_LEN :: u8 where "HCICS_CAM_FRAME_LEN = 9"
definition HCICS_CAM_HEAD :: u8 where "HCICS_CAM_HEAD = 0xAA"
definition HCICS_CAM_TAIL :: u8 where "HCICS_CAM_TAIL = 0x55"
definition HCICS_CAM_MODE_TRACK :: u8 where "HCICS_CAM_MODE_TRACK = 1"
definition HCICS_CAM_MODE_CLEAN :: u8 where "HCICS_CAM_MODE_CLEAN = 2"

lemmas cam_defs = HCICS_CAM_FRAME_LEN_def HCICS_CAM_HEAD_def HCICS_CAM_TAIL_def
  HCICS_CAM_MODE_TRACK_def HCICS_CAM_MODE_CLEAN_def

definition HCICS_FAULT_GRID_COLS :: int where "HCICS_FAULT_GRID_COLS = 3"
definition HCICS_FAULT_TARGET_MIN :: int where "HCICS_FAULT_TARGET_MIN = 1"
definition HCICS_FAULT_TARGET_MAX :: int where "HCICS_FAULT_TARGET_MAX = 9"

lemmas fault_grid_defs = HCICS_FAULT_GRID_COLS_def HCICS_FAULT_TARGET_MIN_def
  HCICS_FAULT_TARGET_MAX_def

datatype hcics_remote_cmd = HCICS_REMOTE_DONE | HCICS_REMOTE_ERROR

record hcics_fault =
  fault_id :: u8
  fault_row :: u8
  fault_col :: u8
  fault_severity :: u8
  fault_source :: string

record hcics_camera_target =
  cam_mode :: u8
  cam_x :: u16
  cam_y :: u16
  cam_width :: u8
  cam_type :: u8
  cam_tick :: u32

record hcics_camera_parser =
  parser_state :: u8
  parser_index :: u8
  parser_buf :: "u8 list"

section \<open>The fault grid\<close>

definition hcics_fault_id_to_grid :: "int \<Rightarrow> (int \<times> int) option" where
  "hcics_fault_id_to_grid i =
     (if i < HCICS_FAULT_TARGET_MIN \<or> i > HCICS_FAULT_TARGET_MAX then None
      else Some ((i - 1) div HCICS_FAULT_GRID_COLS + 1, (i - 1) mod HCICS_FAULT_GRID_COLS + 1))"

definition hcics_fault_grid_to_id :: "int \<Rightarrow> int \<Rightarrow> int option" where
  "hcics_fault_grid_to_id row col =
     (if row < 1 \<or> row > 3 \<or> col < 1 \<or> col > 3 then None
      else Some ((row - 1) * HCICS_FAULT_GRID_COLS + col))"

definition hcics_fault_defaults :: hcics_fault where
  "hcics_fault_defaults = \<lparr>fault_id = 1, fault_row = 1, fault_col = 1, fault_severity = 1,
     fault_source = ''udp''\<rparr>"

definition hcics_protocol_fault_is_valid :: "hcics_fault \<Rightarrow> bool" where
  "hcics_protocol_fault_is_valid f =
     (case hcics_fault_id_to_grid (uint (fault_id f)) of
        None \<Rightarrow> False
      | Some (expected_row, expected_col) \<Rightarrow>
          \<not> (fault_row f \<noteq> word_of_int expected_row \<or> fault_col f \<noteq> word_of_int expected_col \<or>
             fault_severity f = 0))"

section \<open>Text commands\<close>

abbreviation NUL :: char where
  "NUL \<equiv> CHR 0x00"

definition peek :: "string \<Rightarrow> char" where
  "peek p = (case p of [] \<Rightarrow> NUL | c # _ \<Rightarrow> c)"

definition is_digit :: "char \<Rightarrow> bool" where
  "is_digit c \<longleftrightarrow> (48::int) \<le> of_char c \<and> of_char c \<le> (57::int)"

definition digit_value :: "char \<Rightarrow> int" where
  "digit_value c = of_char c - 48"

definition is_blank :: "char \<Rightarrow> bool" where
  "is_blank c \<longleftrightarrow> c = CHR 0x0D \<or> c = CHR 0x0A \<or> c = CHR '' '' \<or> c = CHR 0x09"

text \<open>\<open>strncmp\<close>: byte by byte, up to \<open>n\<close>, stopping after a NUL.\<close>

fun c_strncmp :: "string \<Rightarrow> string \<Rightarrow> nat \<Rightarrow> int" where
  "c_strncmp s t 0 = 0"
| "c_strncmp s t (Suc n) =
     (if peek s \<noteq> peek t then of_char (peek s) - of_char (peek t)
      else if peek s = NUL then 0 else c_strncmp (tl s) (tl t) n)"

text \<open>The digit loop: \<open>None\<close> when the value exceeds 255.\<close>

fun parse_digits :: "string \<Rightarrow> int \<Rightarrow> (int \<times> string) option" where
  "parse_digits [] parsed = Some (parsed, [])"
| "parse_digits (c # cs) parsed =
     (if is_digit c then
        let parsed = parsed * 10 + digit_value c
        in if parsed > 255 then None else parse_digits cs parsed
      else Some (parsed, c # cs))"

text \<open>What both field parsers do after the field: the delimiter, or trailing blanks and the end.\<close>

definition parse_delimiter :: "char \<Rightarrow> string \<Rightarrow> string option" where
  "parse_delimiter delimiter p =
     (if delimiter \<noteq> NUL then
        (if peek p \<noteq> delimiter then None else Some (tl p))
      else
        let p = dropWhile is_blank p
        in if peek p \<noteq> NUL then None else Some p)"

text \<open>\<open>Some (value, cursor)\<close> on success; on failure the cursor and the value are untouched.\<close>

definition hcics_parse_uint_field :: "string \<Rightarrow> char \<Rightarrow> (int \<times> string) option" where
  "hcics_parse_uint_field cursor delimiter =
     (if \<not> is_digit (peek cursor) then None
      else
        case parse_digits cursor 0 of
          None \<Rightarrow> None
        | Some (parsed, p) \<Rightarrow>
            (case parse_delimiter delimiter p of None \<Rightarrow> None | Some p \<Rightarrow> Some (parsed, p)))"

text \<open>The loop over the token stops at its NUL.\<close>

fun token_chars_usable :: "string \<Rightarrow> bool" where
  "token_chars_usable [] = True"
| "token_chars_usable (c # cs) =
     (if c = NUL then True
      else if c = CHR '','' \<or> is_blank c then False
      else token_chars_usable cs)"

definition hcics_token_is_usable :: "string option \<Rightarrow> bool" where
  "hcics_token_is_usable token =
     (case token of
        None \<Rightarrow> False
      | Some t \<Rightarrow> if peek t = NUL then False else token_chars_usable t)"

text \<open>The comparison loop: the rest of the text when the whole token was matched.\<close>

fun match_token :: "string \<Rightarrow> string \<Rightarrow> string option" where
  "match_token p [] = Some p"
| "match_token p (c # t) =
     (if c = NUL then Some p else if peek p = c then match_token (tl p) t else None)"

definition hcics_parse_token_field :: "string \<Rightarrow> char \<Rightarrow> string option \<Rightarrow> string option" where
  "hcics_parse_token_field cursor delimiter token =
     (if \<not> hcics_token_is_usable token then None
      else
        case match_token cursor (the token) of
          None \<Rightarrow> None
        | Some p \<Rightarrow> parse_delimiter delimiter p)"

definition hcics_protocol_parse_fault_text ::
  "string option \<Rightarrow> string option \<Rightarrow> hcics_fault \<Rightarrow> bool \<times> hcics_fault" where
  "hcics_protocol_parse_fault_text text token fault =
     (case text of
        None \<Rightarrow> (False, fault)
      | Some text \<Rightarrow>
          if \<not> hcics_token_is_usable token then (False, fault)
          else
            let fault = hcics_fault_defaults in
            if c_strncmp text ''FAULT,'' 6 \<noteq> 0 then (False, fault)
            else
              case (do {
                p \<leftarrow> hcics_parse_token_field (drop 6 text) (CHR '','') token;
                (i, p) \<leftarrow> hcics_parse_uint_field p (CHR '','');
                (row, p) \<leftarrow> hcics_parse_uint_field p (CHR '','');
                (col, p) \<leftarrow> hcics_parse_uint_field p (CHR '','');
                (severity, p) \<leftarrow> hcics_parse_uint_field p NUL;
                Some (i, row, col, severity) }) of
                None \<Rightarrow> (False, fault)
              | Some (i, row, col, severity) \<Rightarrow>
                  if hcics_fault_grid_to_id row col = None then (False, fault)
                  else
                    let fault = \<lparr>fault_id = word_of_int i, fault_row = word_of_int row,
                      fault_col = word_of_int col, fault_severity = word_of_int severity,
                      fault_source = ''udp''\<rparr>
                    in (hcics_protocol_fault_is_valid fault, fault))"

definition hcics_protocol_parse_stop_text :: "string option \<Rightarrow> string option \<Rightarrow> bool" where
  "hcics_protocol_parse_stop_text text token =
     (case text of
        None \<Rightarrow> False
      | Some text \<Rightarrow>
          if \<not> hcics_token_is_usable token then False
          else if c_strncmp text ''STOP,'' 5 \<noteq> 0 then False
          else hcics_parse_token_field (drop 5 text) NUL token \<noteq> None)"

section \<open>Camera frames\<close>

definition hcics_protocol_camera_parser_init :: hcics_camera_parser where
  "hcics_protocol_camera_parser_init =
     \<lparr>parser_state = 0, parser_index = 0, parser_buf = replicate 9 0\<rparr>"

text \<open>\<open>now\<close> is what \<open>rt_tick_get\<close> returns.\<close>

definition hcics_protocol_camera_feed ::
  "u32 \<Rightarrow> hcics_camera_parser \<Rightarrow> u8 \<Rightarrow> hcics_camera_target \<Rightarrow>
     bool \<times> hcics_camera_parser \<times> hcics_camera_target" where
  "hcics_protocol_camera_feed now parser byte target =
     (if parser_state parser = 0 then
        (if byte = HCICS_CAM_HEAD then
           (False, parser\<lparr>parser_buf := (parser_buf parser)[0 := byte], parser_index := 1,
              parser_state := 1\<rparr>, target)
         else (False, parser, target))
      else
        let parser = parser\<lparr>
              parser_buf := (parser_buf parser)[unat (parser_index parser) := byte],
              parser_index := parser_index parser + 1\<rparr>
        in
        if parser_index parser < HCICS_CAM_FRAME_LEN then (False, parser, target)
        else
          let parser = parser\<lparr>parser_state := 0, parser_index := 0\<rparr>;
              buf = parser_buf parser
          in
          if buf ! 8 \<noteq> HCICS_CAM_TAIL then (False, parser, target)
          else
            let target = \<lparr>cam_mode = buf ! 1,
                  cam_x = push_bit 8 (ucast (buf ! 2)) OR ucast (buf ! 3),
                  cam_y = push_bit 8 (ucast (buf ! 4)) OR ucast (buf ! 5),
                  cam_width = buf ! 6, cam_type = buf ! 7, cam_tick = now\<rparr>
            in (cam_mode target = HCICS_CAM_MODE_TRACK \<or> cam_mode target = HCICS_CAM_MODE_CLEAN,
                parser, target))"

section \<open>The language of the text commands\<close>

definition digits_value :: "int \<Rightarrow> string \<Rightarrow> int" where
  "digits_value n ds = foldl (\<lambda>n c. n * 10 + digit_value c) n ds"

text \<open>\<open>ds\<close> is a decimal numeral of value \<open>v\<close> that fits a byte (leading zeros are allowed).\<close>

definition u8_numeral :: "string \<Rightarrow> int \<Rightarrow> bool" where
  "u8_numeral ds v \<longleftrightarrow> ds \<noteq> [] \<and> list_all is_digit ds \<and> v = digits_value 0 ds \<and> v \<le> 255"

text \<open>The texts that command fault \<open>f\<close> under the shared token.\<close>

definition is_fault_text :: "string \<Rightarrow> hcics_fault \<Rightarrow> string \<Rightarrow> bool" where
  "is_fault_text token f text \<longleftrightarrow>
     (\<exists>i r c v ws.
        text = ''FAULT,'' @ token @ '','' @ i @ '','' @ r @ '','' @ c @ '','' @ v @ ws \<and>
        u8_numeral i (uint (fault_id f)) \<and> u8_numeral r (uint (fault_row f)) \<and>
        u8_numeral c (uint (fault_col f)) \<and> u8_numeral v (uint (fault_severity f)) \<and>
        list_all is_blank ws)"

lemma digits_value_simps [simp]:
  "digits_value n [] = n"
  "digits_value n (c # ds) = digits_value (n * 10 + digit_value c) ds"
  by (simp_all add: digits_value_def)

lemma peek_simps [simp]: "peek [] = NUL" "peek (c # p) = c"
  by (simp_all add: peek_def)

lemma digit_value_bounds: "is_digit c \<Longrightarrow> 0 \<le> digit_value c \<and> digit_value c \<le> 9"
  by (simp add: is_digit_def digit_value_def)

lemma not_digit [simp]: "\<not> is_digit NUL" "\<not> is_digit (CHR '','')"
  by (simp_all add: is_digit_def)

lemma blank_not_digit: "is_blank c \<Longrightarrow> \<not> is_digit c"
  by (auto simp: is_blank_def is_digit_def)

lemma not_blank_NUL [simp]: "\<not> is_blank NUL"
  by (simp add: is_blank_def)

lemma digits_value_ge: "list_all is_digit ds \<Longrightarrow> 0 \<le> n \<Longrightarrow> n \<le> digits_value n ds"
proof (induction ds arbitrary: n)
  case (Cons c ds)
  then have "n \<le> n * 10 + digit_value c" "0 \<le> n * 10 + digit_value c"
    using digit_value_bounds [of c] by auto
  moreover have "n * 10 + digit_value c \<le> digits_value (n * 10 + digit_value c) ds"
    using Cons calculation by simp
  ultimately show ?case
    by simp
qed simp

lemma parse_digits_complete:
  assumes "list_all is_digit ds" "\<not> is_digit (peek rest)" "0 \<le> n" "n \<le> 255"
    "digits_value n ds \<le> 255"
  shows "parse_digits (ds @ rest) n = Some (digits_value n ds, rest)"
  using assms
proof (induction ds arbitrary: n)
  case Nil
  then show ?case by (cases rest) auto
next
  case (Cons c ds)
  let ?m = "n * 10 + digit_value c"
  have "0 \<le> ?m"
    using Cons.prems digit_value_bounds [of c] by auto
  moreover have "?m \<le> 255"
    using digits_value_ge [of ds ?m] Cons.prems calculation by auto
  ultimately show ?case
    using Cons.prems Cons.IH [of ?m] by simp
qed

lemma parse_digits_sound:
  "parse_digits s n = Some (v, rest) \<Longrightarrow> n \<le> 255 \<Longrightarrow>
     \<exists>ds. s = ds @ rest \<and> list_all is_digit ds \<and> v = digits_value n ds \<and> v \<le> 255 \<and>
       \<not> is_digit (peek rest)"
proof (induction s n rule: parse_digits.induct)
  case (2 c cs n)
  show ?case
  proof (cases "is_digit c")
    case True
    with 2 obtain ds where "cs = ds @ rest" "list_all is_digit ds"
      "v = digits_value (n * 10 + digit_value c) ds" "v \<le> 255" "\<not> is_digit (peek rest)"
      by (auto simp: Let_def split: if_splits)
    with True show ?thesis
      by (intro exI [of _ "c # ds"]) simp
  qed (use 2 in auto)
qed auto

lemma parse_uint_field_comma:
  "hcics_parse_uint_field s (CHR '','') = Some (v, p) \<longleftrightarrow>
     (\<exists>ds. s = ds @ '','' @ p \<and> u8_numeral ds v)" (is "?l \<longleftrightarrow> ?r")
proof
  assume ?l
  then obtain q where *: "is_digit (peek s)" "parse_digits s 0 = Some (v, q)"
      "parse_delimiter (CHR '','') q = Some p"
    by (auto simp: hcics_parse_uint_field_def split: if_splits option.splits)
  then obtain ds where ds: "s = ds @ q" "list_all is_digit ds" "v = digits_value 0 ds" "v \<le> 255"
      "\<not> is_digit (peek q)"
    using parse_digits_sound by fastforce
  then have "ds \<noteq> []"
    using * by auto
  moreover have "q = '','' @ p"
    using *(3) by (cases q) (auto simp: parse_delimiter_def split: if_splits)
  ultimately show ?r
    using ds by (auto simp: u8_numeral_def)
next
  assume ?r
  then obtain ds where ds: "s = ds @ '','' @ p" "u8_numeral ds v" by blast
  then have "parse_digits s 0 = Some (v, '','' @ p)"
    using parse_digits_complete [of ds "'','' @ p" 0] by (simp add: u8_numeral_def)
  moreover have "is_digit (peek s)"
    using ds by (cases ds) (auto simp: u8_numeral_def)
  ultimately show ?l
    by (simp add: hcics_parse_uint_field_def parse_delimiter_def)
qed

lemma dropWhile_all_NUL:
  assumes "NUL \<notin> set p"
  shows "peek (dropWhile is_blank p) = NUL \<longleftrightarrow> list_all is_blank p"
proof -
  have "peek (dropWhile is_blank p) = NUL \<longleftrightarrow> dropWhile is_blank p = []"
  proof (cases "dropWhile is_blank p")
    case (Cons c q)
    then have "c \<in> set p"
      by (metis list.set_intros(1) set_dropWhileD)
    with assms Cons show ?thesis by auto
  next
    case Nil
    then show ?thesis by (simp only: peek_simps simp_thms refl)
  qed
  then show ?thesis
    by (simp add: dropWhile_eq_Nil_conv list_all_iff)
qed

lemma parse_delimiter_end:
  assumes "NUL \<notin> set q"
  shows "parse_delimiter NUL q = (if list_all is_blank q then Some [] else None)"
  using dropWhile_all_NUL [OF assms]
  by (auto simp: parse_delimiter_def list_all_iff dropWhile_eq_Nil_conv)

lemma parse_uint_field_end:
  assumes "NUL \<notin> set s"
  shows "(\<exists>p. hcics_parse_uint_field s NUL = Some (v, p)) \<longleftrightarrow>
     (\<exists>ds ws. s = ds @ ws \<and> u8_numeral ds v \<and> list_all is_blank ws)" (is "?l \<longleftrightarrow> ?r")
proof
  assume ?l
  then obtain q p where *: "is_digit (peek s)" "parse_digits s 0 = Some (v, q)"
      "parse_delimiter NUL q = Some p"
    by (auto simp: hcics_parse_uint_field_def split: if_splits option.splits)
  then obtain ds where ds: "s = ds @ q" "list_all is_digit ds" "v = digits_value 0 ds" "v \<le> 255"
      "\<not> is_digit (peek q)"
    using parse_digits_sound by fastforce
  moreover have "ds \<noteq> []"
    using * ds by auto
  moreover have "list_all is_blank q"
    using *(3) parse_delimiter_end [of q] assms ds by (auto split: if_splits)
  ultimately show ?r
    by (auto simp: u8_numeral_def)
next
  assume ?r
  then obtain ds ws where ds: "s = ds @ ws" "u8_numeral ds v" "list_all is_blank ws" by blast
  then have "\<not> is_digit (peek ws)"
    by (cases ws) (auto simp: blank_not_digit)
  then have "parse_digits s 0 = Some (v, ws)"
    using ds parse_digits_complete [of ds ws 0] by (simp add: u8_numeral_def)
  moreover have "is_digit (peek s)"
    using ds by (cases ds) (auto simp: u8_numeral_def)
  ultimately show ?l
    using ds assms by (simp add: hcics_parse_uint_field_def parse_delimiter_end)
qed

lemma match_token_iff: "NUL \<notin> set t \<Longrightarrow> match_token p t = Some q \<longleftrightarrow> p = t @ q"
proof (induction t arbitrary: p)
  case (Cons c t)
  then show ?case by (cases p) auto
qed auto

lemma of_char_eq_0: "(of_char c :: int) = 0 \<longleftrightarrow> c = NUL"
  using of_char_eq_iff [of c NUL, where ?'a = int] by simp

lemma c_strncmp_prefix:
  "NUL \<notin> set t \<Longrightarrow> c_strncmp s t (length t) = 0 \<longleftrightarrow> (\<exists>q. s = t @ q)"
proof (induction t arbitrary: s)
  case (Cons c t)
  then show ?case by (cases s) (auto simp: of_char_eq_0)
qed simp

lemma usable_token_simps:
  "hcics_token_is_usable (Some t) \<longleftrightarrow>
     t \<noteq> [] \<and> peek t \<noteq> NUL \<and> list_all (\<lambda>c. c \<noteq> CHR '','' \<and> \<not> is_blank c) (takeWhile (\<lambda>c. c \<noteq> NUL) t)"
proof -
  have "token_chars_usable t =
      list_all (\<lambda>c. c \<noteq> CHR '','' \<and> \<not> is_blank c) (takeWhile (\<lambda>c. c \<noteq> NUL) t)"
    by (induction t) auto
  then show ?thesis
    by (cases t) (auto simp: hcics_token_is_usable_def)
qed

lemma parse_token_field_rest:
  assumes "hcics_token_is_usable (Some t)" "NUL \<notin> set t"
  shows "hcics_parse_token_field s d (Some t) = Some p \<longleftrightarrow>
    (\<exists>q. s = t @ q \<and> parse_delimiter d q = Some p)"
proof (cases "match_token s t")
  case None
  then have "s \<noteq> t @ q" for q
    using match_token_iff [OF assms(2), of s q] by simp
  with None assms(1) show ?thesis
    by (simp add: hcics_parse_token_field_def)
next
  case (Some q)
  then have "s = t @ q"
    using match_token_iff [OF assms(2), of s q] by simp
  with Some assms(1) show ?thesis
    by (simp add: hcics_parse_token_field_def)
qed

lemma parse_delimiter_comma: "parse_delimiter (CHR '','') q = Some p \<longleftrightarrow> q = '','' @ p"
  by (cases q) (auto simp: parse_delimiter_def)

lemma parse_token_field_comma:
  assumes "hcics_token_is_usable (Some t)" "NUL \<notin> set t"
  shows "hcics_parse_token_field s (CHR '','') (Some t) = Some p \<longleftrightarrow> s = t @ '','' @ p"
  by (simp only: parse_token_field_rest [OF assms] parse_delimiter_comma) blast

lemma parse_token_field_end:
  assumes "hcics_token_is_usable (Some t)" "NUL \<notin> set t" "NUL \<notin> set s"
  shows "(\<exists>p. hcics_parse_token_field s NUL (Some t) = Some p) \<longleftrightarrow>
     (\<exists>ws. s = t @ ws \<and> list_all is_blank ws)"
proof -
  have "(\<exists>p. parse_delimiter NUL q = Some p) = list_all is_blank q" if "s = t @ q" for q
    using assms(3) that by (simp add: parse_delimiter_end)
  then show ?thesis
    by (simp only: parse_token_field_rest [OF assms(1,2)]) blast
qed

lemma u8_numeral_word: "u8_numeral ds v \<Longrightarrow> uint (word_of_int v :: u8) = v"
  using digits_value_ge [of ds 0]
  by (simp add: u8_numeral_def uint_word_of_int)

lemma valid_fault_grid:
  assumes "hcics_protocol_fault_is_valid f"
  shows "hcics_fault_grid_to_id (uint (fault_row f)) (uint (fault_col f)) = Some (uint (fault_id f))"
proof -
  let ?i = "uint (fault_id f)"
  from assms have i: "1 \<le> ?i" "?i \<le> 9"
    and r: "fault_row f = word_of_int ((?i - 1) div 3 + 1)"
    and c: "fault_col f = word_of_int ((?i - 1) mod 3 + 1)"
    by (auto simp: hcics_protocol_fault_is_valid_def hcics_fault_id_to_grid_def fault_grid_defs
        split: if_splits)
  have "?i \<in> {1, 2, 3, 4, 5, 6, 7, 8, 9}"
    using i by auto
  then show ?thesis
    by (auto simp: r c hcics_fault_grid_to_id_def fault_grid_defs)
qed

text \<open>The five fields after \<open>FAULT,\<close>.\<close>

definition fault_fields :: "string \<Rightarrow> string option \<Rightarrow> (int \<times> int \<times> int \<times> int) option" where
  "fault_fields s token = (do {
     p \<leftarrow> hcics_parse_token_field s (CHR '','') token;
     (i, p) \<leftarrow> hcics_parse_uint_field p (CHR '','');
     (row, p) \<leftarrow> hcics_parse_uint_field p (CHR '','');
     (col, p) \<leftarrow> hcics_parse_uint_field p (CHR '','');
     (severity, p) \<leftarrow> hcics_parse_uint_field p NUL;
     Some (i, row, col, severity) })"

lemma fault_fields_iff:
  assumes t: "hcics_token_is_usable (Some token)" "NUL \<notin> set token" and s: "NUL \<notin> set s"
  shows "fault_fields s (Some token) = Some (i, r, c, v) \<longleftrightarrow>
    (\<exists>di dr dc dv ws. s = token @ '','' @ di @ '','' @ dr @ '','' @ dc @ '','' @ dv @ ws \<and>
       u8_numeral di i \<and> u8_numeral dr r \<and> u8_numeral dc c \<and> u8_numeral dv v \<and>
       list_all is_blank ws)" (is "?l \<longleftrightarrow> ?r")
proof
  assume ?l
  then obtain p1 p2 p3 p4 p5 where
    "hcics_parse_token_field s (CHR '','') (Some token) = Some p1"
    "hcics_parse_uint_field p1 (CHR '','') = Some (i, p2)"
    "hcics_parse_uint_field p2 (CHR '','') = Some (r, p3)"
    "hcics_parse_uint_field p3 (CHR '','') = Some (c, p4)"
    and end4: "hcics_parse_uint_field p4 NUL = Some (v, p5)"
    by (auto simp: fault_fields_def split: Option.bind_splits prod.splits)
  then obtain di dr dc where "s = token @ '','' @ di @ '','' @ dr @ '','' @ dc @ '','' @ p4"
    and *: "u8_numeral di i" "u8_numeral dr r" "u8_numeral dc c"
    by (auto simp: parse_token_field_comma [OF t] parse_uint_field_comma)
  moreover from this s end4 obtain dv ws where "p4 = dv @ ws" "u8_numeral dv v" "list_all is_blank ws"
    using parse_uint_field_end [of p4 v] by auto
  ultimately show ?r by blast
next
  assume ?r
  then obtain di dr dc dv ws where
    s': "s = token @ '','' @ di @ '','' @ dr @ '','' @ dc @ '','' @ dv @ ws"
    and n: "u8_numeral di i" "u8_numeral dr r" "u8_numeral dc c" "u8_numeral dv v"
      "list_all is_blank ws"
    by blast
  obtain p where "hcics_parse_uint_field (dv @ ws) NUL = Some (v, p)"
    using n s s' parse_uint_field_end [of "dv @ ws" v] by auto
  moreover have "hcics_parse_uint_field (dc @ '','' @ dv @ ws) (CHR '','') = Some (c, dv @ ws)"
    "hcics_parse_uint_field (dr @ '','' @ dc @ '','' @ dv @ ws) (CHR '','') =
       Some (r, dc @ '','' @ dv @ ws)"
    "hcics_parse_uint_field (di @ '','' @ dr @ '','' @ dc @ '','' @ dv @ ws) (CHR '','') =
       Some (i, dr @ '','' @ dc @ '','' @ dv @ ws)"
    "hcics_parse_token_field s (CHR '','') (Some token) =
       Some (di @ '','' @ dr @ '','' @ dc @ '','' @ dv @ ws)"
    unfolding parse_uint_field_comma parse_token_field_comma [OF t] using n s' by blast+
  ultimately show ?l
    by (simp add: fault_fields_def)
qed

lemma strncmp_FAULT: "c_strncmp s ''FAULT,'' 6 = 0 \<longleftrightarrow> (\<exists>q. s = ''FAULT,'' @ q)"
proof -
  have "length ''FAULT,'' = 6" "NUL \<notin> set ''FAULT,''"
    by simp_all
  then show ?thesis
    using c_strncmp_prefix [of "''FAULT,''" s] by metis
qed

lemma strncmp_STOP: "c_strncmp s ''STOP,'' 5 = 0 \<longleftrightarrow> (\<exists>q. s = ''STOP,'' @ q)"
proof -
  have "length ''STOP,'' = 5" "NUL \<notin> set ''STOP,''"
    by simp_all
  then show ?thesis
    using c_strncmp_prefix [of "''STOP,''" s] by metis
qed

text \<open>The fault built from the parsed numbers.\<close>

definition fault_of :: "int \<Rightarrow> int \<Rightarrow> int \<Rightarrow> int \<Rightarrow> hcics_fault" where
  "fault_of i r c v = \<lparr>fault_id = word_of_int i, fault_row = word_of_int r,
     fault_col = word_of_int c, fault_severity = word_of_int v, fault_source = ''udp''\<rparr>"

lemma parse_fault_text_accepts:
  assumes "hcics_token_is_usable (Some token)"
  shows "hcics_protocol_parse_fault_text (Some text) (Some token) f0 = (True, f) \<longleftrightarrow>
    (\<exists>q i r c v. text = ''FAULT,'' @ q \<and> fault_fields q (Some token) = Some (i, r, c, v) \<and>
       hcics_fault_grid_to_id r c \<noteq> None \<and> f = fault_of i r c v \<and>
       hcics_protocol_fault_is_valid f)"
proof (cases "\<exists>q. text = ''FAULT,'' @ q")
  case True
  then obtain q where q: "text = ''FAULT,'' @ q" by blast
  then have "c_strncmp text ''FAULT,'' 6 = 0" "drop 6 text = q"
    by (auto simp: strncmp_FAULT)
  then show ?thesis
    using assms q
    by (auto simp: hcics_protocol_parse_fault_text_def fault_of_def Let_def
        fault_fields_def [symmetric] split: option.splits if_splits)
next
  case False
  then have "c_strncmp text ''FAULT,'' 6 \<noteq> 0"
    by (simp add: strncmp_FAULT)
  with False assms show ?thesis
    by (auto simp: hcics_protocol_parse_fault_text_def Let_def)
qed

section \<open>A byte stream through the camera parser\<close>

text \<open>
  The UART loop of the application feeds every received byte, at the tick it is read, and uses
  the target whenever the parser returns true.
\<close>

fun feed_stream ::
  "hcics_camera_parser \<Rightarrow> hcics_camera_target \<Rightarrow> (u32 \<times> u8) list \<Rightarrow> hcics_camera_target list" where
  "feed_stream parser target [] = []"
| "feed_stream parser target ((now, byte) # xs) =
     (case hcics_protocol_camera_feed now parser byte target of
        (ok, parser, target) \<Rightarrow>
          (if ok then [target] else []) @ feed_stream parser target xs)"

text \<open>
  The reference: find the head byte, take the eight bytes after it, keep the frame when its tail
  and its mode are right, and go on behind it.
\<close>

definition be16 :: "u8 \<Rightarrow> u8 \<Rightarrow> u16" where
  "be16 h l = word_of_nat (unat h * 256 + unat l)"

definition frame_target :: "(u32 \<times> u8) list \<Rightarrow> hcics_camera_target list" where
  "frame_target xs =
     (case xs of
        [_, (_, m), (_, xh), (_, xl), (_, yh), (_, yl), (_, w), (_, k), (now, tail)] \<Rightarrow>
          if tail = 0x55 \<and> (m = 1 \<or> m = 2)
          then [\<lparr>cam_mode = m, cam_x = be16 xh xl, cam_y = be16 yh yl, cam_width = w,
                 cam_type = k, cam_tick = now\<rparr>]
          else []
      | _ \<Rightarrow> [])"

function scan_frames :: "(u32 \<times> u8) list \<Rightarrow> hcics_camera_target list" where
  "scan_frames [] = []"
| "scan_frames (x # xs) =
     (if snd x = 0xAA then
        (if length xs < 8 then [] else frame_target (x # take 8 xs) @ scan_frames (drop 8 xs))
      else scan_frames xs)"
  by pat_completeness auto
termination
  by (relation "measure length") auto

lemma be16_or: "push_bit 8 (ucast h) OR ucast l = be16 h l" for h l :: u8
proof -
  have "push_bit 8 (ucast h) OR ucast l = (push_bit 8 (ucast h) + ucast l :: u16)"
    by (rule disjunctive_add [symmetric]) (auto simp: bit_simps dest: bit_imp_le_length)
  also have "\<dots> = word_of_nat (unat h * 256 + unat l)"
    by (simp add: push_bit_eq_mult mult.commute)
  finally show ?thesis
    by (simp add: be16_def)
qed

text \<open>The parser holds the first bytes \<open>acc\<close> of a frame.\<close>

definition parser_holds :: "hcics_camera_parser \<Rightarrow> u8 list \<Rightarrow> bool" where
  "parser_holds p acc \<longleftrightarrow> parser_state p = 1 \<and> unat (parser_index p) = length acc \<and>
     0 < length acc \<and> length acc < 9 \<and> length (parser_buf p) = 9 \<and>
     take (length acc) (parser_buf p) = acc"

definition parser_idle :: "hcics_camera_parser \<Rightarrow> bool" where
  "parser_idle p \<longleftrightarrow> parser_state p = 0 \<and> parser_index p = 0 \<and> length (parser_buf p) = 9"

lemma feed_idle_other:
  "parser_idle p \<Longrightarrow> b \<noteq> 0xAA \<Longrightarrow> hcics_protocol_camera_feed now p b t = (False, p, t)"
  by (simp add: hcics_protocol_camera_feed_def parser_idle_def cam_defs)

lemma feed_idle_head:
  assumes "parser_idle p"
  obtains p' where "hcics_protocol_camera_feed now p 0xAA t = (False, p', t)"
    "parser_holds p' [0xAA]"
proof -
  have "parser_buf p \<noteq> []"
    using assms by (auto simp: parser_idle_def)
  then obtain x xs where "parser_buf p = x # xs"
    by (cases "parser_buf p") auto
  then show ?thesis
    using assms that
    by (simp add: hcics_protocol_camera_feed_def parser_idle_def parser_holds_def cam_defs)
qed

lemma index_step:
  "unat (i :: u8) = n \<Longrightarrow> n < 9 \<Longrightarrow> unat (i + 1) = Suc n \<and> (i + 1 < 9) = (Suc n < 9)"
proof -
  assume i: "unat i = n" "n < 9"
  then have "unat (i + 1) = Suc n"
    by (simp add: unat_word_ariths)
  then show ?thesis
    by (simp add: word_less_nat_alt)
qed

lemma feed_middle:
  assumes "parser_holds p acc" "length acc < 8"
  obtains p' where "hcics_protocol_camera_feed now p b t = (False, p', t)"
    "parser_holds p' (acc @ [b])"
proof -
  from assms have i: "unat (parser_index p) = length acc" "length acc < 9"
    by (auto simp: parser_holds_def)
  from assms have "take (Suc (length acc)) ((parser_buf p)[length acc := b]) = acc @ [b]"
    by (simp add: parser_holds_def take_Suc_conv_app_nth)
  then show ?thesis
    using assms that index_step [OF i]
    by (simp add: hcics_protocol_camera_feed_def parser_holds_def cam_defs Let_def)
qed

lemma list_of_8:
  assumes "length xs = 8"
  obtains a b c d e f g h where "xs = [a, b, c, d, e, f, g, h]"
  using assms by (auto simp: numeral_eq_Suc length_Suc_conv)

lemma feed_last:
  assumes "parser_holds p (map snd ys)" "length ys = 8"
  shows "parser_idle (fst (snd (hcics_protocol_camera_feed now p b t))) \<and>
    (if fst (hcics_protocol_camera_feed now p b t)
     then [snd (snd (hcics_protocol_camera_feed now p b t))] else []) = frame_target (ys @ [(now, b)])"
proof -
  obtain y0 y1 y2 y3 y4 y5 y6 y7 where ys: "ys = [y0, y1, y2, y3, y4, y5, y6, y7]"
    using list_of_8 [OF assms(2)] by blast
  from assms have buf: "take 8 (parser_buf p) = map snd ys" "length (parser_buf p) = 9"
      and n: "unat (parser_index p) = 8" "parser_state p = 1"
    by (auto simp: parser_holds_def)
  have "parser_buf p = take 8 (parser_buf p) @ drop 8 (parser_buf p)"
    by simp
  moreover have "length (drop 8 (parser_buf p)) = Suc 0"
    using buf(2) by simp
  then obtain l where "drop 8 (parser_buf p) = [l]"
    by (metis length_Suc_conv length_0_conv)
  ultimately have l: "parser_buf p = map snd ys @ [l]"
    using buf(1) by simp
  have i: "\<not> parser_index p + 1 < 9"
    using index_step [of "parser_index p" 8] n by simp
  show ?thesis
    using i n
    by (simp add: hcics_protocol_camera_feed_def cam_defs l ys be16_or parser_idle_def
        frame_target_def Let_def split: prod.split)
qed

lemma feed_stream_scan:
  "(parser_idle p \<longrightarrow> feed_stream p t xs = scan_frames xs) \<and>
   (parser_holds p (map snd ys) \<longrightarrow> feed_stream p t xs =
      (if length xs < 9 - length ys then []
       else frame_target (ys @ take (9 - length ys) xs) @ scan_frames (drop (9 - length ys) xs)))"
proof (induction xs arbitrary: p t ys)
  case Nil
  then show ?case by (auto simp: parser_holds_def)
next
  case (Cons x xs)
  obtain now b where x: "x = (now, b)" by force
  have idle: "feed_stream p t (x # xs) = scan_frames (x # xs)" if p: "parser_idle p"
  proof (cases "b = 0xAA")
    case True
    obtain p' where "hcics_protocol_camera_feed now p 0xAA t = (False, p', t)"
        "parser_holds p' [0xAA]"
      using feed_idle_head [OF p] by blast
    then show ?thesis
      using True Cons.IH [of p' t "[x]"] by (simp add: x)
  next
    case False
    then show ?thesis
      using p Cons.IH [of p t] by (simp add: x feed_idle_other)
  qed
  have held: "feed_stream p t (x # xs) =
      (if length (x # xs) < 9 - length ys then []
       else frame_target (ys @ take (9 - length ys) (x # xs)) @
         scan_frames (drop (9 - length ys) (x # xs)))" if p: "parser_holds p (map snd ys)"
  proof (cases "length ys < 8")
    case True
    then obtain p' where "hcics_protocol_camera_feed now p b t = (False, p', t)"
        "parser_holds p' (map snd (ys @ [x]))"
      using feed_middle [OF p, of now b t] by (auto simp: x)
    moreover have "9 - length ys = Suc (9 - length (ys @ [x]))"
      using True by simp
    ultimately show ?thesis
      using Cons.IH [of p' t "ys @ [x]"] by (simp add: x)
  next
    case False
    then have n: "length ys = 8"
      using p by (auto simp: parser_holds_def)
    obtain ok p' t' where f: "hcics_protocol_camera_feed now p b t = (ok, p', t')"
      by (metis prod_cases3)
    then show ?thesis
      using feed_last [OF p n, of now b t] Cons.IH [of p' t'] n by (auto simp: x)
  qed
  from idle held show ?case by blast
qed

lemma parser_init_idle: "parser_idle hcics_protocol_camera_parser_init"
  by (simp add: parser_idle_def hcics_protocol_camera_parser_init_def)

text \<open>The parser's invariant: idle, or holding one to eight bytes.\<close>

definition parser_ok :: "hcics_camera_parser \<Rightarrow> bool" where
  "parser_ok p \<longleftrightarrow> parser_idle p \<or>
     parser_holds p (take (unat (parser_index p)) (parser_buf p))"

lemma parser_holds_ok: "parser_holds p acc \<Longrightarrow> parser_ok p"
  by (simp add: parser_ok_def parser_holds_def min_def)

lemma parser_ok_feed:
  assumes "parser_ok p"
  shows "parser_ok (fst (snd (hcics_protocol_camera_feed now p b t)))"
proof (cases "parser_idle p")
  case True
  show ?thesis
  proof (cases "b = 0xAA")
    case head: True
    obtain p' where "hcics_protocol_camera_feed now p 0xAA t = (False, p', t)"
        "parser_holds p' [0xAA]"
      using feed_idle_head [OF True] by blast
    then show ?thesis
      using head by (simp add: parser_holds_ok)
  next
    case False
    then show ?thesis
      using assms True by (simp add: feed_idle_other)
  qed
next
  case False
  then obtain acc where acc: "parser_holds p acc"
    using assms unfolding parser_ok_def by blast
  then have "length acc < 9"
    by (simp add: parser_holds_def)
  show ?thesis
  proof (cases "length acc = 8")
    case True
    then show ?thesis
      using feed_last [of p "map (\<lambda>b. (now, b)) acc" now b t] acc
      by (simp add: parser_ok_def o_def)
  next
    case False
    then show ?thesis
      using \<open>length acc < 9\<close> feed_middle [OF acc, of now b t] parser_holds_ok
      by (metis fst_conv snd_conv less_SucE numeral_eq_Suc pred_numeral_simps(3))
  qed
qed

section \<open>Numerals as the task sender prints them\<close>

definition digit_char :: "nat \<Rightarrow> char" where
  "digit_char n = char_of (48 + n)"

definition dec_u8 :: "u8 \<Rightarrow> string" where
  "dec_u8 b =
     (let n = unat b in
      if n < 10 then [digit_char n]
      else if n < 100 then [digit_char (n div 10), digit_char (n mod 10)]
      else [digit_char (n div 100), digit_char (n div 10 mod 10), digit_char (n mod 10)])"

definition fault_text :: "string \<Rightarrow> hcics_fault \<Rightarrow> string" where
  "fault_text token f = ''FAULT,'' @ token @ '','' @ dec_u8 (fault_id f) @ '','' @
     dec_u8 (fault_row f) @ '','' @ dec_u8 (fault_col f) @ '','' @ dec_u8 (fault_severity f)"

lemma digit_char:
  assumes "n < 10"
  shows "is_digit (digit_char n)" "digit_value (digit_char n) = int n"
proof -
  have "(of_char (digit_char n) :: int) = 48 + int n"
  proof -
    have "of_char (digit_char n) = 48 + n"
      using assms by (simp add: digit_char_def)
    then have "int (of_char (digit_char n)) = 48 + int n"
      by simp
    then show ?thesis
      by (simp only: of_nat_of_char)
  qed
  with assms show "is_digit (digit_char n)" "digit_value (digit_char n) = int n"
    by (simp_all add: is_digit_def digit_value_def)
qed

lemma byte_decimal_digits:
  "(n::nat) < 256 \<Longrightarrow> n div 100 < 10"
  "n < 100 \<Longrightarrow> n div 10 < 10"
  using less_mult_imp_div_less [of n 10 100] less_mult_imp_div_less [of n 10 10] by simp_all

lemma decimal_digits_sum:
  "int (n div 10) * 10 + int (n mod 10) = int n"
  "(int (n div 100) * 10 + int (n div 10 mod 10)) * 10 + int (n mod 10) = int n"
proof -
  show two: "int (n div 10) * 10 + int (n mod 10) = int n" for n
    by (metis div_mult_mod_eq of_nat_add of_nat_mult of_nat_numeral)
  have "n div 100 = n div 10 div 10"
    by (simp flip: div_mult2_eq)
  then show "(int (n div 100) * 10 + int (n div 10 mod 10)) * 10 + int (n mod 10) = int n"
    using two [of "n div 10"] two [of n] by simp
qed

lemma u8_numeral_dec: "u8_numeral (dec_u8 b) (uint b)"
proof -
  have u: "uint b = int (unat b)" by simp
  have n: "unat b < 256" by simp
  then have "int (unat b) \<le> 255" by linarith
  moreover have "unat b div 100 < 10" "unat b div 10 mod 10 < 10" "unat b mod 10 < 10"
    using byte_decimal_digits(1) [OF n] by simp_all
  moreover note decimal_digits_sum [of "unat b"] byte_decimal_digits(2) [of "unat b"]
  ultimately show ?thesis
    unfolding u8_numeral_def dec_u8_def Let_def u
    by (simp add: digit_char)
qed

lemma dec_u8_no_NUL: "NUL \<notin> set (dec_u8 b)"
  using u8_numeral_dec [of b] not_digit(1) by (auto simp: u8_numeral_def list_all_iff)

lemma parse_fault_text_iff:
  assumes t: "hcics_token_is_usable (Some token)" "NUL \<notin> set token" and n: "NUL \<notin> set text"
  shows "hcics_protocol_parse_fault_text (Some text) (Some token) f0 = (True, f) \<longleftrightarrow>
    is_fault_text token f text \<and> hcics_protocol_fault_is_valid f \<and> fault_source f = ''udp''"
    (is "?l \<longleftrightarrow> ?r")
proof
  assume ?l
  then obtain q i r c v where q: "text = ''FAULT,'' @ q"
      and ff: "fault_fields q (Some token) = Some (i, r, c, v)"
      and f: "f = fault_of i r c v" "hcics_protocol_fault_is_valid f"
    unfolding parse_fault_text_accepts [OF t(1)] by blast
  have "NUL \<notin> set q"
    using n q by simp
  from fault_fields_iff [OF t this] ff obtain di dr dc dv ws where
    "q = token @ '','' @ di @ '','' @ dr @ '','' @ dc @ '','' @ dv @ ws"
    "u8_numeral di i" "u8_numeral dr r" "u8_numeral dc c" "u8_numeral dv v" "list_all is_blank ws"
    by blast
  then have "is_fault_text token f text"
    unfolding is_fault_text_def
    by (intro exI [of _ di] exI [of _ dr] exI [of _ dc] exI [of _ dv] exI [of _ ws])
      (simp add: q f(1) fault_of_def u8_numeral_word)
  with f show ?r
    by (simp add: fault_of_def)
next
  assume r: ?r
  then obtain di dr dc dv ws where tx:
      "text = ''FAULT,'' @ token @ '','' @ di @ '','' @ dr @ '','' @ dc @ '','' @ dv @ ws"
    and ds: "u8_numeral di (uint (fault_id f))" "u8_numeral dr (uint (fault_row f))"
      "u8_numeral dc (uint (fault_col f))" "u8_numeral dv (uint (fault_severity f))"
      "list_all is_blank ws"
    unfolding is_fault_text_def by blast
  define q where "q = token @ '','' @ di @ '','' @ dr @ '','' @ dc @ '','' @ dv @ ws"
  have "NUL \<notin> set q"
    using n tx by (simp add: q_def)
  then have "fault_fields q (Some token) = Some (uint (fault_id f), uint (fault_row f),
      uint (fault_col f), uint (fault_severity f))"
    by (intro iffD2 [OF fault_fields_iff [OF t]] exI [of _ di] exI [of _ dr] exI [of _ dc]
        exI [of _ dv] exI [of _ ws]) (use ds in \<open>simp_all add: q_def\<close>)
  moreover have "f = fault_of (uint (fault_id f)) (uint (fault_row f)) (uint (fault_col f))
      (uint (fault_severity f))"
    using r by (simp add: fault_of_def)
  moreover have "hcics_fault_grid_to_id (uint (fault_row f)) (uint (fault_col f)) \<noteq> None"
    using r valid_fault_grid by simp
  moreover have "text = ''FAULT,'' @ q"
    by (simp add: tx q_def)
  ultimately show ?l
    unfolding parse_fault_text_accepts [OF t(1)] using r by blast
qed

section \<open>Properties\<close>

definition fault_example :: hcics_fault where
  "fault_example = \<lparr>fault_id = 6, fault_row = 2, fault_col = 3, fault_severity = 120,
     fault_source = ''udp''\<rparr>"

text \<open>
  C18: The accepted fault commands. For a usable token and a packet without NUL bytes, the parser
  accepts with fault \<open>f\<close> exactly when the packet is \<open>FAULT,<token>,<id>,<row>,<col>,<severity>\<close>
  followed by blanks only, the four fields are decimal numerals of at most 255 with the values of
  \<open>f\<close>, the row and column are those of the id and the severity is not 0. Nothing else is let in.
\<close>

theorem fault_text_language:
  assumes "hcics_token_is_usable (Some token)" and "NUL \<notin> set token" and "NUL \<notin> set text"
  shows "hcics_protocol_parse_fault_text (Some text) (Some token) f0 = (True, f) \<longleftrightarrow>
    is_fault_text token f text \<and> hcics_protocol_fault_is_valid f \<and> fault_source f = ''udp''"
  by (rule parse_fault_text_iff [OF assms])

theorem fault_text_language_witness:
  "\<not> is_fault_text ''k'' fault_example ''FAULT,k,6,2,2,120''"
proof -
  have "fst (hcics_protocol_parse_fault_text (Some ''FAULT,k,6,2,2,120'') (Some ''k'') fault_example) = False"
    by code_simp
  moreover have "hcics_protocol_fault_is_valid fault_example" "fault_source fault_example = ''udp''"
    by code_simp+
  moreover have "hcics_token_is_usable (Some ''k'')" "NUL \<notin> set ''k''"
      "NUL \<notin> set ''FAULT,k,6,2,2,120''"
    by code_simp+
  ultimately show ?thesis
    using fault_text_language [of "''k''" "''FAULT,k,6,2,2,120''" fault_example fault_example]
    by auto
qed



text \<open>
  The stop command. A packet without NUL bytes stops the vehicle exactly when it is
  \<open>STOP,<token>\<close> followed by blanks only.
\<close>

lemma stop_text_language:
  assumes "hcics_token_is_usable (Some token)" and "NUL \<notin> set token" and "NUL \<notin> set text"
  shows "hcics_protocol_parse_stop_text (Some text) (Some token) \<longleftrightarrow>
    (\<exists>ws. text = ''STOP,'' @ token @ ws \<and> list_all is_blank ws)"
proof (cases "\<exists>q. text = ''STOP,'' @ q")
  case True
  then obtain q where q: "text = ''STOP,'' @ q" by blast
  then have "c_strncmp text ''STOP,'' 5 = 0" "drop 5 text = q" "NUL \<notin> set q"
    using assms(3) by (auto simp: strncmp_STOP)
  then show ?thesis
    using assms(1) parse_token_field_end [OF assms(1,2), of q] q
    by (auto simp: hcics_protocol_parse_stop_text_def)
next
  case False
  then show ?thesis
    using strncmp_STOP [of "text"] by (auto simp: hcics_protocol_parse_stop_text_def)
qed

lemma stop_text_language_example:
  "hcics_protocol_parse_stop_text (Some (''STOP,k'' @ [CHR 0x0A])) (Some ''k'')"
  using stop_text_language [of "''k''" "''STOP,k'' @ [CHR 0x0A]"]
  by (auto simp: usable_token_simps is_blank_def)

text \<open>
  C19: Camera framing. Whatever bytes arrive and whenever, the byte-wise parser started by its
  init function delivers exactly the targets of the reference decoder, which looks at the whole
  stream: it skips to a head byte, takes nine bytes as a frame, and keeps it when the tail and
  the mode are right. The tick of a target is the one at which its last byte was read.
\<close>

theorem camera_stream_reference:
  "feed_stream hcics_protocol_camera_parser_init target xs = scan_frames xs"
  using feed_stream_scan parser_init_idle by blast

text \<open>
  The camera parser never writes outside its buffer: from the init state on, every byte finds
  a parser that is idle or holds one to eight bytes, so the index it stores at is below 9, the
  length of the buffer.
\<close>

lemma camera_parser_in_bounds:
  assumes "parser_ok p"
  shows "unat (parser_index p) < length (parser_buf p) \<and> length (parser_buf p) = 9 \<and>
    parser_ok (fst (snd (hcics_protocol_camera_feed now p byte target)))"
  using assms parser_ok_feed [OF assms]
  by (auto simp: parser_ok_def parser_idle_def parser_holds_def)

lemma camera_parser_in_bounds_example:
  "parser_ok (fst (snd (hcics_protocol_camera_feed 5 hcics_protocol_camera_parser_init 0xAA
     \<lparr>cam_mode = 0, cam_x = 0, cam_y = 0, cam_width = 0, cam_type = 0, cam_tick = 0\<rparr>)))"
  using camera_parser_in_bounds [of hcics_protocol_camera_parser_init] parser_init_idle
  by (simp add: parser_ok_def)

end
