(* ===== verification/Float32.thy ===== *)
theory Float32
  imports Complex_Main
begin

text \<open>
  Single precision arithmetic, as far as the line follower uses it: a finite \<open>float\<close> is the
  rational it stands for, and every operation is the exact result rounded to 24 significant bits,
  to nearest, ties to even, with gradual underflow. The values of the line follower stay far
  below the overflow threshold, so infinities and NaNs do not occur. The compiler is taken to
  round every operation of the source (no contraction into fused operations).

  What the clients rely on is the locale \<open>rounding\<close>: small integers are not crossed.
\<close>

type_synonym float32 = rat

section \<open>Rounding\<close>

text \<open>The number of binary digits of a natural number.\<close>

fun bit_length :: "nat \<Rightarrow> nat" where
  "bit_length n = (if n = 0 then 0 else Suc (bit_length (n div 2)))"

declare bit_length.simps [simp del]

definition pow2 :: "int \<Rightarrow> rat" where
  "pow2 e = (if e \<ge> 0 then 2 ^ nat e else 1 / 2 ^ nat (- e))"

text \<open>The exponent of the leading bit of a positive rational.\<close>

definition leading_exponent :: "rat \<Rightarrow> int" where
  "leading_exponent x =
     (case quotient_of x of (p, q) \<Rightarrow>
        let k = int (bit_length (nat p)) - int (bit_length (nat q))
        in if pow2 k \<le> x then k else k - 1)"

definition round_even :: "rat \<Rightarrow> int" where
  "round_even x =
     (let f = \<lfloor>x\<rfloor>; d = x - of_int f in
      if d < 1 / 2 then f
      else if d > 1 / 2 then f + 1
      else if even f then f else f + 1)"

definition f32_round :: "rat \<Rightarrow> float32" where
  "f32_round x =
     (if x = 0 then 0
      else
        let ulp = pow2 (max (leading_exponent \<bar>x\<bar> - 23) (- 149))
        in of_int (round_even (x / ulp)) * ulp)"

definition f32_add :: "float32 \<Rightarrow> float32 \<Rightarrow> float32" where
  "f32_add a b = f32_round (a + b)"

definition f32_sub :: "float32 \<Rightarrow> float32 \<Rightarrow> float32" where
  "f32_sub a b = f32_round (a - b)"

definition f32_mul :: "float32 \<Rightarrow> float32 \<Rightarrow> float32" where
  "f32_mul a b = f32_round (a * b)"

text \<open>The cast to an integer type truncates towards zero.\<close>

definition f32_trunc :: "float32 \<Rightarrow> int" where
  "f32_trunc x = (if x \<ge> 0 then \<lfloor>x\<rfloor> else - \<lfloor>- x\<rfloor>)"

section \<open>The rounding contract\<close>

locale rounding =
  fixes fl :: "rat \<Rightarrow> rat" and limit :: int
  assumes below: "x \<le> of_int n \<Longrightarrow> \<bar>x\<bar> \<le> of_int limit \<Longrightarrow> fl x \<le> of_int n"
    and above: "of_int n \<le> x \<Longrightarrow> \<bar>x\<bar> \<le> of_int limit \<Longrightarrow> of_int n \<le> fl x"
begin

lemma exact: "\<bar>n\<bar> \<le> limit \<Longrightarrow> fl (of_int n) = of_int n"
  by (intro antisym below above) (simp_all flip: of_int_abs)

lemma bounded: "\<bar>x\<bar> \<le> of_int n \<Longrightarrow> n \<le> limit \<Longrightarrow> \<bar>fl x\<bar> \<le> of_int n"
proof -
  assume x: "\<bar>x\<bar> \<le> of_int n" and n: "n \<le> limit"
  then have l: "\<bar>x\<bar> \<le> of_int limit"
    by (meson of_int_le_iff order_trans)
  have "fl x \<le> of_int n" "of_int (- n) \<le> fl x"
    using x by (intro below above l; simp add: abs_le_iff)+
  then show ?thesis
    by (simp add: abs_le_iff)
qed

end

lemma bit_length_bounds: "n < 2 ^ bit_length n" "0 < n \<Longrightarrow> 2 ^ bit_length n \<le> 2 * n"
proof (induction n rule: bit_length.induct)
  case (1 n)
  {
    case 1
    show ?case
    proof (cases "n = 0")
      case False
      then show ?thesis
        using "1.IH"(1) by (simp add: bit_length.simps [of n])
    qed (simp add: bit_length.simps)
  next
    case 2
    then show ?case
      using "1.IH"(2) by (cases "n div 2 = 0") (auto simp: bit_length.simps [of n] bit_length.simps [of 0])
  }
qed

lemma pow2_pos [simp]: "0 < pow2 e"
  by (simp add: pow2_def)

lemma pow2_add_nat: "0 \<le> e \<Longrightarrow> pow2 e = 2 ^ nat e"
  by (simp add: pow2_def)

lemma pow2_diff: "pow2 (int m - int n) = 2 ^ m / 2 ^ n"
proof (cases "n \<le> m")
  case True
  then show ?thesis
    by (simp add: pow2_def power_diff flip: of_nat_diff)
next
  case False
  then have "nat (int n - int m) = n - m" "\<not> 0 \<le> int m - int n" by simp_all
  then show ?thesis
    using False by (simp add: pow2_def power_diff)
qed

lemma pow2_half: "pow2 (k - 1) = pow2 k / 2"
proof -
  obtain m n where "k = int m - int n"
    by (metis int_diff_cases)
  then have "k = int m - int n" "k - 1 = int m - int (Suc n)" by simp_all
  then show ?thesis
    by (metis pow2_diff divide_divide_eq_left mult.commute power_Suc)
qed

lemma leading_exponent_le:
  assumes "0 < x" shows "pow2 (leading_exponent x) \<le> x"
proof -
  obtain p q where pq: "quotient_of x = (p, q)" by (cases "quotient_of x")
  have q: "0 < q" "x = of_int p / of_int q"
    using quotient_of_denom_pos [OF pq] quotient_of_div [OF pq] by simp_all
  then have p: "0 < p"
    using assms by (simp add: zero_less_divide_iff)
  define m n where "m = nat p" and "n = nat q"
  have mn: "0 < m" "0 < n" "x = of_nat m / of_nat n"
    using p q by (simp_all add: m_def n_def)
  let ?k = "int (bit_length m) - int (bit_length n)"
  have "(2::rat) ^ bit_length m \<le> 2 * of_nat m"
    using bit_length_bounds(2) [OF mn(1)] by (metis of_nat_le_iff of_nat_mult of_nat_numeral of_nat_power)
  moreover have "of_nat n \<le> (2::rat) ^ bit_length n"
    using bit_length_bounds(1) [of n] by (metis less_imp_le of_nat_le_iff of_nat_numeral of_nat_power)
  ultimately have "(2::rat) ^ bit_length m / 2 ^ bit_length n \<le> 2 * of_nat m / of_nat n"
    using mn(2) by (intro frac_le) simp_all
  then have "pow2 (?k - 1) \<le> x"
    by (simp add: pow2_half pow2_diff mn(3))
  then show ?thesis
    by (simp add: leading_exponent_def pq Let_def flip: m_def n_def)
qed

lemma pow2_mono: "k \<le> l \<Longrightarrow> pow2 k \<le> pow2 l"
proof -
  assume "k \<le> l"
  obtain m n where k: "k = int m - int n"
    by (metis int_diff_cases)
  with \<open>k \<le> l\<close> have l: "l = int (m + nat (l - k)) - int n" by simp
  have "pow2 k \<le> 2 ^ (m + nat (l - k)) / 2 ^ n"
    unfolding k pow2_diff by (simp add: divide_right_mono power_increasing)
  also have "\<dots> = pow2 l"
    by (subst (2) l) (simp only: pow2_diff)
  finally show ?thesis .
qed

lemma round_even_bounds:
  "x \<le> of_int m \<Longrightarrow> round_even x \<le> m" "of_int m \<le> x \<Longrightarrow> m \<le> round_even x"
proof -
  assume "x \<le> of_int m"
  then have "\<lfloor>x\<rfloor> < m \<or> x = of_int m"
    by linarith
  then show "round_even x \<le> m"
    by (auto simp: round_even_def Let_def)
next
  assume "of_int m \<le> x"
  then have "m \<le> \<lfloor>x\<rfloor>"
    by (simp add: le_floor_iff)
  then show "m \<le> round_even x"
    by (auto simp: round_even_def Let_def)
qed

text \<open>Below \<open>2 ^ 24\<close> the grid contains every integer.\<close>

lemma f32_grid:
  assumes "\<bar>x\<bar> \<le> of_int (2 ^ 24 - 1)" "x \<noteq> 0"
  shows "\<exists>N > 0. pow2 (max (leading_exponent \<bar>x\<bar> - 23) (- 149)) = 1 / of_nat N"
proof -
  let ?e = "leading_exponent \<bar>x\<bar>"
  have "?e < 24"
  proof (rule ccontr)
    assume "\<not> ?e < 24"
    then have "pow2 24 \<le> pow2 ?e" by (intro pow2_mono) simp
    also have "\<dots> \<le> \<bar>x\<bar>"
      using leading_exponent_le [of "\<bar>x\<bar>"] assms(2) by simp
    also have "\<dots> < pow2 24"
      using assms(1) by (simp add: pow2_def)
    finally show False by simp
  qed
  then have "max (?e - 23) (- 149) \<le> 0" by simp
  then have "pow2 (max (?e - 23) (- 149)) = 1 / of_nat (2 ^ nat (- max (?e - 23) (- 149)))"
    by (auto simp: pow2_def)
  then show ?thesis
    by (intro exI [of _ "2 ^ nat (- max (?e - 23) (- 149))"]) simp
qed

interpretation f32: rounding f32_round "2 ^ 24 - 1"
proof
  fix x :: rat and n :: int
  assume x: "\<bar>x\<bar> \<le> of_int (2 ^ 24 - 1)"
  have grid: "x \<noteq> 0 \<Longrightarrow> \<exists>N > 0. f32_round x = of_int (round_even (x * of_nat N)) / of_nat N"
    using f32_grid [OF x] by (auto simp: f32_round_def Let_def)
  show "f32_round x \<le> of_int n" if "x \<le> of_int n"
  proof (cases "x = 0")
    case True
    then show ?thesis using that by (simp add: f32_round_def)
  next
    case False
    from grid [OF this] obtain N where N: "0 < N"
      "f32_round x = of_int (round_even (x * of_nat N)) / of_nat N" by blast
    have "x * of_nat N \<le> of_int (n * int N)"
      using that N(1) by (simp add: mult_right_mono)
    then have "of_int (round_even (x * of_nat N)) \<le> (of_int (n * int N) :: rat)"
      using round_even_bounds(1) of_int_le_iff by blast
    then show ?thesis
      using N by (simp add: divide_le_eq)
  qed
  show "of_int n \<le> f32_round x" if "of_int n \<le> x"
  proof (cases "x = 0")
    case True
    then show ?thesis using that by (simp add: f32_round_def)
  next
    case False
    from grid [OF this] obtain N where N: "0 < N"
      "f32_round x = of_int (round_even (x * of_nat N)) / of_nat N" by blast
    have "of_int (n * int N) \<le> x * of_nat N"
      using that N(1) by (simp add: mult_right_mono)
    then have "(of_int (n * int N) :: rat) \<le> of_int (round_even (x * of_nat N))"
      using round_even_bounds(2) of_int_le_iff by blast
    then show ?thesis
      using N by (simp add: le_divide_eq)
  qed
qed

lemma f32_trunc_bounded: "\<bar>x\<bar> \<le> of_int n \<Longrightarrow> \<bar>f32_trunc x\<bar> \<le> n"
proof -
  assume x: "\<bar>x\<bar> \<le> of_int n"
  have "\<bar>f32_trunc x\<bar> = \<lfloor>\<bar>x\<bar>\<rfloor>"
    by (simp add: f32_trunc_def)
  also have "\<dots> \<le> n"
    using floor_mono [OF x] by simp
  finally show ?thesis .
qed

end
