(* ===== verification/HcicsTrack.thy ===== *)
theory HcicsTrack
  imports HcicsMotion HcicsProtocol Float32
begin

text \<open>
  The path tracking module, \<open>applications/hcics_track.c\<close>: path planning on the panel grid, the
  tick state machine that consumes one plan step per node mark, and the line follower. The
  record holds the static \<open>g_track\<close> and the module's global variables. The motor callback
  \<open>ops.set_motor\<close> is a parameter of the functions that call it, under the contract of the
  locale \<open>track_motor\<close>.
\<close>

section \<open>State and configuration\<close>

definition HCICS_TRACK_CAMERA_CENTER_X :: int where "HCICS_TRACK_CAMERA_CENTER_X = 80"
definition HCICS_TRACK_BASE_SPEED :: float32 where "HCICS_TRACK_BASE_SPEED = 54"
definition HCICS_TRACK_MIN_TARGET_W :: u8 where "HCICS_TRACK_MIN_TARGET_W = 3"
definition HCICS_TRACK_LOW_CONF_W :: u8 where "HCICS_TRACK_LOW_CONF_W = 32"
definition HCICS_TRACK_NODE_WIDE_W :: u8 where "HCICS_TRACK_NODE_WIDE_W = 80"
definition HCICS_TRACK_NODE_WIDE_FALLBACK_W :: u8 where "HCICS_TRACK_NODE_WIDE_FALLBACK_W = 100"
definition HCICS_TRACK_NODE_COOLDOWN_MS :: u32 where "HCICS_TRACK_NODE_COOLDOWN_MS = 500"
definition HCICS_TRACK_TURN_LEFT_MS :: u32 where "HCICS_TRACK_TURN_LEFT_MS = 900"
definition HCICS_TRACK_TURN_RIGHT_MS :: u32 where "HCICS_TRACK_TURN_RIGHT_MS = 750"
definition HCICS_TRACK_UTURN_MS :: u32 where "HCICS_TRACK_UTURN_MS = 1200"
definition HCICS_TRACK_FINISH_DELAY_MS :: u32 where "HCICS_TRACK_FINISH_DELAY_MS = 400"
definition HCICS_TRACK_TARGET_STALE_MS :: u32 where "HCICS_TRACK_TARGET_STALE_MS = 1500"
definition HCICS_TRACK_TURN_LIMIT :: float32 where "HCICS_TRACK_TURN_LIMIT = 70"
definition HCICS_TRACK_LOW_CONF_TURN_LIMIT :: float32 where "HCICS_TRACK_LOW_CONF_TURN_LIMIT = 10"
definition HCICS_TRACK_SEARCH_SPEED :: int where "HCICS_TRACK_SEARCH_SPEED = 27"
definition HCICS_TRACK_LEFT_INNER_SPEED :: int where "HCICS_TRACK_LEFT_INNER_SPEED = - 25"
definition HCICS_TRACK_LEFT_OUTER_SPEED :: int where "HCICS_TRACK_LEFT_OUTER_SPEED = 85"
definition HCICS_TRACK_RIGHT_INNER_SPEED :: int where "HCICS_TRACK_RIGHT_INNER_SPEED = - 25"
definition HCICS_TRACK_RIGHT_OUTER_SPEED :: int where "HCICS_TRACK_RIGHT_OUTER_SPEED = 85"
definition HCICS_TRACK_UTURN_LEFT_SPEED :: int where "HCICS_TRACK_UTURN_LEFT_SPEED = - 150"
definition HCICS_TRACK_UTURN_RIGHT_SPEED :: int where "HCICS_TRACK_UTURN_RIGHT_SPEED = 150"
definition HCICS_TRACK_FILTER_ALPHA :: float32 where "HCICS_TRACK_FILTER_ALPHA = f32_round (6 / 10)"
definition HCICS_TRACK_GRID_COLS :: u8 where "HCICS_TRACK_GRID_COLS = 3"
definition HCICS_TRACK_MAX_PATH_STEPS :: u8 where "HCICS_TRACK_MAX_PATH_STEPS = 16"
definition HCICS_TRACK_TARGET_HOME :: u8 where "HCICS_TRACK_TARGET_HOME = 0"
definition HCICS_TRACK_TARGET_MIN :: u8 where "HCICS_TRACK_TARGET_MIN = 1"
definition HCICS_TRACK_TARGET_MAX :: u8 where "HCICS_TRACK_TARGET_MAX = 9"

text \<open>The gains are global variables no code assigns.\<close>

definition Kp :: float32 where "Kp = f32_round (35 / 100)"
definition Kd :: float32 where "Kd = 35"

lemmas track_speed_defs = HCICS_TRACK_BASE_SPEED_def HCICS_TRACK_TURN_LIMIT_def
  HCICS_TRACK_LOW_CONF_TURN_LIMIT_def HCICS_TRACK_SEARCH_SPEED_def
  HCICS_TRACK_LEFT_INNER_SPEED_def HCICS_TRACK_LEFT_OUTER_SPEED_def
  HCICS_TRACK_RIGHT_INNER_SPEED_def HCICS_TRACK_RIGHT_OUTER_SPEED_def
  HCICS_TRACK_UTURN_LEFT_SPEED_def HCICS_TRACK_UTURN_RIGHT_SPEED_def

lemmas track_time_defs = HCICS_TRACK_NODE_COOLDOWN_MS_def HCICS_TRACK_TURN_LEFT_MS_def
  HCICS_TRACK_TURN_RIGHT_MS_def HCICS_TRACK_UTURN_MS_def HCICS_TRACK_FINISH_DELAY_MS_def
  HCICS_TRACK_TARGET_STALE_MS_def

lemmas track_grid_defs = HCICS_TRACK_GRID_COLS_def HCICS_TRACK_MAX_PATH_STEPS_def
  HCICS_TRACK_TARGET_HOME_def HCICS_TRACK_TARGET_MIN_def HCICS_TRACK_TARGET_MAX_def

lemmas track_width_defs = HCICS_TRACK_MIN_TARGET_W_def HCICS_TRACK_LOW_CONF_W_def
  HCICS_TRACK_NODE_WIDE_W_def HCICS_TRACK_NODE_WIDE_FALLBACK_W_def

datatype hcics_track_action =
    HCICS_TRACK_ACTION_FORWARD | HCICS_TRACK_ACTION_TURN_LEFT | HCICS_TRACK_ACTION_TURN_RIGHT
  | HCICS_TRACK_ACTION_UTURN | HCICS_TRACK_ACTION_FINISH_DELAY | HCICS_TRACK_ACTION_STOP_AT_TARGET

datatype hcics_track_state =
    HCICS_TRACK_STATE_LINE | HCICS_TRACK_STATE_LEFT_TURN | HCICS_TRACK_STATE_RIGHT_TURN
  | HCICS_TRACK_STATE_UTURN | HCICS_TRACK_STATE_PAUSED | HCICS_TRACK_STATE_FINISHED
  | HCICS_TRACK_STATE_IDLE

text \<open>Their names on the console.\<close>

fun hcics_track_action_name :: "hcics_track_action \<Rightarrow> string" where
  "hcics_track_action_name HCICS_TRACK_ACTION_FORWARD = ''FORWARD''"
| "hcics_track_action_name HCICS_TRACK_ACTION_TURN_LEFT = ''TURN_LEFT''"
| "hcics_track_action_name HCICS_TRACK_ACTION_TURN_RIGHT = ''TURN_RIGHT''"
| "hcics_track_action_name HCICS_TRACK_ACTION_UTURN = ''UTURN''"
| "hcics_track_action_name HCICS_TRACK_ACTION_FINISH_DELAY = ''FINISH_DELAY''"
| "hcics_track_action_name HCICS_TRACK_ACTION_STOP_AT_TARGET = ''STOP_AT_TARGET''"

fun hcics_track_state_name :: "hcics_track_state \<Rightarrow> string" where
  "hcics_track_state_name HCICS_TRACK_STATE_LINE = ''LINE''"
| "hcics_track_state_name HCICS_TRACK_STATE_LEFT_TURN = ''LEFT_TURN''"
| "hcics_track_state_name HCICS_TRACK_STATE_RIGHT_TURN = ''RIGHT_TURN''"
| "hcics_track_state_name HCICS_TRACK_STATE_UTURN = ''UTURN''"
| "hcics_track_state_name HCICS_TRACK_STATE_PAUSED = ''PAUSED''"
| "hcics_track_state_name HCICS_TRACK_STATE_FINISHED = ''FINISHED''"
| "hcics_track_state_name HCICS_TRACK_STATE_IDLE = ''IDLE''"

datatype hcics_track_path_id =
  HCICS_TRACK_PATH_HOME | HCICS_TRACK_PATH_TO_TARGET | HCICS_TRACK_PATH_RETURN_HOME

record hcics_track_step =
  step_action :: hcics_track_action
  step_name :: string

text \<open>
  \<open>planned_path\<close>; its array of steps is the separate field \<open>tr_planned_steps\<close>, as \<open>steps\<close> always
  points there.
\<close>

record hcics_track_path =
  path_len :: u8
  path_id :: hcics_track_path_id
  path_destination :: u8
  path_name :: string

text \<open>
  \<open>tr_set_motor\<close> and \<open>tr_get_speed\<close> say whether the callback is set, \<open>tr_path\<close> whether the pointer
  \<open>path\<close> is set; it only ever points to \<open>planned_path\<close>. The last three fields are the module's
  global variables.
\<close>

record track = motion +
  tr_initialized :: bool
  tr_running :: bool
  tr_finished :: bool
  tr_target_locked :: bool
  tr_node_latched :: bool
  tr_action_active :: bool
  tr_target_id :: u8
  tr_current_location :: u8
  tr_path_index :: u8
  tr_active_action :: hcics_track_action
  tr_last_tick_ms :: u32
  tr_last_node_ms :: u32
  tr_action_end_ms :: u32
  tr_left_cmd :: int
  tr_right_cmd :: int
  tr_actual_left :: int
  tr_actual_right :: int
  tr_error :: float32
  tr_last_error :: float32
  tr_filtered_error :: float32
  tr_d_error :: float32
  tr_turn :: float32
  tr_base_speed :: float32
  tr_camera :: hcics_camera_target
  tr_set_motor :: bool
  tr_get_speed :: bool
  tr_path :: bool
  tr_planned_path :: hcics_track_path
  tr_planned_steps :: "hcics_track_step list"
  current_node_index :: u8
  visual_mission_state :: hcics_track_state
  s_current_cooldown_ms :: u32

type_synonym 's motor = "int \<Rightarrow> int \<Rightarrow> ('s, unit) state"

section \<open>Planning\<close>

definition hcics_track_float_to_i16 :: "float32 \<Rightarrow> int" where
  "hcics_track_float_to_i16 value =
     (if value > 32767 then 32767 else if value < - 32768 then - 32768 else i16 (f32_trunc value))"

definition hcics_track_clampf :: "float32 \<Rightarrow> float32 \<Rightarrow> float32 \<Rightarrow> float32" where
  "hcics_track_clampf value min_value max_value =
     (if value < min_value then min_value else if value > max_value then max_value else value)"

text \<open>The arithmetic is unsigned, and the results are cast back to a byte.\<close>

definition hcics_track_target_to_grid :: "u8 \<Rightarrow> (u8 \<times> u8) option" where
  "hcics_track_target_to_grid target_id =
     (if target_id < HCICS_TRACK_TARGET_MIN \<or> target_id > HCICS_TRACK_TARGET_MAX then None
      else Some ((target_id - 1) div HCICS_TRACK_GRID_COLS + 1,
                 (target_id - 1) mod HCICS_TRACK_GRID_COLS + 1))"

definition hcics_track_motor_ready :: "('a track_scheme, bool) state" where
  "hcics_track_motor_ready = gets (\<lambda>s. tr_initialized s \<and> tr_set_motor s)"

definition hcics_track_add_step ::
  "hcics_track_action \<Rightarrow> string \<Rightarrow> ('a track_scheme, rt_err) state" where
  "hcics_track_add_step action name = do {
     len \<leftarrow> gets (\<lambda>s. path_len (tr_planned_path s));
     if len \<ge> HCICS_TRACK_MAX_PATH_STEPS then ret (- RT_EFULL)
     else do {
       modify (\<lambda>s. s\<lparr>
         tr_planned_steps := (tr_planned_steps s)[unat len := \<lparr>step_action = action, step_name = name\<rparr>],
         tr_planned_path := (tr_planned_path s)\<lparr>path_len := len + 1\<rparr>\<rparr>);
       ret RT_EOK } }"

text \<open>The loops of the planner: \<open>n\<close> steps of one kind, stopping at the first that does not fit.\<close>

fun track_add_steps :: "nat \<Rightarrow> hcics_track_action \<Rightarrow> string \<Rightarrow> ('a track_scheme, rt_err) state" where
  "track_add_steps 0 action name = ret RT_EOK"
| "track_add_steps (Suc n) action name = do {
     result \<leftarrow> hcics_track_add_step action name;
     if result \<noteq> RT_EOK then ret (- RT_EFULL) else track_add_steps n action name }"

definition hcics_track_build_to_target :: "u8 \<Rightarrow> ('a track_scheme, rt_err) state" where
  "hcics_track_build_to_target target_id =
     (case hcics_track_target_to_grid target_id of
        None \<Rightarrow> ret (- RT_EINVAL)
      | Some (row, col) \<Rightarrow> do {
          modify (\<lambda>s. s\<lparr>tr_planned_path := (tr_planned_path s)\<lparr>
            path_id := HCICS_TRACK_PATH_TO_TARGET, path_destination := target_id,
            path_name := ''auto-to-target''\<rparr>\<rparr>);
          result \<leftarrow> track_add_steps (unat row) HCICS_TRACK_ACTION_FORWARD ''main lane forward'';
          if result \<noteq> RT_EOK then ret (- RT_EFULL)
          else do {
            result \<leftarrow> hcics_track_add_step HCICS_TRACK_ACTION_TURN_RIGHT ''enter target row'';
            if result \<noteq> RT_EOK then ret (- RT_EFULL)
            else do {
              result \<leftarrow> track_add_steps (unat col - 1) HCICS_TRACK_ACTION_FORWARD ''row lane forward'';
              if result \<noteq> RT_EOK then ret (- RT_EFULL)
              else hcics_track_add_step HCICS_TRACK_ACTION_STOP_AT_TARGET ''stop at fault panel'' } } })"

definition hcics_track_build_return_home :: "('a track_scheme, rt_err) state" where
  "hcics_track_build_return_home = do {
     location \<leftarrow> gets tr_current_location;
     if location = HCICS_TRACK_TARGET_HOME then do {
       modify (\<lambda>s. s\<lparr>tr_planned_path := (tr_planned_path s)\<lparr>
         path_id := HCICS_TRACK_PATH_HOME, path_destination := HCICS_TRACK_TARGET_HOME,
         path_name := ''already-home''\<rparr>\<rparr>);
       hcics_track_add_step HCICS_TRACK_ACTION_FINISH_DELAY ''home settle'' }
     else
       case hcics_track_target_to_grid location of
         None \<Rightarrow> ret (- RT_EINVAL)
       | Some (row, col) \<Rightarrow> do {
           modify (\<lambda>s. s\<lparr>tr_planned_path := (tr_planned_path s)\<lparr>
             path_id := HCICS_TRACK_PATH_RETURN_HOME, path_destination := HCICS_TRACK_TARGET_HOME,
             path_name := ''auto-return-home''\<rparr>\<rparr>);
           result \<leftarrow> hcics_track_add_step HCICS_TRACK_ACTION_UTURN ''turn around after cleaning'';
           if result \<noteq> RT_EOK then ret (- RT_EFULL)
           else do {
             result \<leftarrow> track_add_steps (unat col - 1) HCICS_TRACK_ACTION_FORWARD ''row lane return'';
             if result \<noteq> RT_EOK then ret (- RT_EFULL)
             else do {
               result \<leftarrow> hcics_track_add_step HCICS_TRACK_ACTION_TURN_LEFT ''exit row to main lane'';
               if result \<noteq> RT_EOK then ret (- RT_EFULL)
               else do {
                 result \<leftarrow> track_add_steps (unat row) HCICS_TRACK_ACTION_FORWARD ''main lane return'';
                 if result \<noteq> RT_EOK then ret (- RT_EFULL)
                 else hcics_track_add_step HCICS_TRACK_ACTION_FINISH_DELAY ''dock home'' } } } } }"

text \<open>Both \<open>memset\<close>s: zeroed steps are \<open>FORWARD\<close> without a name, the zeroed path is empty.\<close>

definition track_zero_step :: hcics_track_step where
  "track_zero_step = \<lparr>step_action = HCICS_TRACK_ACTION_FORWARD, step_name = ''''\<rparr>"

definition track_zero_path :: hcics_track_path where
  "track_zero_path =
     \<lparr>path_len = 0, path_id = HCICS_TRACK_PATH_HOME, path_destination = 0, path_name = ''''\<rparr>"

definition hcics_track_plan_path :: "u8 \<Rightarrow> ('a track_scheme, rt_err) state" where
  "hcics_track_plan_path target_id = do {
     modify (\<lambda>s. s\<lparr>tr_planned_steps := replicate 16 track_zero_step,
       tr_planned_path := track_zero_path\<rparr>);
     if target_id = HCICS_TRACK_TARGET_HOME then hcics_track_build_return_home
     else hcics_track_build_to_target target_id }"

section \<open>Motors\<close>

text \<open>Only called with the callback set or not: without it nothing is driven.\<close>

definition hcics_track_motion_set ::
  "'a track_scheme motor \<Rightarrow> int \<Rightarrow> int \<Rightarrow> ('a track_scheme, unit) state" where
  "hcics_track_motion_set mot left right = do {
     modify (\<lambda>s. s\<lparr>tr_left_cmd := left, tr_right_cmd := right\<rparr>);
     set \<leftarrow> gets tr_set_motor;
     if \<not> set then ret () else mot left right }"

definition hcics_track_motion_get_realtime ::
  "('a track_scheme, int \<times> int) state \<Rightarrow> ('a track_scheme, int \<times> int) state" where
  "hcics_track_motion_get_realtime get_speed = do {
     set \<leftarrow> gets tr_get_speed;
     if set then get_speed else gets (\<lambda>s. (tr_actual_left s, tr_actual_right s)) }"

section \<open>Camera\<close>

definition hcics_track_target_recent :: "hcics_camera_target \<Rightarrow> u32 \<Rightarrow> bool" where
  "hcics_track_target_recent target now =
     (if cam_mode target \<noteq> HCICS_CAM_MODE_TRACK \<or> cam_tick target = 0 \<or>
         cam_width target < HCICS_TRACK_MIN_TARGET_W then False
      else now - tick_to_ms (cam_tick target) \<le> HCICS_TRACK_TARGET_STALE_MS)"

definition hcics_track_node_seen :: "hcics_camera_target \<Rightarrow> u32 \<Rightarrow> ('a track_scheme, bool) state" where
  "hcics_track_node_seen target now =
     (if \<not> hcics_track_target_recent target now then ret False
      else do {
        last_node \<leftarrow> gets tr_last_node_ms;
        cooldown \<leftarrow> gets s_current_cooldown_ms;
        if now - last_node < cooldown then ret False
        else
          let typed_node = (cam_type target = 3 \<or> cam_type target = 4 \<or> cam_type target = 7);
              fallback_node = (cam_type target = 0 \<and>
                cam_width target \<ge> HCICS_TRACK_NODE_WIDE_FALLBACK_W)
          in ret ((typed_node \<and> cam_width target \<ge> HCICS_TRACK_NODE_WIDE_W) \<or> fallback_node) })"

section \<open>The path scheduler\<close>

definition hcics_track_finish_path ::
  "'a track_scheme motor \<Rightarrow> u32 \<Rightarrow> ('a track_scheme, unit) state" where
  "hcics_track_finish_path mot now = do {
     path \<leftarrow> gets tr_path;
     destination \<leftarrow> gets (\<lambda>s. path_destination (tr_planned_path s));
     let destination = (if path then destination else HCICS_TRACK_TARGET_HOME);
     modify (\<lambda>s. s\<lparr>tr_running := False, tr_finished := True, tr_action_active := False,
       tr_current_location := destination, tr_last_node_ms := now,
       visual_mission_state := HCICS_TRACK_STATE_FINISHED\<rparr>);
     hcics_track_motion_set mot 0 0 }"

text \<open>A timed action: the motors run at fixed speeds until \<open>action_end_ms\<close>.\<close>

definition track_timed ::
  "'a track_scheme motor \<Rightarrow> u32 \<Rightarrow> hcics_track_state \<Rightarrow> int \<Rightarrow> int \<Rightarrow> ('a track_scheme, unit) state" where
  "track_timed mot end_ms st left right = do {
     modify (\<lambda>s. s\<lparr>tr_action_active := True, tr_action_end_ms := end_ms,
       visual_mission_state := st\<rparr>);
     hcics_track_motion_set mot left right }"

definition hcics_track_begin_action ::
  "'a track_scheme motor \<Rightarrow> hcics_track_step \<Rightarrow> u32 \<Rightarrow> ('a track_scheme, unit) state" where
  "hcics_track_begin_action mot step now = do {
     modify (\<lambda>s. s\<lparr>tr_active_action := step_action step, tr_action_active := False\<rparr>);
     case step_action step of
       HCICS_TRACK_ACTION_FORWARD \<Rightarrow>
         modify (\<lambda>s. s\<lparr>tr_last_node_ms := now, visual_mission_state := HCICS_TRACK_STATE_LINE\<rparr>)
     | HCICS_TRACK_ACTION_TURN_LEFT \<Rightarrow>
         track_timed mot (now + HCICS_TRACK_TURN_LEFT_MS) HCICS_TRACK_STATE_LEFT_TURN
           HCICS_TRACK_LEFT_INNER_SPEED HCICS_TRACK_LEFT_OUTER_SPEED
     | HCICS_TRACK_ACTION_TURN_RIGHT \<Rightarrow>
         track_timed mot (now + HCICS_TRACK_TURN_RIGHT_MS) HCICS_TRACK_STATE_RIGHT_TURN
           HCICS_TRACK_RIGHT_OUTER_SPEED HCICS_TRACK_RIGHT_INNER_SPEED
     | HCICS_TRACK_ACTION_UTURN \<Rightarrow>
         track_timed mot (now + HCICS_TRACK_UTURN_MS) HCICS_TRACK_STATE_UTURN
           HCICS_TRACK_UTURN_LEFT_SPEED HCICS_TRACK_UTURN_RIGHT_SPEED
     | HCICS_TRACK_ACTION_FINISH_DELAY \<Rightarrow>
         track_timed mot (now + HCICS_TRACK_FINISH_DELAY_MS) HCICS_TRACK_STATE_PAUSED 0 0
     | HCICS_TRACK_ACTION_STOP_AT_TARGET \<Rightarrow> hcics_track_finish_path mot now }"

definition hcics_track_complete_action ::
  "'a track_scheme motor \<Rightarrow> u32 \<Rightarrow> ('a track_scheme, unit) state" where
  "hcics_track_complete_action mot now = do {
     active \<leftarrow> gets tr_action_active;
     end_ms \<leftarrow> gets tr_action_end_ms;
     action \<leftarrow> gets tr_active_action;
     if \<not> active then ret ()
     else if sint (now - end_ms) < 0 then ret ()
     else if action = HCICS_TRACK_ACTION_FINISH_DELAY then hcics_track_finish_path mot now
     else do {
       modify (\<lambda>s. s\<lparr>tr_action_active := False, tr_last_node_ms := now,
         visual_mission_state := HCICS_TRACK_STATE_LINE\<rparr>);
       hcics_track_motion_set mot (i16 (f32_trunc HCICS_TRACK_BASE_SPEED))
         (i16 (f32_trunc HCICS_TRACK_BASE_SPEED)) } }"

definition hcics_track_accept_node ::
  "'a track_scheme motor \<Rightarrow> u32 \<Rightarrow> ('a track_scheme, unit) state" where
  "hcics_track_accept_node mot now = do {
     path \<leftarrow> gets tr_path;
     index \<leftarrow> gets tr_path_index;
     len \<leftarrow> gets (\<lambda>s. path_len (tr_planned_path s));
     if \<not> path \<or> index \<ge> len then hcics_track_finish_path mot now
     else do {
       step \<leftarrow> gets (\<lambda>s. tr_planned_steps s ! unat index);
       modify (\<lambda>s. s\<lparr>current_node_index := index, tr_path_index := index + 1\<rparr>);
       hcics_track_begin_action mot step now } }"

text \<open>The filter and the controller: error, filtered error, its difference, and the turn.\<close>

definition track_filter :: "float32 \<Rightarrow> float32 \<Rightarrow> float32" where
  "track_filter error filtered =
     f32_add (f32_mul HCICS_TRACK_FILTER_ALPHA error)
       (f32_mul (f32_sub 1 HCICS_TRACK_FILTER_ALPHA) filtered)"

definition track_turn :: "float32 \<Rightarrow> float32 \<Rightarrow> float32" where
  "track_turn filtered d_error = f32_add (f32_mul Kp filtered) (f32_mul Kd d_error)"

definition hcics_track_apply_line_follow ::
  "'a track_scheme motor \<Rightarrow> u32 \<Rightarrow> ('a track_scheme, unit) state" where
  "hcics_track_apply_line_follow mot now = do {
     camera \<leftarrow> gets tr_camera;
     let recent = hcics_track_target_recent camera now;
     modify (\<lambda>s. s\<lparr>tr_base_speed := HCICS_TRACK_BASE_SPEED, tr_target_locked := recent\<rparr>);
     if \<not> recent then do {
       modify (\<lambda>s. s\<lparr>tr_turn := 0, tr_left_cmd := 0, tr_right_cmd := 0, tr_base_speed := 0\<rparr>);
       hcics_track_motion_set mot 0 0 }
     else do {
       modify (\<lambda>s. s\<lparr>tr_error := of_int (uint (cam_x camera) - HCICS_TRACK_CAMERA_CENTER_X)\<rparr>);
       modify (\<lambda>s. s\<lparr>tr_filtered_error := track_filter (tr_error s) (tr_filtered_error s)\<rparr>);
       modify (\<lambda>s. s\<lparr>tr_d_error := f32_sub (tr_filtered_error s) (tr_last_error s)\<rparr>);
       modify (\<lambda>s. s\<lparr>tr_last_error := tr_filtered_error s\<rparr>);
       s \<leftarrow> gets (\<lambda>s. s);
       let turn = track_turn (tr_filtered_error s) (tr_d_error s);
       let low = (cam_width camera < HCICS_TRACK_LOW_CONF_W);
       let base = (if low then of_int HCICS_TRACK_SEARCH_SPEED else HCICS_TRACK_BASE_SPEED);
       let turn = (if low
         then hcics_track_clampf turn (- HCICS_TRACK_LOW_CONF_TURN_LIMIT) HCICS_TRACK_LOW_CONF_TURN_LIMIT
         else hcics_track_clampf turn (- HCICS_TRACK_TURN_LIMIT) HCICS_TRACK_TURN_LIMIT);
       modify (\<lambda>s. s\<lparr>tr_turn := turn,
         tr_left_cmd := hcics_track_float_to_i16 (f32_sub base turn),
         tr_right_cmd := hcics_track_float_to_i16 (f32_add base turn)\<rparr>);
       left \<leftarrow> gets tr_left_cmd;
       right \<leftarrow> gets tr_right_cmd;
       hcics_track_motion_set mot left right } }"

section \<open>The module's interface\<close>

text \<open>\<open>ops\<close>: whether each callback of the structure is set; \<open>None\<close> is the null pointer.\<close>

definition hcics_track_init :: "(bool \<times> bool) option \<Rightarrow> ('a track_scheme, rt_err) state" where
  "hcics_track_init ops = do {
     initialized \<leftarrow> gets tr_initialized;
     if initialized then
       (case ops of
          None \<Rightarrow> ret RT_EOK
        | Some (set_motor, get_speed) \<Rightarrow>
            if \<not> set_motor then ret (- RT_EINVAL)
            else do {
              modify (\<lambda>s. s\<lparr>tr_set_motor := set_motor, tr_get_speed := get_speed\<rparr>);
              ret RT_EOK })
     else
       case ops of
         None \<Rightarrow> ret (- RT_EINVAL)
       | Some (set_motor, get_speed) \<Rightarrow>
           if \<not> set_motor then ret (- RT_EINVAL)
           else do {
             modify (\<lambda>s. s\<lparr>tr_initialized := False, tr_running := False, tr_finished := False,
               tr_target_locked := False, tr_node_latched := False, tr_action_active := False,
               tr_target_id := 0, tr_current_location := 0, tr_path_index := 0,
               tr_active_action := HCICS_TRACK_ACTION_FORWARD, tr_last_tick_ms := 0,
               tr_last_node_ms := 0, tr_action_end_ms := 0, tr_left_cmd := 0, tr_right_cmd := 0,
               tr_actual_left := 0, tr_actual_right := 0, tr_error := 0, tr_last_error := 0,
               tr_filtered_error := 0, tr_d_error := 0, tr_turn := 0, tr_base_speed := 0,
               tr_camera := \<lparr>cam_mode = 0, cam_x = 0, cam_y = 0, cam_width = 0, cam_type = 0,
                 cam_tick = 0\<rparr>,
               tr_set_motor := False, tr_get_speed := False, tr_path := False,
               tr_planned_path := track_zero_path,
               tr_planned_steps := replicate 16 track_zero_step\<rparr>);
             result \<leftarrow> hw_do (Mutex_Init ''htrk'');
             if result \<noteq> RT_EOK then ret result
             else do {
               modify (\<lambda>s. s\<lparr>tr_set_motor := set_motor, tr_get_speed := get_speed,
                 tr_initialized := True, tr_current_location := HCICS_TRACK_TARGET_HOME,
                 tr_base_speed := HCICS_TRACK_BASE_SPEED,
                 visual_mission_state := HCICS_TRACK_STATE_IDLE\<rparr>);
               ret RT_EOK } } }"

definition hcics_track_start_path :: "u8 \<Rightarrow> ('a track_scheme, rt_err) state" where
  "hcics_track_start_path target_id = do {
     ready \<leftarrow> hcics_track_motor_ready;
     if \<not> ready then ret (- RT_ENOSYS)
     else do {
       now \<leftarrow> now_ms;
       hw_out (Mutex_Take ''htrk'');
       camera \<leftarrow> gets tr_camera;
       if \<not> hcics_track_target_recent camera now then do {
         hw_out (Mutex_Release ''htrk'');
         ret (- RT_ETIMEOUT) }
       else do {
         result \<leftarrow> hcics_track_plan_path target_id;
         if result \<noteq> RT_EOK then do {
           hw_out (Mutex_Release ''htrk'');
           ret result }
         else do {
           modify (\<lambda>s. s\<lparr>tr_path := True, tr_target_id := target_id, tr_path_index := 0,
             tr_running := True, tr_finished := False, tr_action_active := False,
             tr_node_latched := False, tr_last_tick_ms := now,
             tr_last_node_ms := now - s_current_cooldown_ms s,
             tr_filtered_error := 0, tr_last_error := 0, tr_turn := 0, current_node_index := 0,
             visual_mission_state := HCICS_TRACK_STATE_LINE\<rparr>);
           hw_out (Mutex_Release ''htrk'');
           ret RT_EOK } } } }"

definition hcics_track_stop :: "'a track_scheme motor \<Rightarrow> ('a track_scheme, unit) state" where
  "hcics_track_stop mot = do {
     initialized \<leftarrow> gets tr_initialized;
     if \<not> initialized then ret ()
     else do {
       hw_out (Mutex_Take ''htrk'');
       modify (\<lambda>s. s\<lparr>tr_running := False, tr_finished := False, tr_action_active := False,
         visual_mission_state := HCICS_TRACK_STATE_IDLE\<rparr>);
       hcics_track_motion_set mot 0 0;
       hw_out (Mutex_Release ''htrk'') } }"

definition hcics_track_update_camera :: "hcics_camera_target \<Rightarrow> ('a track_scheme, unit) state" where
  "hcics_track_update_camera target =
     (if cam_mode target \<noteq> HCICS_CAM_MODE_TRACK then ret ()
      else do {
        initialized \<leftarrow> gets tr_initialized;
        if \<not> initialized then ret ()
        else do {
          hw_out (Mutex_Take ''htrk'');
          modify (\<lambda>s. s\<lparr>tr_camera := target,
            tr_target_locked := (cam_width target \<ge> HCICS_TRACK_MIN_TARGET_W)\<rparr>);
          hw_out (Mutex_Release ''htrk'') } })"

text \<open>The warning about a slow tick is only logged.\<close>

definition hcics_track_tick :: "'a track_scheme motor \<Rightarrow> u32 \<Rightarrow> ('a track_scheme, unit) state" where
  "hcics_track_tick mot now = do {
     initialized \<leftarrow> gets tr_initialized;
     if \<not> initialized then ret ()
     else do {
       hw_out (Mutex_Take ''htrk'');
       running \<leftarrow> gets tr_running;
       if \<not> running then hw_out (Mutex_Release ''htrk'')
       else do {
         modify (\<lambda>s. s\<lparr>tr_last_tick_ms := now\<rparr>);
         active \<leftarrow> gets tr_action_active;
         if active then do {
           hcics_track_complete_action mot now;
           hw_out (Mutex_Release ''htrk'') }
         else do {
           camera \<leftarrow> gets tr_camera;
           seen \<leftarrow> hcics_track_node_seen camera now;
           if seen then do {
             hcics_track_accept_node mot now;
             hw_out (Mutex_Release ''htrk'') }
           else do {
             hcics_track_apply_line_follow mot now;
             hw_out (Mutex_Release ''htrk'') } } } } }"

definition hcics_track_is_finished :: "('a track_scheme, bool) state" where
  "hcics_track_is_finished = do {
     initialized \<leftarrow> gets tr_initialized;
     if \<not> initialized then ret False
     else do {
       hw_out (Mutex_Take ''htrk'');
       finished \<leftarrow> gets tr_finished;
       hw_out (Mutex_Release ''htrk'');
       ret finished } }"

text \<open>The status, with the fields other components read.\<close>

record track_status =
  st_initialized :: bool
  st_running :: bool
  st_finished :: bool
  st_target_locked :: bool
  st_target_id :: u8
  st_current_node_index :: u8
  st_path_len :: u8
  st_visual_mission_state :: hcics_track_state
  st_current_action :: hcics_track_action
  st_cooldown_ms :: u32
  st_last_tick_ms :: u32
  st_left_cmd :: int
  st_right_cmd :: int
  st_actual_left :: int
  st_actual_right :: int
  st_error :: float32
  st_filtered_error :: float32
  st_d_error :: float32
  st_turn :: float32
  st_base_speed :: float32
  st_path_name :: string
  st_step_name :: string

definition track_status_zero :: track_status where
  "track_status_zero =
     \<lparr>st_initialized = False, st_running = False, st_finished = False, st_target_locked = False,
      st_target_id = 0, st_current_node_index = 0, st_path_len = 0,
      st_visual_mission_state = HCICS_TRACK_STATE_IDLE,
      st_current_action = HCICS_TRACK_ACTION_FORWARD, st_cooldown_ms = 0, st_last_tick_ms = 0,
      st_left_cmd = 0, st_right_cmd = 0, st_actual_left = 0, st_actual_right = 0, st_error = 0,
      st_filtered_error = 0, st_d_error = 0, st_turn = 0, st_base_speed = 0,
      st_path_name = ''not-initialized'', st_step_name = ''none''\<rparr>"

definition hcics_track_status :: "('a track_scheme, track_status) state" where
  "hcics_track_status = do {
     initialized \<leftarrow> gets tr_initialized;
     if \<not> initialized then ret track_status_zero
     else do {
       hw_out (Mutex_Take ''htrk'');
       status \<leftarrow> gets (\<lambda>s.
         \<lparr>st_initialized = tr_initialized s, st_running = tr_running s,
          st_finished = tr_finished s, st_target_locked = tr_target_locked s,
          st_target_id = tr_target_id s, st_current_node_index = current_node_index s,
          st_path_len = (if tr_path s then path_len (tr_planned_path s) else 0),
          st_visual_mission_state = visual_mission_state s,
          st_current_action = tr_active_action s, st_cooldown_ms = s_current_cooldown_ms s,
          st_last_tick_ms = tr_last_tick_ms s,
          st_left_cmd = tr_left_cmd s, st_right_cmd = tr_right_cmd s,
          st_actual_left = tr_actual_left s, st_actual_right = tr_actual_right s,
          st_error = tr_error s, st_filtered_error = tr_filtered_error s,
          st_d_error = tr_d_error s, st_turn = tr_turn s, st_base_speed = tr_base_speed s,
          st_path_name = (if tr_path s then path_name (tr_planned_path s) else ''none''),
          st_step_name =
            (if tr_path s \<and> tr_path_index s < path_len (tr_planned_path s)
             then step_name (tr_planned_steps s ! unat (tr_path_index s)) else ''none'')\<rparr>);
       hw_out (Mutex_Release ''htrk'');
       ret status } }"

section \<open>What a plan holds\<close>

text \<open>\<open>plan_ok st p acts\<close>: the planned path holds exactly the actions \<open>acts\<close>.\<close>

definition plan_ok :: "hcics_track_step list \<Rightarrow> hcics_track_path \<Rightarrow> hcics_track_action list \<Rightarrow> bool" where
  "plan_ok st p acts \<longleftrightarrow> length st = 16 \<and> length acts \<le> 16 \<and> unat (path_len p) = length acts \<and>
     map step_action (take (length acts) st) = acts"

definition planned :: "'a track_scheme \<Rightarrow> hcics_track_action list" where
  "planned s = map step_action (take (unat (path_len (tr_planned_path s))) (tr_planned_steps s))"

lemma plan_ok_planned: "plan_ok (tr_planned_steps s) (tr_planned_path s) acts \<Longrightarrow> planned s = acts"
  by (simp add: plan_ok_def planned_def)

lemma vc_add_step:
  assumes "plan_ok (tr_planned_steps s) (tr_planned_path s) acts" "length acts < 16"
    and "\<And>st p. \<lbrakk>plan_ok st p (acts @ [a]);
      path_destination p = path_destination (tr_planned_path s)\<rbrakk> \<Longrightarrow>
      Q RT_EOK (s\<lparr>tr_planned_steps := st, tr_planned_path := p\<rparr>)"
  shows "wp (hcics_track_add_step a name) Q s"
proof -
  let ?len = "path_len (tr_planned_path s)"
  have u: "unat ?len = length acts"
    using assms(1) by (simp add: plan_ok_def)
  have "\<not> HCICS_TRACK_MAX_PATH_STEPS \<le> ?len"
    using assms(2) u by (simp add: word_le_nat_alt track_grid_defs)
  moreover have "unat (?len + 1) = Suc (length acts)"
    using assms(2) u by (simp add: unat_word_ariths)
  then have "plan_ok ((tr_planned_steps s)[unat ?len := \<lparr>step_action = a, step_name = name\<rparr>])
      ((tr_planned_path s)\<lparr>path_len := ?len + 1\<rparr>) (acts @ [a])"
    using assms(1,2) u by (simp add: plan_ok_def take_Suc_conv_app_nth map_update)
  ultimately show ?thesis
    unfolding hcics_track_add_step_def using assms(3) by (simp add: wp)
qed

lemma vc_add_steps:
  assumes "plan_ok (tr_planned_steps s) (tr_planned_path s) acts" "length acts + n \<le> 16"
    and "\<And>st p. \<lbrakk>plan_ok st p (acts @ replicate n a);
      path_destination p = path_destination (tr_planned_path s)\<rbrakk> \<Longrightarrow>
      Q RT_EOK (s\<lparr>tr_planned_steps := st, tr_planned_path := p\<rparr>)"
  shows "wp (track_add_steps n a name) Q s"
  using assms
proof (induction n arbitrary: s acts)
  case 0
  then show ?case
    using "0.prems"(3) [of "tr_planned_steps s" "tr_planned_path s"] by (simp add: wp)
next
  case (Suc n)
  show ?case
    unfolding track_add_steps.simps wp_bind
  proof (rule vc_add_step [OF Suc.prems(1)])
    show "length acts < 16" using Suc.prems(2) by simp
    fix st p
    assume "plan_ok st p (acts @ [a])" "path_destination p = path_destination (tr_planned_path s)"
    then show "wp (if RT_EOK \<noteq> RT_EOK then ret (- RT_EFULL) else track_add_steps n a name) Q
        (s\<lparr>tr_planned_steps := st, tr_planned_path := p\<rparr>)"
      using Suc.prems(2,3) by (simp, intro Suc.IH [of _ "acts @ [a]"]) auto
  qed
qed

section \<open>The grid\<close>

definition to_target :: "nat \<Rightarrow> nat \<Rightarrow> hcics_track_action list" where
  "to_target row col = replicate row HCICS_TRACK_ACTION_FORWARD @ [HCICS_TRACK_ACTION_TURN_RIGHT] @
     replicate (col - 1) HCICS_TRACK_ACTION_FORWARD @ [HCICS_TRACK_ACTION_STOP_AT_TARGET]"

definition to_home :: "nat \<Rightarrow> nat \<Rightarrow> hcics_track_action list" where
  "to_home row col = [HCICS_TRACK_ACTION_UTURN] @ replicate (col - 1) HCICS_TRACK_ACTION_FORWARD @
     [HCICS_TRACK_ACTION_TURN_LEFT] @ replicate row HCICS_TRACK_ACTION_FORWARD @
     [HCICS_TRACK_ACTION_FINISH_DELAY]"

lemma grid_of_target:
  assumes "1 \<le> n" "n \<le> 9"
  shows "\<exists>row col. hcics_track_target_to_grid n = Some (row, col) \<and>
    unat row = (unat n - 1) div 3 + 1 \<and> unat col = (unat n - 1) mod 3 + 1 \<and>
    1 \<le> unat row \<and> unat row \<le> 3 \<and> 1 \<le> unat col \<and> unat col \<le> 3"
proof -
  have n: "1 \<le> unat n" "unat n \<le> 9"
    using assms by (simp_all add: word_le_nat_alt)
  then have m: "unat (n - 1) = unat n - 1"
    by (simp add: unat_sub word_le_nat_alt)
  have "(unat n - 1) div 3 \<le> 2" "(unat n - 1) mod 3 \<le> 2"
    using n by linarith+
  moreover have "n \<noteq> 0"
    using n(1) by auto
  ultimately show ?thesis
    using assms n m
    by (simp add: hcics_track_target_to_grid_def track_grid_defs not_less unat_word_ariths unat_div unat_mod)
qed


lemma vc_build_to_target:
  assumes "1 \<le> n" "n \<le> 9" "plan_ok (tr_planned_steps s) (tr_planned_path s) []"
    and "\<And>st p row col. \<lbrakk>hcics_track_target_to_grid n = Some (row, col);
      plan_ok st p (to_target (unat row) (unat col)); path_destination p = n\<rbrakk> \<Longrightarrow>
      Q RT_EOK (s\<lparr>tr_planned_steps := st, tr_planned_path := p\<rparr>)"
  shows "wp (hcics_track_build_to_target n) Q s"
proof -
  obtain row col where g: "hcics_track_target_to_grid n = Some (row, col)"
    "1 \<le> unat row" "unat row \<le> 3" "1 \<le> unat col" "unat col \<le> 3"
    using grid_of_target [OF assms(1,2)] by blast
  have len: "length (to_target (unat row) (unat col)) \<le> 8"
    using g by (simp add: to_target_def)
  show ?thesis
    unfolding hcics_track_build_to_target_def g(1) option.case prod.case
    apply (intro vc)
    apply (rule vc_add_steps [where acts = "[]"])
    subgoal using assms(3) by (simp add: plan_ok_def)
    subgoal using g by simp
    apply (simp, intro vc)
    apply (rule vc_add_step, simp, use g in simp, simp, intro vc)
    apply (rule vc_add_steps, simp, use g in simp, simp)
    apply (rule vc_add_step, simp, use g in simp, simp)
    using assms(4) [OF g(1)]
    apply (simp add: to_target_def)
    done
qed


lemma vc_build_return_home:
  assumes "plan_ok (tr_planned_steps s) (tr_planned_path s) []"
    and "tr_current_location s \<le> 9"
    and "\<And>st p. \<lbrakk>tr_current_location s = 0; plan_ok st p [HCICS_TRACK_ACTION_FINISH_DELAY];
      path_destination p = 0\<rbrakk> \<Longrightarrow>
      Q RT_EOK (s\<lparr>tr_planned_steps := st, tr_planned_path := p\<rparr>)"
    and "\<And>st p row col. \<lbrakk>hcics_track_target_to_grid (tr_current_location s) = Some (row, col);
      plan_ok st p (to_home (unat row) (unat col)); path_destination p = 0\<rbrakk> \<Longrightarrow>
      Q RT_EOK (s\<lparr>tr_planned_steps := st, tr_planned_path := p\<rparr>)"
  shows "wp hcics_track_build_return_home Q s"
proof (cases "tr_current_location s = 0")
  case True
  then show ?thesis
    unfolding hcics_track_build_return_home_def
    apply (intro vc, simp_all add: track_grid_defs)
    apply (rule vc_add_step [where acts = "[]"])
    using assms(1,3) by (simp_all add: plan_ok_def)
next
  case False
  then have n: "1 \<le> tr_current_location s"
    by (simp add: word_le_nat_alt Suc_le_eq unat_gt_0)
  obtain row col where g: "hcics_track_target_to_grid (tr_current_location s) = Some (row, col)"
    "1 \<le> unat row" "unat row \<le> 3" "1 \<le> unat col" "unat col \<le> 3"
    using grid_of_target [OF n assms(2)] by blast
  have len: "length (to_home (unat row) (unat col)) \<le> 8"
    using g by (simp add: to_home_def)
  have "wp (do {
      modify (\<lambda>s. s\<lparr>tr_planned_path := (tr_planned_path s)\<lparr>
        path_id := HCICS_TRACK_PATH_RETURN_HOME, path_destination := HCICS_TRACK_TARGET_HOME,
        path_name := ''auto-return-home''\<rparr>\<rparr>);
      result \<leftarrow> hcics_track_add_step HCICS_TRACK_ACTION_UTURN ''turn around after cleaning'';
      if result \<noteq> RT_EOK then ret (- RT_EFULL)
      else do {
        result \<leftarrow> track_add_steps (unat col - 1) HCICS_TRACK_ACTION_FORWARD ''row lane return'';
        if result \<noteq> RT_EOK then ret (- RT_EFULL)
        else do {
          result \<leftarrow> hcics_track_add_step HCICS_TRACK_ACTION_TURN_LEFT ''exit row to main lane'';
          if result \<noteq> RT_EOK then ret (- RT_EFULL)
          else do {
            result \<leftarrow> track_add_steps (unat row) HCICS_TRACK_ACTION_FORWARD ''main lane return'';
            if result \<noteq> RT_EOK then ret (- RT_EFULL)
            else hcics_track_add_step HCICS_TRACK_ACTION_FINISH_DELAY ''dock home'' } } } }) Q s"
    apply (intro vc)
    apply (rule vc_add_step [where acts = "[]"])
    subgoal using assms(1) by (simp add: plan_ok_def)
    subgoal by simp
    apply (simp, intro vc)
    apply (rule vc_add_steps, simp, use g in simp, simp, intro vc)
    apply (rule vc_add_step, simp, use g in simp, simp, intro vc)
    apply (rule vc_add_steps, simp, use g in simp, simp)
    apply (rule vc_add_step, simp, use g in simp, simp)
    using assms(4) [OF g(1)]
    apply (simp add: to_home_def track_grid_defs)
    done
  then show ?thesis
    unfolding hcics_track_build_return_home_def
    using False g(1) by (simp add: wp_bind wp_gets track_grid_defs)
qed

lemma plan_ok_zero: "plan_ok (replicate 16 track_zero_step) track_zero_path []"
  by (simp add: plan_ok_def track_zero_path_def)

text \<open>
  \<open>plan_of location target\<close>: the plan the planner makes, and its destination.
\<close>

definition plan_of :: "u8 \<Rightarrow> u8 \<Rightarrow> hcics_track_action list" where
  "plan_of location target =
     (if target = 0 then
        (case hcics_track_target_to_grid location of
           None \<Rightarrow> [HCICS_TRACK_ACTION_FINISH_DELAY]
         | Some (row, col) \<Rightarrow> to_home (unat row) (unat col))
      else
        (case hcics_track_target_to_grid target of
           None \<Rightarrow> []
         | Some (row, col) \<Rightarrow> to_target (unat row) (unat col)))"

lemma vc_plan_path:
  assumes "target \<le> 9" "tr_current_location s \<le> 9"
    and "\<And>st p. \<lbrakk>plan_ok st p (plan_of (tr_current_location s) target); path_destination p = target\<rbrakk> \<Longrightarrow>
      Q RT_EOK (s\<lparr>tr_planned_steps := st, tr_planned_path := p\<rparr>)"
  shows "wp (hcics_track_plan_path target) Q s"
proof (cases "target = 0")
  case True
  then show ?thesis
    unfolding hcics_track_plan_path_def using assms
    by (intro vc vc_build_return_home)
      (simp_all add: plan_ok_zero track_grid_defs plan_of_def hcics_track_target_to_grid_def)
next
  case False
  then have "1 \<le> target"
    by (simp add: word_le_nat_alt Suc_le_eq unat_gt_0)
  then show ?thesis
    unfolding hcics_track_plan_path_def using assms False
    by (intro vc vc_build_to_target) (simp_all add: plan_ok_zero track_grid_defs plan_of_def)
qed

text \<open>
  The grid as the vehicle sees it: panel rows 1 to 3 and columns 1 to 3, the dock in row 0 of
  column 1, facing north along the main lane. Forward leads to the next node; turns and stops are
  made in place.
\<close>

datatype heading = North | East | South | West

type_synonym pose = "int \<times> int \<times> heading"

fun right_of :: "heading \<Rightarrow> heading" where
  "right_of North = East" | "right_of East = South" | "right_of South = West" | "right_of West = North"

fun ahead :: "pose \<Rightarrow> pose" where
  "ahead (r, c, North) = (r + 1, c, North)"
| "ahead (r, c, East) = (r, c + 1, East)"
| "ahead (r, c, South) = (r - 1, c, South)"
| "ahead (r, c, West) = (r, c - 1, West)"

fun move :: "pose \<Rightarrow> hcics_track_action \<Rightarrow> pose" where
  "move p HCICS_TRACK_ACTION_FORWARD = ahead p"
| "move (r, c, h) HCICS_TRACK_ACTION_TURN_RIGHT = (r, c, right_of h)"
| "move (r, c, h) HCICS_TRACK_ACTION_TURN_LEFT = (r, c, right_of (right_of (right_of h)))"
| "move (r, c, h) HCICS_TRACK_ACTION_UTURN = (r, c, right_of (right_of h))"
| "move p HCICS_TRACK_ACTION_FINISH_DELAY = p"
| "move p HCICS_TRACK_ACTION_STOP_AT_TARGET = p"

definition walk :: "pose \<Rightarrow> hcics_track_action list \<Rightarrow> pose" where
  "walk = foldl move"

definition dock :: pose where
  "dock = (0, 1, North)"

lemma walk_simps [simp]:
  "walk p [] = p" "walk p (a # as) = walk (move p a) as" "walk p (as @ bs) = walk (walk p as) bs"
  by (simp_all add: walk_def)

lemma walk_forward [simp]:
  "walk (r, c, North) (replicate n HCICS_TRACK_ACTION_FORWARD) = (r + int n, c, North)"
  "walk (r, c, East) (replicate n HCICS_TRACK_ACTION_FORWARD) = (r, c + int n, East)"
  "walk (r, c, South) (replicate n HCICS_TRACK_ACTION_FORWARD) = (r - int n, c, South)"
  "walk (r, c, West) (replicate n HCICS_TRACK_ACTION_FORWARD) = (r, c - int n, West)"
  by (induction n arbitrary: r c) simp_all

lemma walk_to_target:
  "1 \<le> col \<Longrightarrow> walk dock (to_target row col) = (int row, int col, East)"
  by (simp add: to_target_def dock_def)

lemma walk_to_home:
  "1 \<le> col \<Longrightarrow> walk (int row, int col, East) (to_home row col) = (0, 1, South)"
  by (simp add: to_home_def)

lemma target_cases:
  assumes "1 \<le> n" "n \<le> (9::u8)"
  shows "n \<in> {1, 2, 3, 4, 5, 6, 7, 8, 9}"
proof -
  have "1 \<le> unat n" "unat n \<le> 9"
    using assms by (simp_all add: word_le_nat_alt)
  then have "unat n = 1 \<or> unat n = 2 \<or> unat n = 3 \<or> unat n = 4 \<or> unat n = 5 \<or> unat n = 6 \<or>
      unat n = 7 \<or> unat n = 8 \<or> unat n = 9"
    by presburger
  then show ?thesis
    by (simp add: word_unat_eq_iff)
qed

lemma fault_grid_agrees:
  assumes "hcics_track_target_to_grid n = Some (row, col)" "1 \<le> n" "n \<le> 9"
  shows "hcics_fault_id_to_grid (uint n) = Some (int (unat row), int (unat col))"
  using target_cases [OF assms(2,3)] assms(1)
  by (elim insertE emptyE) (auto simp: hcics_fault_id_to_grid_def hcics_track_target_to_grid_def
      track_grid_defs HCICS_FAULT_TARGET_MIN_def HCICS_FAULT_TARGET_MAX_def
        HCICS_FAULT_GRID_COLS_def)

section \<open>The scheduler refines a list of steps\<close>

text \<open>What the scheduler works on. The contract of a motor callback is to leave it alone.\<close>

definition track_view where
  "track_view s = (tr_initialized s, tr_running s, tr_finished s, tr_action_active s,
     tr_active_action s, tr_action_end_ms s, tr_path s, tr_path_index s, tr_planned_path s,
     tr_planned_steps s, tr_last_node_ms s, tr_current_location s, tr_set_motor s,
     s_current_cooldown_ms s, tr_camera s)"

locale track_motor =
  fixes mot :: "'a track_scheme motor"
  assumes keeps_view: "track_view (snd (run_state (mot l r) s)) = track_view s"

text \<open>The abstract scheduler: a phase and the steps still to be made.\<close>

datatype track_phase = Ph_Idle | Ph_Line | Ph_Acting hcics_track_action u32 | Ph_Done

fun action_duration :: "hcics_track_action \<Rightarrow> u32" where
  "action_duration HCICS_TRACK_ACTION_TURN_LEFT = 900"
| "action_duration HCICS_TRACK_ACTION_TURN_RIGHT = 750"
| "action_duration HCICS_TRACK_ACTION_UTURN = 1200"
| "action_duration HCICS_TRACK_ACTION_FINISH_DELAY = 400"
| "action_duration _ = 0"

fun sched_begin :: "u32 \<Rightarrow> hcics_track_action \<Rightarrow> track_phase" where
  "sched_begin now HCICS_TRACK_ACTION_FORWARD = Ph_Line"
| "sched_begin now HCICS_TRACK_ACTION_STOP_AT_TARGET = Ph_Done"
| "sched_begin now a = Ph_Acting a (now + action_duration a)"

fun sched_step ::
  "bool \<Rightarrow> u32 \<Rightarrow> track_phase \<times> hcics_track_action list \<Rightarrow> track_phase \<times> hcics_track_action list"
where
  "sched_step seen now (Ph_Line, []) = (if seen then Ph_Done else Ph_Line, [])"
| "sched_step seen now (Ph_Line, a # as) =
     (if seen then (sched_begin now a, as) else (Ph_Line, a # as))"
| "sched_step seen now (Ph_Acting a end_ms, as) =
     (if sint (now - end_ms) < 0 then Ph_Acting a end_ms
      else if a = HCICS_TRACK_ACTION_FINISH_DELAY then Ph_Done else Ph_Line, as)"
| "sched_step seen now (ph, as) = (ph, as)"

text \<open>The abstraction of a concrete state.\<close>

definition track_phase_of :: "'a track_scheme \<Rightarrow> track_phase" where
  "track_phase_of s =
     (if tr_running s then
        (if tr_action_active s then Ph_Acting (tr_active_action s) (tr_action_end_ms s) else Ph_Line)
      else if tr_finished s then Ph_Done else Ph_Idle)"

definition track_rest :: "'a track_scheme \<Rightarrow> hcics_track_action list" where
  "track_rest s = drop (unat (tr_path_index s)) (planned s)"

definition track_abs :: "'a track_scheme \<Rightarrow> track_phase \<times> hcics_track_action list" where
  "track_abs s = (track_phase_of s, track_rest s)"

definition track_wf :: "'a track_scheme \<Rightarrow> bool" where
  "track_wf s \<longleftrightarrow> tr_initialized s \<and>
     (tr_running s \<longrightarrow> tr_path s \<and>
        plan_ok (tr_planned_steps s) (tr_planned_path s) (planned s) \<and>
        tr_path_index s \<le> path_len (tr_planned_path s))"

definition track_seen :: "u32 \<Rightarrow> 'a track_scheme \<Rightarrow> bool" where
  "track_seen now s = fst (run_state (hcics_track_node_seen (tr_camera s) now) s)"

lemma run_node_seen:
  "run_state (hcics_track_node_seen (tr_camera s) now) s = (track_seen now s, s)"
  by (auto simp: track_seen_def hcics_track_node_seen_def Let_def)

lemma track_view_facts:
  assumes "track_view t = track_view s"
  shows "track_wf t = track_wf s" "track_abs t = track_abs s" "planned t = planned s"
  using assms
  by (simp_all add: track_view_def track_wf_def track_abs_def track_phase_of_def track_rest_def planned_def)

lemma track_view_trace [simp]:
  "track_view (s\<lparr>trace := tr\<rparr>) = track_view s"
  "track_wf (s\<lparr>trace := tr\<rparr>) = track_wf s" "track_abs (s\<lparr>trace := tr\<rparr>) = track_abs s"
  "track_seen now (s\<lparr>trace := tr\<rparr>) = track_seen now s"
  by (simp_all add: track_view_def track_wf_def track_abs_def track_phase_of_def track_rest_def
      planned_def track_seen_def hcics_track_node_seen_def Let_def)

lemma next_step:
  assumes "track_wf s" "tr_running s" "tr_path_index s < path_len (tr_planned_path s)"
  shows "track_rest s = step_action (tr_planned_steps s ! unat (tr_path_index s)) #
      drop (unat (tr_path_index s + 1)) (planned s)"
    and "tr_path_index s + 1 \<le> path_len (tr_planned_path s)"
proof -
  let ?i = "unat (tr_path_index s)" and ?n = "unat (path_len (tr_planned_path s))"
  have n: "?n = length (planned s)" "?n \<le> 16" "length (tr_planned_steps s) = 16"
    using assms(1,2) by (simp_all add: track_wf_def plan_ok_def)
  have i: "?i < ?n"
    using assms(3) by (simp add: word_less_nat_alt)
  then have u: "unat (tr_path_index s + 1) = Suc ?i"
    using n by (simp add: unat_word_ariths)
  have p: "planned s ! ?i = step_action (tr_planned_steps s ! ?i)"
    using i n(2,3) by (simp add: planned_def)
  have "drop ?i (planned s) = planned s ! ?i # drop (Suc ?i) (planned s)"
    using i n(1) by (intro Cons_nth_drop_Suc [symmetric]) simp
  then show "track_rest s = step_action (tr_planned_steps s ! ?i) # drop (unat (tr_path_index s + 1)) (planned s)"
    by (simp only: track_rest_def u p)
  show "tr_path_index s + 1 \<le> path_len (tr_planned_path s)"
    using i u by (simp add: word_le_nat_alt)
qed

lemma no_step_left:
  assumes "track_wf s" "tr_running s" "\<not> tr_path_index s < path_len (tr_planned_path s)"
  shows "track_rest s = []"
  using assms by (simp add: track_rest_def track_wf_def plan_ok_def word_less_nat_alt)

lemmas track_abs_defs = track_wf_def track_abs_def track_phase_of_def track_rest_def planned_def

context track_motor begin

lemma vc_motion_set:
  assumes "\<And>t. track_view t = track_view s \<Longrightarrow> Q () t"
  shows "wp (hcics_track_motion_set mot l r) Q s"
proof -
  have v: "track_view (s\<lparr>tr_left_cmd := l, tr_right_cmd := r\<rparr>) = track_view s"
    by (simp add: track_view_def)
  show ?thesis
    unfolding hcics_track_motion_set_def
    by (intro vc) (simp_all add: assms v wp_run keeps_view)
qed

text \<open>The result of every branch: the state is well formed and its abstraction is known.\<close>

lemma motion_set_abs:
  assumes "track_wf s" "track_abs s = A"
  shows "wp (hcics_track_motion_set mot l r) (\<lambda>_ t. track_wf t \<and> track_abs t = A) s"
proof (rule vc_motion_set)
  fix t assume "track_view t = track_view s"
  from track_view_facts(1,2) [OF this] assms show "track_wf t \<and> track_abs t = A" by simp
qed

lemma finish_abs:
  assumes "tr_initialized s" "A = (Ph_Done, track_rest s)"
  shows "wp (hcics_track_finish_path mot now) (\<lambda>_ t. track_wf t \<and> track_abs t = A) s"
  unfolding hcics_track_finish_path_def
  by (intro vc motion_set_abs) (use assms in \<open>simp_all add: track_abs_defs\<close>)

lemma timed_abs:
  assumes "track_wf s" "tr_running s" "A = (Ph_Acting (tr_active_action s) e, track_rest s)"
  shows "wp (track_timed mot e st x y) (\<lambda>_ t. track_wf t \<and> track_abs t = A) s"
  unfolding track_timed_def
  by (intro vc motion_set_abs) (use assms in \<open>simp_all add: track_abs_defs\<close>)

lemma begin_abs:
  assumes "track_wf s" "tr_running s" "track_rest s = r"
  shows "wp (hcics_track_begin_action mot step now)
    (\<lambda>_ t. track_wf t \<and> track_abs t = (sched_begin now (step_action step), r)) s"
proof -
  let ?s = "s\<lparr>tr_active_action := step_action step, tr_action_active := False\<rparr>"
  have s': "track_wf ?s" "tr_running ?s" "track_rest ?s = r" "tr_initialized ?s"
    using assms by (simp_all add: track_abs_defs)
  show ?thesis
    unfolding hcics_track_begin_action_def
    by (intro vc, cases "step_action step"; simp; (rule timed_abs finish_abs vc)?)
      (use s' in \<open>simp_all add: track_time_defs track_abs_defs\<close>)
qed

lemma accept_abs:
  assumes "track_wf s" "tr_running s" "\<not> tr_action_active s"
  shows "wp (hcics_track_accept_node mot now)
    (\<lambda>_ t. track_wf t \<and> track_abs t = sched_step True now (track_abs s)) s"
proof -
  have path: "tr_path s" "tr_initialized s" "track_phase_of s = Ph_Line"
    using assms by (simp_all add: track_wf_def track_phase_of_def)
  show ?thesis
  proof (cases "tr_path_index s < path_len (tr_planned_path s)")
    case True
    let ?s = "s\<lparr>current_node_index := tr_path_index s, tr_path_index := tr_path_index s + 1\<rparr>"
    note n = next_step [OF assms(1,2) True]
    have "track_wf ?s" "tr_running ?s"
      "track_rest ?s = drop (unat (tr_path_index s + 1)) (planned s)"
      using assms(1,2) n(2) by (simp_all add: track_abs_defs)
    from begin_abs [OF this, where step = "tr_planned_steps s ! unat (tr_path_index s)" and now = now]
    show ?thesis
      using True path n(1)
      by (simp add: hcics_track_accept_node_def wp_bind wp_gets wp_modify track_abs_def
          not_le [THEN iffD2, OF True])
  next
    case False
    then show ?thesis
      using path no_step_left [OF assms(1,2) False] finish_abs [of s "(Ph_Done, [])" now]
      by (simp add: hcics_track_accept_node_def wp_bind wp_gets track_abs_def not_less)
  qed
qed

lemma complete_abs:
  assumes "track_wf s" "tr_running s" "tr_action_active s"
  shows "wp (hcics_track_complete_action mot now)
    (\<lambda>_ t. track_wf t \<and> track_abs t = sched_step seen now (track_abs s)) s"
proof -
  have p: "track_phase_of s = Ph_Acting (tr_active_action s) (tr_action_end_ms s)" "tr_initialized s"
    using assms by (simp_all add: track_wf_def track_phase_of_def)
  show ?thesis
    unfolding hcics_track_complete_action_def
    by (intro vc finish_abs motion_set_abs)
      (use assms p in \<open>simp_all add: track_abs_def\<close>,
        use assms in \<open>simp_all add: track_abs_defs\<close>)
qed

lemma line_abs:
  assumes "track_wf s" "tr_running s" "\<not> tr_action_active s"
  shows "wp (hcics_track_apply_line_follow mot now)
    (\<lambda>_ t. track_wf t \<and> track_abs t = sched_step False now (track_abs s)) s"
proof -
  have "sched_step False now (track_abs s) = track_abs s"
    using assms by (cases "track_rest s") (simp_all add: track_abs_def track_phase_of_def)
  then show ?thesis
    unfolding hcics_track_apply_line_follow_def
    by (intro vc motion_set_abs) (use assms in \<open>simp_all add: track_abs_defs\<close>)
qed

lemma vc_out_last:
  "wp m (\<lambda>_ t. track_wf t \<and> track_abs t = A) s \<Longrightarrow>
   wp (m \<bind> (\<lambda>_. hw_out c)) (\<lambda>_ t. track_wf t \<and> track_abs t = A) s"
  unfolding wp_bind by (erule wp_conseq) (simp add: wp_hw_out)

lemma tick_abs:
  assumes "track_wf s"
  shows "wp (hcics_track_tick mot now)
    (\<lambda>_ t. track_wf t \<and> track_abs t = sched_step (track_seen now s) now (track_abs s)) s"
proof -
  let ?s = "s\<lparr>trace := Mutex_Take ''htrk'' # trace s, tr_last_tick_ms := now\<rparr>"
  have same: "track_wf ?s" "track_abs ?s = track_abs s" "track_seen now ?s = track_seen now s"
    using assms by (simp_all add: track_abs_defs track_seen_def hcics_track_node_seen_def Let_def)
  have node: "run_state (hcics_track_node_seen (tr_camera s) now) ?s = (track_seen now s, ?s)"
    using run_node_seen [of ?s now] same(3) by simp
  have idle: "sched_step (track_seen now s) now (track_abs s) = track_abs s" if "\<not> tr_running s"
    using that by (cases "track_rest s") (simp_all add: track_abs_def track_phase_of_def)
  show ?thesis
  proof (cases "tr_running s")
    case False
    then show ?thesis
      using assms idle by (simp add: hcics_track_tick_def wp track_wf_def [of s])
  next
    case True
    show ?thesis
    proof (cases "tr_action_active s")
      case act: True
      then show ?thesis
        using True assms same vc_out_last [OF complete_abs [of ?s now "track_seen now s"]]
        by (simp add: hcics_track_tick_def wp_bind wp_gets wp_hw_out wp_modify track_wf_def [of s])
    next
      case act: False
      have *: "wp (hcics_track_accept_node mot now \<bind> (\<lambda>_. hw_out c))
          (\<lambda>_ t. track_wf t \<and> track_abs t = sched_step True now (track_abs s)) ?s"
        "wp (hcics_track_apply_line_follow mot now \<bind> (\<lambda>_. hw_out c))
          (\<lambda>_ t. track_wf t \<and> track_abs t = sched_step False now (track_abs s)) ?s" for c
        using True act same
        by (intro vc_out_last; simp add: accept_abs [of ?s now, unfolded same(2)] line_abs [of ?s now, unfolded same(2)])+
      then show ?thesis
        using True act assms
        by (auto simp: hcics_track_tick_def wp_bind [where m = "gets _"] wp_bind [where m = "hw_out _"]
            wp_bind [where m = "modify _"] wp_gets wp_hw_out wp_modify track_wf_def [of s] wp_def node)
    qed
  qed
qed

end

section \<open>Speeds\<close>

lemma clampf_bounds: "0 \<le> b \<Longrightarrow> \<bar>hcics_track_clampf x (- b) b\<bar> \<le> b"
  by (simp add: hcics_track_clampf_def abs_le_iff)

lemma float_to_i16_bounded: "\<bar>x\<bar> \<le> of_int n \<Longrightarrow> n \<le> 32767 \<Longrightarrow> \<bar>hcics_track_float_to_i16 x\<bar> \<le> n"
proof -
  assume x: "\<bar>x\<bar> \<le> of_int n" and n: "n \<le> 32767"
  have t: "\<bar>f32_trunc x\<bar> \<le> n"
    by (rule f32_trunc_bounded [OF x])
  then have "is_i16 (f32_trunc x)"
    using n by (simp add: is_i16_def abs_le_iff)
  moreover have "\<bar>x\<bar> \<le> 32767"
    using n by (intro order_trans [OF x]) simp
  then have "\<not> x > 32767" "\<not> x < - 32768"
    by linarith+
  ultimately show ?thesis
    using t by (simp add: hcics_track_float_to_i16_def i16_id)
qed

text \<open>A speed and a turn of bounded size give bounded wheel commands.\<close>

lemma wheel_cmd_bounded:
  assumes "\<bar>base\<bar> + \<bar>turn\<bar> \<le> of_int n" "n \<le> 32767"
  shows "\<bar>hcics_track_float_to_i16 (f32_sub base turn)\<bar> \<le> n"
    "\<bar>hcics_track_float_to_i16 (f32_add base turn)\<bar> \<le> n"
proof -
  have "\<bar>base - turn\<bar> \<le> of_int n" "\<bar>base + turn\<bar> \<le> of_int n"
    using assms(1) by linarith+
  then have "\<bar>f32_sub base turn\<bar> \<le> of_int n" "\<bar>f32_add base turn\<bar> \<le> of_int n"
    unfolding f32_sub_def f32_add_def using assms(2) by (intro f32.bounded; simp)+
  then show "\<bar>hcics_track_float_to_i16 (f32_sub base turn)\<bar> \<le> n"
    "\<bar>hcics_track_float_to_i16 (f32_add base turn)\<bar> \<le> n"
    using assms(2) by (simp_all add: float_to_i16_bounded)
qed

text \<open>The commands of the line follower stay within 124, with a doubtful line within 37.\<close>

lemma line_commands_sharp:
  assumes "turn = (if low then hcics_track_clampf x (- 10) 10 else hcics_track_clampf x (- 70) 70)"
    and "base = (if low then 27 else 54)"
  shows "\<bar>hcics_track_float_to_i16 (f32_sub base turn)\<bar> \<le> (if low then 37 else 124)"
    "\<bar>hcics_track_float_to_i16 (f32_add base turn)\<bar> \<le> (if low then 37 else 124)"
  using clampf_bounds [of 10 x] clampf_bounds [of 70 x] assms
  by (auto intro!: wheel_cmd_bounded)

lemma line_commands:
  "\<bar>hcics_track_float_to_i16 (f32_sub (if low then 27 else 54)
     (if low then hcics_track_clampf x (- 10) 10 else hcics_track_clampf x (- 70) 70))\<bar> \<le> 150"
  "\<bar>hcics_track_float_to_i16 (f32_add (if low then 27 else 54)
     (if low then hcics_track_clampf x (- 10) 10 else hcics_track_clampf x (- 70) 70))\<bar> \<le> 150"
  using line_commands_sharp [OF refl refl, of low x] by (auto split: if_splits)

lemmas line_commands_split = line_commands [of True, simplified] line_commands [of False, simplified]

definition record_motor :: "'a track_scheme motor" where
  "record_motor l r = hw_out (Motor_Output l r)"

interpretation recorded: track_motor record_motor
  by unfold_locales (simp add: record_motor_def)

text \<open>
  What a motor callback must guarantee for the commands of the tracker: an invariant that depends on
  nothing of the state of the tracker but its plan, and on being at its destination once finished,
  survives every command up to \<open>m\<close>. The tracker is then careful: following a path, it keeps the
  invariant, as its commands are within \<open>m\<close>.
\<close>

definition track_plan :: "'a track_scheme \<Rightarrow> hcics_track_path \<times> hcics_track_step list" where
  "track_plan s = (tr_planned_path s, tr_planned_steps s)"

definition on_plan :: "'a track_scheme \<Rightarrow> bool" where
  "on_plan s \<longleftrightarrow> tr_path s \<and> (tr_finished s \<longrightarrow> tr_current_location s = path_destination (tr_planned_path s))"

definition at_goal :: "'a track_scheme \<Rightarrow> bool" where
  "at_goal s \<longleftrightarrow> tr_path s \<and> tr_current_location s = path_destination (tr_planned_path s)"

definition plan_kept :: "'a track_scheme \<Rightarrow> 'a track_scheme \<Rightarrow> bool" where
  "plan_kept s t \<longleftrightarrow> track_plan t = track_plan s \<and> (on_plan s \<longrightarrow> on_plan t) \<and> (at_goal s \<longrightarrow> at_goal t)"

lemmas plan_defs = track_plan_def on_plan_def at_goal_def plan_kept_def

locale motor_guard =
  fixes mot :: "'a track_scheme motor" and inv :: "'a track_scheme \<Rightarrow> bool" and m :: int
  assumes mot_ok: "\<bar>l\<bar> \<le> m \<Longrightarrow> \<bar>r\<bar> \<le> m \<Longrightarrow> preserves inv (mot l r)"
    and own: "inv s \<Longrightarrow> motion.truncate t = motion.truncate s \<Longrightarrow> track.more t = track.more s \<Longrightarrow>
      plan_kept s t \<Longrightarrow> inv t"
    and lock: "inv s \<Longrightarrow> inv (s\<lparr>trace := Mutex_Take ''htrk'' # trace s\<rparr>)"
      "inv s \<Longrightarrow> inv (s\<lparr>trace := Mutex_Release ''htrk'' # trace s\<rparr>)"
    and limit: "150 \<le> m"
begin

lemma pres_own:
  "(\<And>s. motion.truncate (f s) = motion.truncate s) \<Longrightarrow> (\<And>s. track.more (f s) = track.more s) \<Longrightarrow>
     (\<And>s. plan_kept s (f s)) \<Longrightarrow> preserves inv (modify f)"
  by (rule preserves_modify) (rule own)

lemma pres_lock:
  "preserves inv (hw_out (Mutex_Take ''htrk''))" "preserves inv (hw_out (Mutex_Release ''htrk''))"
  by (simp_all add: preserves_def lock)

lemma pres_motion_set:
  "\<bar>l\<bar> \<le> 150 \<Longrightarrow> \<bar>r\<bar> \<le> 150 \<Longrightarrow> preserves inv (hcics_track_motion_set mot l r)"
  unfolding hcics_track_motion_set_def
  using limit by (intro pres pres_own mot_ok) (simp_all add: motion.defs plan_defs)

lemma pres_finish: "preserves inv (hcics_track_finish_path mot now)"
  unfolding hcics_track_finish_path_def
  by (intro preservesI vc vc_preserves [OF pres_motion_set])
    (simp_all, (intro conjI impI; erule own; simp add: motion.defs plan_defs))

lemma pres_timed:
  "\<bar>l\<bar> \<le> 150 \<Longrightarrow> \<bar>r\<bar> \<le> 150 \<Longrightarrow> preserves inv (track_timed mot e st l r)"
  unfolding track_timed_def
  by (intro pres pres_own pres_motion_set) (simp_all add: motion.defs plan_defs)

lemma pres_begin: "preserves inv (hcics_track_begin_action mot step now)"
  unfolding hcics_track_begin_action_def
  by (cases "step_action step"; simp; intro pres pres_own pres_timed pres_finish;
      simp add: motion.defs plan_defs track_speed_defs)

lemma pres_complete: "preserves inv (hcics_track_complete_action mot now)"
  unfolding hcics_track_complete_action_def
  by (intro pres pres_own pres_finish pres_motion_set)
    (simp_all add: motion.defs plan_defs track_speed_defs f32_trunc_def i16_id is_i16_def)

lemma pres_accept: "preserves inv (hcics_track_accept_node mot now)"
  unfolding hcics_track_accept_node_def
  by (intro pres pres_own pres_finish pres_begin) (simp_all add: motion.defs plan_defs)

lemma vc_motion_set_keeps:
  "\<bar>l\<bar> \<le> 150 \<Longrightarrow> \<bar>r\<bar> \<le> 150 \<Longrightarrow> inv s \<Longrightarrow> wp (hcics_track_motion_set mot l r) (\<lambda>_. inv) s"
  using preservesD [OF pres_motion_set] by (simp add: wp_run)

lemma pres_line: "preserves inv (hcics_track_apply_line_follow mot now)"
  unfolding hcics_track_apply_line_follow_def Let_def
  by (intro preservesI vc vc_motion_set_keeps)
    (simp_all add: line_commands line_commands_split track_speed_defs, ((intro conjI impI)?; erule own; simp add: motion.defs plan_defs)+)

lemma pres_tick: "preserves inv (hcics_track_tick mot now)"
  unfolding hcics_track_tick_def hcics_track_node_seen_def
  by (intro pres pres_own pres_lock pres_complete pres_accept pres_line) (simp_all add: motion.defs plan_defs)

lemma pres_stop: "preserves inv (hcics_track_stop mot)"
  unfolding hcics_track_stop_def
  by (intro pres pres_own pres_lock pres_motion_set) (simp_all add: motion.defs plan_defs)

end

interpretation recorded_150: motor_guard record_motor "\<lambda>s. extends (drive_call 150) tr0 (trace s)" 150
  for tr0
  by unfold_locales (simp_all add: record_motor_def preserves_def motion.defs plan_defs)

end
