(* ===== verification/HcicsCleaner.thy ===== *)
theory HcicsCleaner
  imports HcicsTrack
begin

text \<open>
  The gimbal cleaner, \<open>applications/hcics_cleaner.c\<close>: two servos on a PWM device, the pump relay,
  and the mission of the worker thread that aims at a stain, extends the brush, sprays, scrubs,
  retracts and verifies. The record holds the static \<open>g_cleaner\<close>.

  The worker shares this state with the threads of the cameras, the guard and the application. Its
  functions take the operation \<open>env\<close>, which stands for what the other threads do: it runs
  whenever the worker takes the lock, sleeps, or calls the PWM driver outside the lock. As an
  operation on the state it may depend on the whole history. For a caller that is not to be
  interrupted it is \<open>ret ()\<close>.
\<close>

section \<open>State and configuration\<close>

definition HCICS_CLEANER_PWM_DEVICE_NAME :: string where "HCICS_CLEANER_PWM_DEVICE_NAME = ''pwm3''"
definition HCICS_CLEANER_RELAY_PIN :: int where "HCICS_CLEANER_RELAY_PIN = GET_PIN (CHR ''B'') 12"
definition HCICS_CLEANER_TARGET_STALE_MS :: int where "HCICS_CLEANER_TARGET_STALE_MS = 1200"
definition HCICS_CLEANER_WAIT_TARGET_MS :: u32 where "HCICS_CLEANER_WAIT_TARGET_MS = 6000"
definition HCICS_CLEANER_AIM_TIMEOUT_MS :: int where "HCICS_CLEANER_AIM_TIMEOUT_MS = 3000"
definition HCICS_CLEANER_VERIFY_CLEAR_MS :: int where "HCICS_CLEANER_VERIFY_CLEAR_MS = 1800"
definition HCICS_CLEANER_MAX_CYCLES :: u8 where "HCICS_CLEANER_MAX_CYCLES = 3"
definition HCICS_CLEANER_MIN_TARGET_W :: u8 where "HCICS_CLEANER_MIN_TARGET_W = 3"
definition HCICS_CLEANER_MAX_TARGET_W :: u8 where "HCICS_CLEANER_MAX_TARGET_W = 250"
definition HCICS_CLEANER_CAMERA_CENTER_X :: int where "HCICS_CLEANER_CAMERA_CENTER_X = 320"
definition HCICS_CLEANER_BRUSH_TARGET_Y :: int where "HCICS_CLEANER_BRUSH_TARGET_Y = 350"
definition HCICS_CLEANER_LOCK_ERR_X :: int where "HCICS_CLEANER_LOCK_ERR_X = 130"
definition HCICS_CLEANER_LOCK_ERR_Y :: int where "HCICS_CLEANER_LOCK_ERR_Y = 55"
definition HCICS_CLEANER_Y_NS_PER_PX :: int where "HCICS_CLEANER_Y_NS_PER_PX = 1000"
definition HCICS_CLEANER_Y_SWEEP_NS :: u32 where "HCICS_CLEANER_Y_SWEEP_NS = 180000"
definition HCICS_CLEANER_Z_STEP_NS :: u32 where "HCICS_CLEANER_Z_STEP_NS = 12000"
definition HCICS_CLEANER_SPRAY_MS :: u32 where "HCICS_CLEANER_SPRAY_MS = 900"
definition HCICS_CLEANER_SCRUB_MS :: u32 where "HCICS_CLEANER_SCRUB_MS = 2200"
definition HCICS_CLEANER_SCRUB_STEP_MS :: u32 where "HCICS_CLEANER_SCRUB_STEP_MS = 160"
definition HCICS_CLEANER_RETRACT_MS :: u32 where "HCICS_CLEANER_RETRACT_MS = 600"
definition HCICS_CLEANER_RESET_WAIT_MS :: u32 where "HCICS_CLEANER_RESET_WAIT_MS = 2500"
definition HCICS_CLEANER_Z_EXTEND_TIMEOUT_MS :: u32 where "HCICS_CLEANER_Z_EXTEND_TIMEOUT_MS = 1800"
definition HCICS_CLEANER_GUARD_STALE_MS :: int where "HCICS_CLEANER_GUARD_STALE_MS = 300"
definition HCICS_CLEANER_TOF_DANGER_MM :: u16 where "HCICS_CLEANER_TOF_DANGER_MM = 50"
definition HCICS_CLEANER_TOF_WASH_ENTER_MM :: u16 where "HCICS_CLEANER_TOF_WASH_ENTER_MM = 69"
definition HCICS_CLEANER_WASH_HARD_DANGER_MM :: u16 where "HCICS_CLEANER_WASH_HARD_DANGER_MM = 46"
definition HCICS_CLEANER_CAMERA_MODE_CLEAN :: u8 where "HCICS_CLEANER_CAMERA_MODE_CLEAN = 2"
definition HCICS_CLEANER_TOF_INVALID_MM :: u16 where "HCICS_CLEANER_TOF_INVALID_MM = 0xFFFF"

lemmas cleaner_time_defs = HCICS_CLEANER_TARGET_STALE_MS_def HCICS_CLEANER_WAIT_TARGET_MS_def
  HCICS_CLEANER_AIM_TIMEOUT_MS_def HCICS_CLEANER_VERIFY_CLEAR_MS_def HCICS_CLEANER_SPRAY_MS_def
  HCICS_CLEANER_SCRUB_MS_def HCICS_CLEANER_SCRUB_STEP_MS_def HCICS_CLEANER_RETRACT_MS_def
  HCICS_CLEANER_RESET_WAIT_MS_def HCICS_CLEANER_Z_EXTEND_TIMEOUT_MS_def
  HCICS_CLEANER_GUARD_STALE_MS_def

lemmas cleaner_tof_defs = HCICS_CLEANER_TOF_DANGER_MM_def HCICS_CLEANER_TOF_WASH_ENTER_MM_def
  HCICS_CLEANER_WASH_HARD_DANGER_MM_def HCICS_CLEANER_TOF_INVALID_MM_def

lemmas cleaner_aim_defs = HCICS_CLEANER_MIN_TARGET_W_def HCICS_CLEANER_MAX_TARGET_W_def
  HCICS_CLEANER_CAMERA_CENTER_X_def HCICS_CLEANER_BRUSH_TARGET_Y_def HCICS_CLEANER_LOCK_ERR_X_def
  HCICS_CLEANER_LOCK_ERR_Y_def HCICS_CLEANER_Y_NS_PER_PX_def HCICS_CLEANER_CAMERA_MODE_CLEAN_def

datatype hcics_cleaner_state =
    HCICS_CLEANER_STATE_IDLE | HCICS_CLEANER_STATE_AIMING | HCICS_CLEANER_STATE_EXTENDING
  | HCICS_CLEANER_STATE_SPRAYING | HCICS_CLEANER_STATE_SCRUBBING | HCICS_CLEANER_STATE_VERIFYING
  | HCICS_CLEANER_STATE_RETRACTING | HCICS_CLEANER_STATE_DONE | HCICS_CLEANER_STATE_STOPPED
  | HCICS_CLEANER_STATE_ERROR

record hcics_cleaner_camera_target =
  ct_mode :: u8
  ct_x :: u16
  ct_y :: u16
  ct_width :: u8
  ct_type :: u8
  ct_valid :: bool
  ct_tick :: u32

record hcics_cleaner_guard =
  gd_tof_mm :: u16
  gd_tof_valid :: bool
  gd_contact :: bool
  gd_force_stop :: bool
  gd_tick :: u32

text \<open>\<open>None\<close> is a null \<open>pwm_device_name\<close>.\<close>

record hcics_cleaner_config =
  cfg_pwm_device_name :: "string option"
  cfg_y_pwm_channel :: int
  cfg_z_pwm_channel :: int
  cfg_pwm_period_ns :: u32
  cfg_y_safe_ns :: u32
  cfg_y_center_ns :: u32
  cfg_y_min_ns :: u32
  cfg_y_max_ns :: u32
  cfg_z_retract_ns :: u32
  cfg_z_extend_ns :: u32
  cfg_z_wash_ns :: u32
  cfg_relay_pin :: int
  cfg_relay_on_level :: int
  cfg_relay_off_level :: int

text \<open>\<open>cl_pwm\<close>: the pointer \<open>pwm\<close> is set.\<close>

record cleaner = track +
  cl_initialized :: bool
  cl_busy :: bool
  cl_stop_requested :: bool
  cl_relay_on :: bool
  cl_last_result :: rt_err
  cl_state :: hcics_cleaner_state
  cl_cycle :: u8
  cl_max_cycles :: u8
  cl_y_pulse_ns :: u32
  cl_z_pulse_ns :: u32
  cl_config :: hcics_cleaner_config
  cl_camera :: hcics_cleaner_camera_target
  cl_guard :: hcics_cleaner_guard
  cl_pwm :: bool

type_synonym 'a env = "('a cleaner_scheme, unit) state"

text \<open>
  The loops that end by the clock take the number of iterations they may make; \<open>None\<close> is the
  result of a loop that has used it up. \<open>obind\<close> is the sequence of two operations of that kind.
\<close>

definition obind :: "('s, 'a option) state \<Rightarrow> ('a \<Rightarrow> ('s, 'b option) state) \<Rightarrow> ('s, 'b option) state" where
  "obind m f = do { r \<leftarrow> m; case r of None \<Rightarrow> ret None | Some x \<Rightarrow> f x }"

definition oret :: "'a \<Rightarrow> ('s, 'a option) state" where
  "oret x = ret (Some x)"

section \<open>Small functions\<close>

definition hcics_cleaner_clamp_u32 :: "u32 \<Rightarrow> u32 \<Rightarrow> u32 \<Rightarrow> u32" where
  "hcics_cleaner_clamp_u32 value min_value max_value =
     (if value < min_value then min_value else if value > max_value then max_value else value)"

definition hcics_cleaner_move_toward :: "u32 \<Rightarrow> u32 \<Rightarrow> u32 \<Rightarrow> u32" where
  "hcics_cleaner_move_toward current target step =
     (if current < target then
        (let current = current + step in if current > target then target else current)
      else if current > target then
        (if current - target \<le> step then target else current - step)
      else current)"

fun hcics_cleaner_state_name :: "hcics_cleaner_state \<Rightarrow> string" where
  "hcics_cleaner_state_name HCICS_CLEANER_STATE_IDLE = ''IDLE''"
| "hcics_cleaner_state_name HCICS_CLEANER_STATE_AIMING = ''AIMING''"
| "hcics_cleaner_state_name HCICS_CLEANER_STATE_EXTENDING = ''EXTENDING''"
| "hcics_cleaner_state_name HCICS_CLEANER_STATE_SPRAYING = ''SPRAYING''"
| "hcics_cleaner_state_name HCICS_CLEANER_STATE_SCRUBBING = ''SCRUBBING''"
| "hcics_cleaner_state_name HCICS_CLEANER_STATE_VERIFYING = ''VERIFYING''"
| "hcics_cleaner_state_name HCICS_CLEANER_STATE_RETRACTING = ''RETRACTING''"
| "hcics_cleaner_state_name HCICS_CLEANER_STATE_DONE = ''DONE''"
| "hcics_cleaner_state_name HCICS_CLEANER_STATE_STOPPED = ''STOPPED''"
| "hcics_cleaner_state_name HCICS_CLEANER_STATE_ERROR = ''ERROR''"

definition hcics_cleaner_get_default_config :: hcics_cleaner_config where
  "hcics_cleaner_get_default_config =
     \<lparr>cfg_pwm_device_name = Some HCICS_CLEANER_PWM_DEVICE_NAME, cfg_y_pwm_channel = 1,
      cfg_z_pwm_channel = 2, cfg_pwm_period_ns = 20000000, cfg_y_safe_ns = 1860000,
      cfg_y_center_ns = 1550000, cfg_y_min_ns = 270000, cfg_y_max_ns = 1950000,
      cfg_z_retract_ns = 2200000, cfg_z_extend_ns = 1000000, cfg_z_wash_ns = 1100000,
      cfg_relay_pin = HCICS_CLEANER_RELAY_PIN, cfg_relay_on_level = PIN_LOW,
      cfg_relay_off_level = PIN_HIGH\<rparr>"

definition hcics_cleaner_sanitize_config :: "hcics_cleaner_config \<Rightarrow> hcics_cleaner_config" where
  "hcics_cleaner_sanitize_config c =
     (let c = (if cfg_pwm_device_name c = None
               then c\<lparr>cfg_pwm_device_name := Some HCICS_CLEANER_PWM_DEVICE_NAME\<rparr> else c);
          c = (if cfg_y_pwm_channel c = 0 then c\<lparr>cfg_y_pwm_channel := 1\<rparr> else c);
          c = (if cfg_z_pwm_channel c = 0 then c\<lparr>cfg_z_pwm_channel := 2\<rparr> else c);
          c = (if cfg_pwm_period_ns c = 0 then c\<lparr>cfg_pwm_period_ns := 20000000\<rparr> else c);
          c = (if cfg_y_min_ns c > cfg_y_max_ns c
               then c\<lparr>cfg_y_min_ns := cfg_y_max_ns c, cfg_y_max_ns := cfg_y_min_ns c\<rparr> else c);
          c = (if cfg_z_extend_ns c > cfg_z_retract_ns c
               then c\<lparr>cfg_z_extend_ns := cfg_z_retract_ns c, cfg_z_retract_ns := cfg_z_extend_ns c\<rparr>
               else c);
          c = c\<lparr>cfg_y_safe_ns :=
                  hcics_cleaner_clamp_u32 (cfg_y_safe_ns c) (cfg_y_min_ns c) (cfg_y_max_ns c)\<rparr>;
          c = c\<lparr>cfg_y_center_ns :=
                  hcics_cleaner_clamp_u32 (cfg_y_center_ns c) (cfg_y_min_ns c) (cfg_y_max_ns c)\<rparr>
      in c\<lparr>cfg_z_wash_ns :=
             hcics_cleaner_clamp_u32 (cfg_z_wash_ns c) (cfg_z_extend_ns c) (cfg_z_retract_ns c)\<rparr>)"

section \<open>Lock, relay and pose\<close>

definition cleaner_take :: "'a env \<Rightarrow> ('a cleaner_scheme, unit) state" where
  "cleaner_take env = do { env; hw_out (Mutex_Take ''hclean_l'') }"

definition cleaner_release :: "('a cleaner_scheme, unit) state" where
  "cleaner_release = hw_out (Mutex_Release ''hclean_l'')"

definition cleaner_mdelay :: "'a env \<Rightarrow> u32 \<Rightarrow> ('a cleaner_scheme, unit) state" where
  "cleaner_mdelay env ms = do { rt_thread_mdelay ms; env }"

text \<open>The section \<open>take; x = f(g_cleaner); release\<close>.\<close>

definition cleaner_snapshot :: "'a env \<Rightarrow> ('a cleaner_scheme \<Rightarrow> 'b) \<Rightarrow> ('a cleaner_scheme, 'b) state" where
  "cleaner_snapshot env f = do {
     cleaner_take env;
     x \<leftarrow> gets f;
     cleaner_release;
     ret x }"

definition hcics_cleaner_set_state ::
  "'a env \<Rightarrow> hcics_cleaner_state \<Rightarrow> ('a cleaner_scheme, unit) state" where
  "hcics_cleaner_set_state env st = do {
     cleaner_take env;
     modify (\<lambda>s. s\<lparr>cl_state := st\<rparr>);
     cleaner_release }"

definition hcics_cleaner_relay :: "'a env \<Rightarrow> bool \<Rightarrow> ('a cleaner_scheme, unit) state" where
  "hcics_cleaner_relay env on = do {
     cleaner_take env;
     modify (\<lambda>s. s\<lparr>cl_relay_on := on\<rparr>);
     cfg \<leftarrow> gets cl_config;
     hw_out (Pin_Write (cfg_relay_pin cfg)
       (if on then cfg_relay_on_level cfg else cfg_relay_off_level cfg));
     cleaner_release }"

text \<open>The device of the configuration; it is never null after the sanitising.\<close>

definition cleaner_pwm_name :: "hcics_cleaner_config \<Rightarrow> string" where
  "cleaner_pwm_name cfg = (case cfg_pwm_device_name cfg of Some name \<Rightarrow> name | None \<Rightarrow> '''')"

definition hcics_cleaner_apply_pose ::
  "'a env \<Rightarrow> u32 \<Rightarrow> u32 \<Rightarrow> ('a cleaner_scheme, rt_err) state" where
  "hcics_cleaner_apply_pose env y_ns z_ns = do {
     cfg \<leftarrow> gets cl_config;
     let y_ns = hcics_cleaner_clamp_u32 y_ns (cfg_y_min_ns cfg) (cfg_y_max_ns cfg);
     let z_ns = hcics_cleaner_clamp_u32 z_ns (cfg_z_extend_ns cfg) (cfg_z_retract_ns cfg);
     cleaner_take env;
     modify (\<lambda>s. s\<lparr>cl_y_pulse_ns := y_ns, cl_z_pulse_ns := z_ns\<rparr>);
     cleaner_release;
     pwm \<leftarrow> gets cl_pwm;
     cfg \<leftarrow> gets cl_config;
     if \<not> pwm then ret (- RT_ENOSYS)
     else do {
       env;
       result \<leftarrow> hw_do (Pwm_Set (cleaner_pwm_name cfg) (cfg_y_pwm_channel cfg) (cfg_pwm_period_ns cfg) y_ns);
       if result \<noteq> RT_EOK then ret result
       else do {
         env;
         result \<leftarrow> hw_do (Pwm_Enable (cleaner_pwm_name cfg) (cfg_y_pwm_channel cfg));
         if result \<noteq> RT_EOK then ret result
         else do {
           env;
           result \<leftarrow> hw_do (Pwm_Set (cleaner_pwm_name cfg) (cfg_z_pwm_channel cfg) (cfg_pwm_period_ns cfg) z_ns);
           if result \<noteq> RT_EOK then ret result
           else do {
             env;
             hw_do (Pwm_Enable (cleaner_pwm_name cfg) (cfg_z_pwm_channel cfg)) } } } } }"

definition hcics_cleaner_safe_outputs :: "'a env \<Rightarrow> ('a cleaner_scheme, rt_err) state" where
  "hcics_cleaner_safe_outputs env = do {
     hcics_cleaner_relay env False;
     final_result \<leftarrow> hcics_axis_stop;
     cfg \<leftarrow> gets cl_config;
     result \<leftarrow> hcics_cleaner_apply_pose env (cfg_y_safe_ns cfg) (cfg_z_retract_ns cfg);
     ret (if result \<noteq> RT_EOK \<and> final_result = RT_EOK then result else final_result) }"

section \<open>Camera and guard\<close>

definition hcics_cleaner_camera_is_fresh ::
  "hcics_cleaner_camera_target \<Rightarrow> ('a cleaner_scheme, bool) state" where
  "hcics_cleaner_camera_is_fresh target =
     (if \<not> ct_valid target \<or> ct_tick target = 0 then ret False
      else do {
        now \<leftarrow> rt_tick_get;
        ret (now - ct_tick target \<le> rt_tick_from_millisecond HCICS_CLEANER_TARGET_STALE_MS) })"

definition hcics_cleaner_clean_frame_is_fresh ::
  "hcics_cleaner_camera_target \<Rightarrow> ('a cleaner_scheme, bool) state" where
  "hcics_cleaner_clean_frame_is_fresh target =
     (if ct_mode target \<noteq> HCICS_CLEANER_CAMERA_MODE_CLEAN \<or> ct_tick target = 0 then ret False
      else do {
        now \<leftarrow> rt_tick_get;
        ret (now - ct_tick target \<le> rt_tick_from_millisecond HCICS_CLEANER_TARGET_STALE_MS) })"

definition hcics_cleaner_target_is_stain ::
  "hcics_cleaner_camera_target \<Rightarrow> ('a cleaner_scheme, bool) state" where
  "hcics_cleaner_target_is_stain target = do {
     fresh \<leftarrow> hcics_cleaner_camera_is_fresh target;
     if \<not> fresh then ret False
     else if ct_mode target \<noteq> HCICS_CLEANER_CAMERA_MODE_CLEAN then ret False
     else if ct_x target = 0 \<or> ct_y target = 0 \<or> ct_x target > 640 \<or> ct_y target > 480 then ret False
     else ret (\<not> (ct_width target < HCICS_CLEANER_MIN_TARGET_W \<or>
                   ct_width target > HCICS_CLEANER_MAX_TARGET_W)) }"

definition hcics_cleaner_get_clean_frame ::
  "'a env \<Rightarrow> ('a cleaner_scheme, hcics_cleaner_camera_target option) state" where
  "hcics_cleaner_get_clean_frame env = do {
     snapshot \<leftarrow> cleaner_snapshot env cl_camera;
     fresh \<leftarrow> hcics_cleaner_clean_frame_is_fresh snapshot;
     ret (if \<not> fresh then None else Some snapshot) }"

definition hcics_cleaner_get_stain_target ::
  "'a env \<Rightarrow> ('a cleaner_scheme, hcics_cleaner_camera_target option) state" where
  "hcics_cleaner_get_stain_target env = do {
     snapshot \<leftarrow> cleaner_snapshot env cl_camera;
     stain \<leftarrow> hcics_cleaner_target_is_stain snapshot;
     ret (if \<not> stain then None else Some snapshot) }"

definition hcics_cleaner_y_from_target ::
  "hcics_cleaner_camera_target \<Rightarrow> ('a cleaner_scheme, u32) state" where
  "hcics_cleaner_y_from_target target = do {
     cfg \<leftarrow> gets cl_config;
     let err_y = uint (ct_y target) - HCICS_CLEANER_BRUSH_TARGET_Y;
     let y_ns = i32 (i32 (uint (cfg_y_center_ns cfg)) + err_y * HCICS_CLEANER_Y_NS_PER_PX);
     ret (hcics_cleaner_clamp_u32 (word_of_int y_ns) (cfg_y_min_ns cfg) (cfg_y_max_ns cfg)) }"

definition hcics_cleaner_target_locked :: "hcics_cleaner_camera_target \<Rightarrow> bool" where
  "hcics_cleaner_target_locked target \<longleftrightarrow>
     \<bar>uint (ct_x target) - HCICS_CLEANER_CAMERA_CENTER_X\<bar> \<le> HCICS_CLEANER_LOCK_ERR_X \<and>
     \<bar>uint (ct_y target) - HCICS_CLEANER_BRUSH_TARGET_Y\<bar> \<le> HCICS_CLEANER_LOCK_ERR_Y"

definition hcics_cleaner_get_guard :: "'a env \<Rightarrow> ('a cleaner_scheme, hcics_cleaner_guard) state" where
  "hcics_cleaner_get_guard env = cleaner_snapshot env cl_guard"

definition hcics_cleaner_guard_is_fresh :: "hcics_cleaner_guard \<Rightarrow> ('a cleaner_scheme, bool) state" where
  "hcics_cleaner_guard_is_fresh guard =
     (if gd_tick guard = 0 then ret False
      else do {
        now \<leftarrow> rt_tick_get;
        ret (now - gd_tick guard \<le> rt_tick_from_millisecond HCICS_CLEANER_GUARD_STALE_MS) })"

definition hcics_cleaner_guard_forces_retract ::
  "'a env \<Rightarrow> bool \<Rightarrow> ('a cleaner_scheme, bool) state" where
  "hcics_cleaner_guard_forces_retract env washing = do {
     guard \<leftarrow> hcics_cleaner_get_guard env;
     fresh \<leftarrow> hcics_cleaner_guard_is_fresh guard;
     if gd_force_stop guard then ret True
     else if \<not> fresh then ret True
     else if \<not> gd_tof_valid guard then ret True
     else if gd_tof_mm guard \<le> HCICS_CLEANER_WASH_HARD_DANGER_MM then ret True
     else ret (\<not> washing \<and> gd_tof_mm guard \<le> HCICS_CLEANER_TOF_DANGER_MM) }"

definition hcics_cleaner_surface_reached :: "'a env \<Rightarrow> ('a cleaner_scheme, bool) state" where
  "hcics_cleaner_surface_reached env = do {
     guard \<leftarrow> hcics_cleaner_get_guard env;
     fresh \<leftarrow> hcics_cleaner_guard_is_fresh guard;
     if \<not> fresh then ret False
     else ret (gd_contact guard \<or>
               (gd_tof_valid guard \<and> gd_tof_mm guard \<le> HCICS_CLEANER_TOF_WASH_ENTER_MM)) }"

section \<open>Waiting\<close>

text \<open>The variable \<open>left\<close> gets smaller with every turn of the loop.\<close>

fun cleaner_delay_loop :: "'a env \<Rightarrow> bool \<Rightarrow> bool \<Rightarrow> nat \<Rightarrow> ('a cleaner_scheme, bool) state" where
  "cleaner_delay_loop env check_guard washing left =
     (if left = 0 then ret True
      else do {
        stop \<leftarrow> gets cl_stop_requested;
        if stop then ret False
        else do {
          danger \<leftarrow> (if check_guard then hcics_cleaner_guard_forces_retract env washing else ret False);
          if danger then ret False
          else if left \<ge> 40 then do {
            cleaner_mdelay env 40;
            cleaner_delay_loop env check_guard washing (left - 40) }
          else do {
            cleaner_mdelay env (word_of_nat left);
            cleaner_delay_loop env check_guard washing 0 } } })"

declare cleaner_delay_loop.simps [simp del]

definition hcics_cleaner_delay_abortable ::
  "'a env \<Rightarrow> u32 \<Rightarrow> bool \<Rightarrow> bool \<Rightarrow> ('a cleaner_scheme, bool) state" where
  "hcics_cleaner_delay_abortable env ms check_guard washing =
     cleaner_delay_loop env check_guard washing (unat ms)"

fun cleaner_wait_not_busy_loop ::
  "'a env \<Rightarrow> u32 \<Rightarrow> u32 \<Rightarrow> nat \<Rightarrow> ('a cleaner_scheme, bool option) state" where
  "cleaner_wait_not_busy_loop env start timeout 0 = ret None"
| "cleaner_wait_not_busy_loop env start timeout (Suc n) = do {
     busy \<leftarrow> cleaner_snapshot env cl_busy;
     if \<not> busy then oret True
     else do {
       now \<leftarrow> now_ms;
       if now - start \<ge> timeout then oret False
       else do {
         cleaner_mdelay env 20;
         cleaner_wait_not_busy_loop env start timeout n } } }"

definition hcics_cleaner_wait_not_busy ::
  "'a env \<Rightarrow> nat \<Rightarrow> u32 \<Rightarrow> ('a cleaner_scheme, bool option) state" where
  "hcics_cleaner_wait_not_busy env n timeout_ms = do {
     start \<leftarrow> now_ms;
     cleaner_wait_not_busy_loop env start timeout_ms n }"

text \<open>The result is an error, or the target the code stores through its pointer.\<close>

fun cleaner_wait_stain_loop ::
  "'a env \<Rightarrow> u32 \<Rightarrow> u32 \<Rightarrow> nat \<Rightarrow> ('a cleaner_scheme, (rt_err + hcics_cleaner_camera_target) option) state"
where
  "cleaner_wait_stain_loop env start timeout 0 = ret None"
| "cleaner_wait_stain_loop env start timeout (Suc n) = do {
     stop \<leftarrow> gets cl_stop_requested;
     if stop then oret (Inl (- RT_EINTR))
     else do {
       target \<leftarrow> hcics_cleaner_get_stain_target env;
       case target of
         Some t \<Rightarrow> oret (Inr t)
       | None \<Rightarrow> do {
           now \<leftarrow> rt_tick_get;
           if now - start \<ge> timeout then oret (Inl (- RT_ETIMEOUT))
           else do {
             cleaner_mdelay env 40;
             cleaner_wait_stain_loop env start timeout n } } } }"

definition hcics_cleaner_wait_stain ::
  "'a env \<Rightarrow> nat \<Rightarrow> u32 \<Rightarrow> ('a cleaner_scheme, (rt_err + hcics_cleaner_camera_target) option) state" where
  "hcics_cleaner_wait_stain env n timeout_ms = do {
     start \<leftarrow> rt_tick_get;
     cleaner_wait_stain_loop env start (rt_tick_from_millisecond (uint timeout_ms)) n }"

section \<open>The steps of a cycle\<close>

text \<open>\<open>steady\<close> counts the locked frames in a row, the variable \<open>stable\<close> of the code.\<close>

fun cleaner_aim_loop ::
  "'a env \<Rightarrow> u32 \<Rightarrow> u32 \<Rightarrow> nat \<Rightarrow> u8 \<Rightarrow>
     ('a cleaner_scheme, (rt_err + hcics_cleaner_camera_target) option) state"
where
  "cleaner_aim_loop env start timeout 0 steady = ret None"
| "cleaner_aim_loop env start timeout (Suc n) steady = do {
     stop \<leftarrow> gets cl_stop_requested;
     if stop then oret (Inl (- RT_EINTR))
     else do {
       target \<leftarrow> hcics_cleaner_get_stain_target env;
       (result, steady) \<leftarrow>
         (case target of
            None \<Rightarrow> ret (RT_EOK, 0)
          | Some t \<Rightarrow> do {
              y_ns \<leftarrow> hcics_cleaner_y_from_target t;
              cfg \<leftarrow> gets cl_config;
              result \<leftarrow> hcics_cleaner_apply_pose env y_ns (cfg_z_retract_ns cfg);
              if result \<noteq> RT_EOK then ret (result, steady)
              else do {
                result \<leftarrow> hcics_axis_center_from_error (uint (ct_x t) - HCICS_CLEANER_CAMERA_CENTER_X);
                if result \<noteq> RT_EOK then ret (result, steady)
                else ret (RT_EOK, if hcics_cleaner_target_locked t then steady + 1 else 0) } });
       if result \<noteq> RT_EOK then oret (Inl result)
       else
         case (target, steady \<ge> 3) of
           (Some t, True) \<Rightarrow> oret (Inr t)
         | _ \<Rightarrow> do {
             now \<leftarrow> rt_tick_get;
             if now - start \<ge> timeout then oret (Inl (- RT_ETIMEOUT))
             else do {
               cleaner_mdelay env 80;
               cleaner_aim_loop env start timeout n steady } } } }"

definition hcics_cleaner_aim ::
  "'a env \<Rightarrow> nat \<Rightarrow> ('a cleaner_scheme, (rt_err + hcics_cleaner_camera_target) option) state" where
  "hcics_cleaner_aim env n = do {
     start \<leftarrow> rt_tick_get;
     cleaner_aim_loop env start (rt_tick_from_millisecond HCICS_CLEANER_AIM_TIMEOUT_MS) n 0 }"

fun cleaner_extend_loop ::
  "'a env \<Rightarrow> u32 \<Rightarrow> nat \<Rightarrow> u32 \<Rightarrow> u32 \<Rightarrow> ('a cleaner_scheme, rt_err option) state"
where
  "cleaner_extend_loop env start 0 y_ns z_ns = ret None"
| "cleaner_extend_loop env start (Suc n) y_ns z_ns = do {
     stop \<leftarrow> gets cl_stop_requested;
     if stop then oret (- RT_EINTR)
     else do {
       danger \<leftarrow> hcics_cleaner_guard_forces_retract env False;
       if danger then oret (- RT_EINTR)
       else do {
         target \<leftarrow> hcics_cleaner_get_stain_target env;
         y_ns \<leftarrow> (case target of Some t \<Rightarrow> hcics_cleaner_y_from_target t | None \<Rightarrow> ret y_ns);
         wash \<leftarrow> gets (\<lambda>s. cfg_z_wash_ns (cl_config s));
         let z_ns = hcics_cleaner_move_toward z_ns wash HCICS_CLEANER_Z_STEP_NS;
         result \<leftarrow> hcics_cleaner_apply_pose env y_ns z_ns;
         if result \<noteq> RT_EOK then oret result
         else do {
           reached \<leftarrow> hcics_cleaner_surface_reached env;
           if reached then oret RT_EOK
           else do {
             wash \<leftarrow> gets (\<lambda>s. cfg_z_wash_ns (cl_config s));
             if z_ns = wash then oret (- RT_ERROR)
             else do {
               now \<leftarrow> now_ms;
               if now - start \<ge> HCICS_CLEANER_Z_EXTEND_TIMEOUT_MS then oret (- RT_ETIMEOUT)
               else do {
                 cleaner_mdelay env 30;
                 cleaner_extend_loop env start n y_ns z_ns } } } } } } }"

definition hcics_cleaner_extend_z ::
  "'a env \<Rightarrow> nat \<Rightarrow> u32 \<Rightarrow> ('a cleaner_scheme, rt_err option) state" where
  "hcics_cleaner_extend_z env n y_ns = do {
     z_ns \<leftarrow> gets (\<lambda>s. cfg_z_retract_ns (cl_config s));
     start \<leftarrow> now_ms;
     cleaner_extend_loop env start n y_ns z_ns }"

definition hcics_cleaner_spray :: "'a env \<Rightarrow> ('a cleaner_scheme, rt_err) state" where
  "hcics_cleaner_spray env = do {
     danger \<leftarrow> hcics_cleaner_guard_forces_retract env True;
     if danger then ret (- RT_EINTR)
     else do {
       hcics_cleaner_relay env True;
       completed \<leftarrow> hcics_cleaner_delay_abortable env HCICS_CLEANER_SPRAY_MS True True;
       hcics_cleaner_relay env False;
       if \<not> completed then ret (- RT_EINTR)
       else do {
         danger \<leftarrow> hcics_cleaner_guard_forces_retract env True;
         ret (if danger then - RT_EINTR else RT_EOK) } } }"

fun cleaner_scrub_loop ::
  "'a env \<Rightarrow> u32 \<Rightarrow> u32 \<Rightarrow> nat \<Rightarrow> bool \<Rightarrow> ('a cleaner_scheme, rt_err option) state"
where
  "cleaner_scrub_loop env base_y_ns start 0 right = ret None"
| "cleaner_scrub_loop env base_y_ns start (Suc n) right = do {
     stop \<leftarrow> gets cl_stop_requested;
     if stop then oret (- RT_EINTR)
     else do {
       danger \<leftarrow> hcics_cleaner_guard_forces_retract env True;
       if danger then oret (- RT_EINTR)
       else do {
         cfg \<leftarrow> gets cl_config;
         let y_ns = (if right then base_y_ns + HCICS_CLEANER_Y_SWEEP_NS
                     else base_y_ns - HCICS_CLEANER_Y_SWEEP_NS);
         let y_ns = hcics_cleaner_clamp_u32 y_ns (cfg_y_min_ns cfg) (cfg_y_max_ns cfg);
         result \<leftarrow> hcics_cleaner_apply_pose env y_ns (cfg_z_wash_ns cfg);
         if result \<noteq> RT_EOK then oret result
         else do {
           result \<leftarrow> hcics_axis_sweep_step right;
           if result \<noteq> RT_EOK then oret result
           else do {
             now \<leftarrow> now_ms;
             if now - start \<ge> HCICS_CLEANER_SCRUB_MS then oret RT_EOK
             else do {
               completed \<leftarrow> hcics_cleaner_delay_abortable env HCICS_CLEANER_SCRUB_STEP_MS True True;
               if \<not> completed then oret (- RT_EINTR)
               else cleaner_scrub_loop env base_y_ns start n (\<not> right) } } } } } }"

definition hcics_cleaner_scrub ::
  "'a env \<Rightarrow> nat \<Rightarrow> u32 \<Rightarrow> ('a cleaner_scheme, rt_err option) state" where
  "hcics_cleaner_scrub env n base_y_ns = do {
     start \<leftarrow> now_ms;
     hcics_cleaner_relay env True;
     cleaner_scrub_loop env base_y_ns start n True }"

fun cleaner_retract_loop :: "'a env \<Rightarrow> nat \<Rightarrow> u32 \<Rightarrow> ('a cleaner_scheme, rt_err option) state" where
  "cleaner_retract_loop env 0 z_ns = ret None"
| "cleaner_retract_loop env (Suc n) z_ns = do {
     cfg \<leftarrow> gets cl_config;
     if z_ns = cfg_z_retract_ns cfg then oret RT_EOK
     else do {
       let z_ns = hcics_cleaner_move_toward z_ns (cfg_z_retract_ns cfg) (HCICS_CLEANER_Z_STEP_NS * 2);
       result \<leftarrow> hcics_cleaner_apply_pose env (cfg_y_safe_ns cfg) z_ns;
       if result \<noteq> RT_EOK then oret result
       else do {
         cleaner_mdelay env 25;
         cleaner_retract_loop env n z_ns } } }"

definition hcics_cleaner_retract :: "'a env \<Rightarrow> nat \<Rightarrow> ('a cleaner_scheme, rt_err option) state" where
  "hcics_cleaner_retract env n = do {
     hcics_cleaner_set_state env HCICS_CLEANER_STATE_RETRACTING;
     hcics_cleaner_relay env False;
     result \<leftarrow> hcics_axis_stop;
     if result \<noteq> RT_EOK then oret result
     else do {
       z_ns \<leftarrow> gets cl_z_pulse_ns;
       obind (cleaner_retract_loop env n z_ns) (\<lambda>result.
         if result \<noteq> RT_EOK then oret result
         else do {
           _ \<leftarrow> hcics_cleaner_delay_abortable env HCICS_CLEANER_RETRACT_MS False False;
           oret RT_EOK }) } }"

fun cleaner_verify_loop ::
  "'a env \<Rightarrow> u32 \<Rightarrow> nat \<Rightarrow> u32 \<Rightarrow> bool \<Rightarrow> ('a cleaner_scheme, rt_err option) state"
where
  "cleaner_verify_loop env start 0 clear_start clear_active = ret None"
| "cleaner_verify_loop env start (Suc n) clear_start clear_active = do {
     stop \<leftarrow> gets cl_stop_requested;
     if stop then oret (- RT_EINTR)
     else do {
       danger \<leftarrow> hcics_cleaner_guard_forces_retract env True;
       if danger then oret (- RT_EINTR)
       else do {
         frame \<leftarrow> hcics_cleaner_get_clean_frame env;
         stain \<leftarrow> (case frame of Some t \<Rightarrow> hcics_cleaner_target_is_stain t | None \<Rightarrow> ret False);
         now \<leftarrow> rt_tick_get;
         let clear_start =
           (if frame \<noteq> None \<and> (stain \<or> \<not> clear_active) then now else clear_start);
         let clear_active = (frame \<noteq> None \<and> \<not> stain);
         if clear_active \<and> now - clear_start \<ge> rt_tick_from_millisecond HCICS_CLEANER_VERIFY_CLEAR_MS
         then oret RT_EOK
         else if now - start \<ge> rt_tick_from_millisecond (uint HCICS_CLEANER_WAIT_TARGET_MS)
         then oret (- RT_ETIMEOUT)
         else do {
           cleaner_mdelay env 80;
           cleaner_verify_loop env start n clear_start clear_active } } } }"

definition hcics_cleaner_verify_clear :: "'a env \<Rightarrow> nat \<Rightarrow> ('a cleaner_scheme, rt_err option) state" where
  "hcics_cleaner_verify_clear env n = do {
     start \<leftarrow> rt_tick_get;
     cleaner_verify_loop env start n start False }"

section \<open>The mission and the worker\<close>

definition hcics_cleaner_run_once :: "'a env \<Rightarrow> nat \<Rightarrow> ('a cleaner_scheme, rt_err option) state" where
  "hcics_cleaner_run_once env n = do {
     hcics_cleaner_set_state env HCICS_CLEANER_STATE_AIMING;
     obind (hcics_cleaner_wait_stain env n HCICS_CLEANER_WAIT_TARGET_MS) (\<lambda>found.
     case found of Inl result \<Rightarrow> oret result
     | Inr target \<Rightarrow>
     obind (hcics_cleaner_aim env n) (\<lambda>aimed.
     case aimed of Inl result \<Rightarrow> oret result
     | Inr target \<Rightarrow> do {
       base_y_ns \<leftarrow> hcics_cleaner_y_from_target target;
       hcics_cleaner_set_state env HCICS_CLEANER_STATE_EXTENDING;
       obind (hcics_cleaner_extend_z env n base_y_ns) (\<lambda>result.
       if result \<noteq> RT_EOK then oret result
       else do {
         hcics_cleaner_set_state env HCICS_CLEANER_STATE_SPRAYING;
         result \<leftarrow> hcics_cleaner_spray env;
         if result \<noteq> RT_EOK then oret result
         else do {
           hcics_cleaner_set_state env HCICS_CLEANER_STATE_SCRUBBING;
           obind (hcics_cleaner_scrub env n base_y_ns) (\<lambda>result. do {
             hcics_cleaner_relay env False;
             if result \<noteq> RT_EOK then oret result
             else
               obind (hcics_cleaner_retract env n) (\<lambda>result.
               if result \<noteq> RT_EOK then oret result
               else do {
                 hcics_cleaner_set_state env HCICS_CLEANER_STATE_VERIFYING;
                 hcics_cleaner_verify_clear env n }) }) } }) })) }"

text \<open>The loop over the cycles; \<open>k\<close> cycles are left.\<close>

fun cleaner_mission_loop :: "'a env \<Rightarrow> nat \<Rightarrow> u8 \<Rightarrow> nat \<Rightarrow> ('a cleaner_scheme, rt_err option) state" where
  "cleaner_mission_loop env n cycle 0 = oret (- RT_ERROR)"
| "cleaner_mission_loop env n cycle (Suc k) = do {
     cleaner_take env;
     modify (\<lambda>s. s\<lparr>cl_cycle := cycle + 1\<rparr>);
     cleaner_release;
     obind (hcics_cleaner_run_once env n) (\<lambda>result.
     if result = RT_EOK then oret RT_EOK
     else if result = - RT_EINTR then oret result
     else
       obind (hcics_cleaner_retract env n) (\<lambda>result.
       if result \<noteq> RT_EOK then oret result
       else cleaner_mission_loop env n (cycle + 1) k)) }"

definition hcics_cleaner_run_mission :: "'a env \<Rightarrow> nat \<Rightarrow> ('a cleaner_scheme, rt_err option) state" where
  "hcics_cleaner_run_mission env n = do {
     max_cycles \<leftarrow> cleaner_snapshot env cl_max_cycles;
     cleaner_mission_loop env n 0 (unat max_cycles) }"

text \<open>One turn of the worker's endless loop.\<close>

definition hcics_cleaner_worker :: "'a env \<Rightarrow> nat \<Rightarrow> ('a cleaner_scheme, unit option) state" where
  "hcics_cleaner_worker env n = do {
     taken \<leftarrow> hw_do (Sem_Take ''hclean_s'');
     if taken \<noteq> RT_EOK then oret ()
     else do {
       result \<leftarrow> hcics_cleaner_safe_outputs env;
       obind (if result = RT_EOK then hcics_cleaner_run_mission env n else oret result) (\<lambda>result. do {
         stopped \<leftarrow> cleaner_snapshot env cl_stop_requested;
         _ \<leftarrow> hcics_cleaner_safe_outputs env;
         cleaner_take env;
         modify (\<lambda>s. s\<lparr>cl_last_result := result, cl_busy := False,
           cl_state := (if stopped then HCICS_CLEANER_STATE_STOPPED
                        else if result = RT_EOK then HCICS_CLEANER_STATE_DONE
                        else HCICS_CLEANER_STATE_ERROR)\<rparr>);
         cleaner_release;
         oret () }) } }"

section \<open>The module's interface\<close>

definition cleaner_no_camera :: hcics_cleaner_camera_target where
  "cleaner_no_camera =
     \<lparr>ct_mode = 0, ct_x = 0, ct_y = 0, ct_width = 0, ct_type = 0, ct_valid = False, ct_tick = 0\<rparr>"

definition cleaner_no_guard :: hcics_cleaner_guard where
  "cleaner_no_guard =
     \<lparr>gd_tof_mm = HCICS_CLEANER_TOF_INVALID_MM, gd_tof_valid = False, gd_contact = False,
      gd_force_stop = False, gd_tick = 0\<rparr>"

definition hcics_cleaner_init ::
  "'a env \<Rightarrow> hcics_cleaner_config option \<Rightarrow> ('a cleaner_scheme, rt_err) state" where
  "hcics_cleaner_init env config = do {
     initialized \<leftarrow> gets cl_initialized;
     if initialized then ret RT_EOK
     else do {
       let cfg = hcics_cleaner_sanitize_config
         (case config of None \<Rightarrow> hcics_cleaner_get_default_config | Some c \<Rightarrow> c);
       modify (\<lambda>s. s\<lparr>cl_initialized := False, cl_busy := False, cl_stop_requested := False,
         cl_relay_on := False, cl_last_result := RT_EOK, cl_state := HCICS_CLEANER_STATE_IDLE,
         cl_cycle := 0, cl_max_cycles := HCICS_CLEANER_MAX_CYCLES,
         cl_y_pulse_ns := cfg_y_safe_ns cfg, cl_z_pulse_ns := cfg_z_retract_ns cfg,
         cl_config := cfg, cl_camera := cleaner_no_camera, cl_guard := cleaner_no_guard,
         cl_pwm := False\<rparr>);
       result \<leftarrow> hw_do (Mutex_Init ''hclean_l'');
       if result \<noteq> RT_EOK then ret result
       else do {
         result \<leftarrow> hw_do (Sem_Init ''hclean_s'');
         if result \<noteq> RT_EOK then ret result
         else do {
           hw_out (Pin_Mode (cfg_relay_pin cfg));
           hw_out (Pin_Write (cfg_relay_pin cfg) (cfg_relay_off_level cfg));
           result \<leftarrow> hcics_axis_init;
           if result \<noteq> RT_EOK then ret (- RT_ENOSYS)
           else do {
             pwm \<leftarrow> rt_device_find (cleaner_pwm_name cfg);
             modify (\<lambda>s. s\<lparr>cl_pwm := (pwm \<noteq> None)\<rparr>);
             if pwm = None then ret (- RT_ENOSYS)
             else do {
               modify (\<lambda>s. s\<lparr>cl_initialized := True\<rparr>);
               result \<leftarrow> hcics_cleaner_safe_outputs env;
               if result \<noteq> RT_EOK then do {
                 modify (\<lambda>s. s\<lparr>cl_initialized := False\<rparr>);
                 ret (- RT_ERROR) }
               else do {
                 created \<leftarrow> hw_do (Thread_Create ''hclean'');
                 if created = 0 then do {
                   modify (\<lambda>s. s\<lparr>cl_initialized := False\<rparr>);
                   ret (- RT_ENOMEM) }
                 else do {
                   hw_out (Thread_Startup ''hclean'');
                   ret RT_EOK } } } } } } } }"

text \<open>The start of most functions: initialise when that has not been done.\<close>

definition cleaner_ensure_init :: "'a env \<Rightarrow> ('a cleaner_scheme, rt_err) state" where
  "cleaner_ensure_init env = do {
     initialized \<leftarrow> gets cl_initialized;
     if \<not> initialized then hcics_cleaner_init env None else ret RT_EOK }"

definition hcics_cleaner_update_camera_target ::
  "'a env \<Rightarrow> hcics_cleaner_camera_target \<Rightarrow> ('a cleaner_scheme, rt_err) state" where
  "hcics_cleaner_update_camera_target env target = do {
     result \<leftarrow> cleaner_ensure_init env;
     if result \<noteq> RT_EOK then ret result
     else do {
       now \<leftarrow> rt_tick_get;
       let snapshot = (if ct_tick target = 0 then target\<lparr>ct_tick := now\<rparr> else target);
       cleaner_take env;
       modify (\<lambda>s. s\<lparr>cl_camera := snapshot\<rparr>);
       cleaner_release;
       ret RT_EOK } }"

definition hcics_cleaner_update_guard ::
  "'a env \<Rightarrow> hcics_cleaner_guard \<Rightarrow> ('a cleaner_scheme, rt_err) state" where
  "hcics_cleaner_update_guard env guard = do {
     result \<leftarrow> cleaner_ensure_init env;
     if result \<noteq> RT_EOK then ret result
     else do {
       now \<leftarrow> rt_tick_get;
       let snapshot = (if gd_tick guard = 0 then guard\<lparr>gd_tick := now\<rparr> else guard);
       let snapshot = (if gd_tof_mm snapshot = HCICS_CLEANER_TOF_INVALID_MM
         then snapshot\<lparr>gd_tof_valid := False\<rparr> else snapshot);
       cleaner_take env;
       modify (\<lambda>s. s\<lparr>cl_guard := snapshot,
         cl_stop_requested := (if gd_force_stop snapshot then True else cl_stop_requested s)\<rparr>);
       cleaner_release;
       (if gd_force_stop snapshot then do { _ \<leftarrow> hcics_cleaner_safe_outputs env; ret () } else ret ());
       ret RT_EOK } }"

definition hcics_cleaner_start :: "'a env \<Rightarrow> u8 \<Rightarrow> ('a cleaner_scheme, rt_err) state" where
  "hcics_cleaner_start env max_cycles = do {
     result \<leftarrow> cleaner_ensure_init env;
     if result \<noteq> RT_EOK then ret result
     else do {
       cleaner_take env;
       busy \<leftarrow> gets cl_busy;
       if busy then do {
         cleaner_release;
         ret (- RT_EBUSY) }
       else do {
         modify (\<lambda>s. s\<lparr>cl_busy := True, cl_stop_requested := False, cl_last_result := RT_EOK,
           cl_cycle := 0,
           cl_max_cycles := (if max_cycles = 0 then HCICS_CLEANER_MAX_CYCLES else max_cycles),
           cl_state := HCICS_CLEANER_STATE_AIMING\<rparr>);
         cleaner_release;
         result \<leftarrow> hw_do (Sem_Release ''hclean_s'');
         if result \<noteq> RT_EOK then do {
           cleaner_take env;
           modify (\<lambda>s. s\<lparr>cl_busy := False, cl_stop_requested := True, cl_last_result := result,
             cl_state := HCICS_CLEANER_STATE_ERROR\<rparr>);
           cleaner_release;
           hcics_cleaner_relay env False;
           ret result }
         else ret RT_EOK } } }"

definition hcics_cleaner_emergency_stop :: "'a env \<Rightarrow> ('a cleaner_scheme, unit) state" where
  "hcics_cleaner_emergency_stop env = do {
     result \<leftarrow> cleaner_ensure_init env;
     if result \<noteq> RT_EOK then ret ()
     else do {
       cleaner_take env;
       modify (\<lambda>s. s\<lparr>cl_stop_requested := True, cl_state := HCICS_CLEANER_STATE_STOPPED\<rparr>);
       cleaner_release;
       _ \<leftarrow> hcics_cleaner_safe_outputs env;
       hcics_axis_emergency_stop } }"

definition hcics_cleaner_reset :: "'a env \<Rightarrow> nat \<Rightarrow> ('a cleaner_scheme, unit option) state" where
  "hcics_cleaner_reset env n = do {
     result \<leftarrow> cleaner_ensure_init env;
     if result \<noteq> RT_EOK then oret ()
     else do {
       cleaner_take env;
       was_busy \<leftarrow> gets cl_busy;
       (if was_busy
        then modify (\<lambda>s. s\<lparr>cl_stop_requested := True, cl_state := HCICS_CLEANER_STATE_STOPPED\<rparr>)
        else ret ());
       cleaner_release;
       _ \<leftarrow> hcics_cleaner_safe_outputs env;
       _ \<leftarrow> hcics_axis_stop;
       obind (if was_busy then hcics_cleaner_wait_not_busy env n HCICS_CLEANER_RESET_WAIT_MS
              else oret True) (\<lambda>free.
         if \<not> free then oret ()
         else do {
           cleaner_take env;
           modify (\<lambda>s. s\<lparr>cl_busy := False, cl_stop_requested := False, cl_last_result := RT_EOK,
             cl_cycle := 0, cl_state := HCICS_CLEANER_STATE_IDLE\<rparr>);
           cleaner_release;
           oret () }) } }"

record hcics_cleaner_status =
  cs_state :: hcics_cleaner_state
  cs_initialized :: bool
  cs_busy :: bool
  cs_stop_requested :: bool
  cs_relay_on :: bool
  cs_last_result :: rt_err
  cs_cycle :: u8
  cs_max_cycles :: u8
  cs_y_pulse_ns :: u32
  cs_z_pulse_ns :: u32
  cs_camera :: hcics_cleaner_camera_target
  cs_guard :: hcics_cleaner_guard

definition hcics_cleaner_get_status ::
  "'a env \<Rightarrow> ('a cleaner_scheme, rt_err + hcics_cleaner_status) state" where
  "hcics_cleaner_get_status env = do {
     result \<leftarrow> cleaner_ensure_init env;
     if result \<noteq> RT_EOK then ret (Inl result)
     else do {
       status \<leftarrow> cleaner_snapshot env (\<lambda>s.
         \<lparr>cs_state = cl_state s, cs_initialized = cl_initialized s, cs_busy = cl_busy s,
          cs_stop_requested = cl_stop_requested s, cs_relay_on = cl_relay_on s,
          cs_last_result = cl_last_result s, cs_cycle = cl_cycle s,
          cs_max_cycles = cl_max_cycles s, cs_y_pulse_ns = cl_y_pulse_ns s,
          cs_z_pulse_ns = cl_z_pulse_ns s, cs_camera = cl_camera s, cs_guard = cl_guard s\<rparr>);
       ret (Inr status) } }"

end
