(* ===== verification/HcicsCleanerEnv.thy ===== *)
theory HcicsCleanerEnv
  imports HcicsCleaner
begin

text \<open>
  The cleaner among the other threads: the invariants its functions keep, stated once for any
  invariant in the locales \<open>cleaner_keeps\<close>, and the interference of the camera, guard and
  application threads as an arbitrary schedule of their calls, \<open>clean_env\<close>, which meets the
  contract \<open>cleaner_env\<close> the worker relies on.
\<close>

section \<open>Rules\<close>

lemma vc_obind [vc]:
  "wp m (\<lambda>r t. case r of None \<Rightarrow> Q None t | Some x \<Rightarrow> wp (f x) Q t) s \<Longrightarrow> wp (obind m f) Q s"
  unfolding obind_def
  by (auto simp: wp_bind wp_ret elim!: wp_conseq split: option.splits)

lemma vc_after [vc]:
  "(r = None \<Longrightarrow> P) \<Longrightarrow> (\<And>x. r = Some x \<Longrightarrow> R x) \<Longrightarrow> (case r of None \<Rightarrow> P | Some x \<Rightarrow> R x)"
  by (cases r) simp_all

lemma vc_oret [vc]: "Q (Some x) s \<Longrightarrow> wp (oret x) Q s"
  by (simp add: oret_def wp)

lemma preserves_obind [pres]:
  "preserves I m \<Longrightarrow> (\<And>x. preserves I (f x)) \<Longrightarrow> preserves I (obind m f)"
  unfolding obind_def by (intro pres)

lemma preserves_oret [pres]: "preserves I (oret x)"
  unfolding oret_def by (intro pres)

lemma vc_case_sum [vc]:
  "(\<And>e. x = Inl e \<Longrightarrow> wp (f e) Q s) \<Longrightarrow> (\<And>y. x = Inr y \<Longrightarrow> wp (g y) Q s) \<Longrightarrow>
     wp (case x of Inl e \<Rightarrow> f e | Inr y \<Rightarrow> g y) Q s"
  by (simp split: sum.split)

lemma preserves_case_sum [pres]:
  "(\<And>e. preserves I (f e)) \<Longrightarrow> (\<And>y. preserves I (g y)) \<Longrightarrow>
     preserves I (case x of Inl e \<Rightarrow> f e | Inr y \<Rightarrow> g y)"
  by (simp split: sum.split)

lemma preserves_case_bool [pres]:
  "preserves I m \<Longrightarrow> preserves I n \<Longrightarrow> preserves I (case b of True \<Rightarrow> m | False \<Rightarrow> n)"
  by (simp split: bool.split)

text \<open>The calls the axis driver makes.\<close>

fun axis_call :: "int \<Rightarrow> hw_call \<Rightarrow> bool" where
  "axis_call pin (Pin_Write p _) = (p = pin)"
| "axis_call pin (Us_Delay _) = True"
| "axis_call pin Irq_Disable = True"
| "axis_call pin Irq_Restore = True"
| "axis_call pin (Mutex_Take m) = (m = ''haxis'')"
| "axis_call pin (Mutex_Release m) = (m = ''haxis'')"
| "axis_call pin _ = False"

lemma axis_calls_uart: "list_all (axis_call p) (uart_calls p b)"
  by (simp add: uart_calls_eq)

lemma axis_calls_frame: "list_all (axis_call p) (rev (frame_calls p f))"
proof -
  have "list_all (axis_call p) (concat (map (uart_calls p) f))"
    by (induction f) (simp_all add: axis_calls_uart)
  then show ?thesis
    by (simp add: frame_calls_def)
qed

text \<open>A command to the axis adds calls of the axis, and nothing else.\<close>

lemma vc_sends:
  assumes "axis_sends m f"
    and "\<And>r cs. list_all (axis_call (ax_tx_pin s)) cs \<Longrightarrow> r = RT_EOK \<or> r = - RT_ENOSYS \<Longrightarrow>
      Q r (s\<lparr>trace := cs @ trace s\<rparr>)"
  shows "wp m Q s"
  unfolding wp_run axis_sendsD [OF assms(1)]
  using assms(2) [OF axis_calls_frame, of RT_EOK] assms(2) [of "[]" "- RT_ENOSYS"] by simp

lemma sends_center: "\<exists>f. axis_sends (hcics_axis_center_from_error e) f"
  unfolding hcics_axis_center_from_error_def Let_def
  by (auto intro: axis_sends_stop axis_sends_move)

lemma sends_sweep: "\<exists>f. axis_sends (hcics_axis_sweep_step d) f"
  unfolding hcics_axis_sweep_step_def by (rule exI, rule axis_sends_move)

lemmas vc_axis = vc_sends [OF axis_sends_stop] vc_sends [OF someI_ex [OF sends_center]]
  vc_sends [OF someI_ex [OF sends_sweep]]

section \<open>Outputs within the configuration\<close>

definition cfg_ok :: "hcics_cleaner_config \<Rightarrow> bool" where
  "cfg_ok c \<longleftrightarrow> cfg_y_min_ns c \<le> cfg_y_max_ns c \<and> cfg_z_extend_ns c \<le> cfg_z_retract_ns c \<and>
     cfg_y_safe_ns c \<in> {cfg_y_min_ns c..cfg_y_max_ns c} \<and>
     cfg_y_center_ns c \<in> {cfg_y_min_ns c..cfg_y_max_ns c} \<and>
     cfg_z_wash_ns c \<in> {cfg_z_extend_ns c..cfg_z_retract_ns c} \<and>
     cfg_pwm_device_name c \<noteq> None \<and> cfg_y_pwm_channel c \<noteq> 0 \<and> cfg_z_pwm_channel c \<noteq> 0 \<and>
     cfg_pwm_period_ns c \<noteq> 0"

definition pose_ok :: "hcics_cleaner_config \<Rightarrow> u32 \<Rightarrow> u32 \<Rightarrow> bool" where
  "pose_ok c y z \<longleftrightarrow> y \<in> {cfg_y_min_ns c..cfg_y_max_ns c} \<and> z \<in> {cfg_z_extend_ns c..cfg_z_retract_ns c}"

fun cleaner_call :: "hcics_cleaner_config \<Rightarrow> hw_call \<Rightarrow> bool" where
  "cleaner_call c (Pwm_Set name ch period pulse) \<longleftrightarrow>
     (name = cleaner_pwm_name c \<longrightarrow> period = cfg_pwm_period_ns c \<and>
       (ch = cfg_y_pwm_channel c \<and> pulse \<in> {cfg_y_min_ns c..cfg_y_max_ns c} \<or>
        ch = cfg_z_pwm_channel c \<and> pulse \<in> {cfg_z_extend_ns c..cfg_z_retract_ns c}))"
| "cleaner_call c (Pin_Write pin level) \<longleftrightarrow>
     (pin = cfg_relay_pin c \<longrightarrow> level = cfg_relay_on_level c \<or> level = cfg_relay_off_level c)"
| "cleaner_call c _ \<longleftrightarrow> True"

text \<open>The calls that are fine at any time: they leave the relay alone.\<close>

fun plain_call :: "hcics_cleaner_config \<Rightarrow> hw_call \<Rightarrow> bool" where
  "plain_call c (Pin_Write pin level) \<longleftrightarrow> pin \<noteq> cfg_relay_pin c"
| "plain_call c k \<longleftrightarrow> cleaner_call c k"

lemma plain_cleaner_call: "plain_call c k \<Longrightarrow> cleaner_call c k"
  by (cases "(c, k)" rule: plain_call.cases) simp_all

lemma clamp_in: "lo \<le> hi \<Longrightarrow> hcics_cleaner_clamp_u32 v lo hi \<in> {lo..hi}"
  by (simp add: hcics_cleaner_clamp_u32_def not_less)

text \<open>
  The calls the cleaner makes but for the relay, when \<open>p\<close> is the pin of the axis: it drives its own
  PWM device and the axis, and no motor.
\<close>

fun own_call :: "hcics_cleaner_config \<Rightarrow> int \<Rightarrow> hw_call \<Rightarrow> bool" where
  "own_call c p (Pwm_Set name ch period pulse) \<longleftrightarrow>
     name = cleaner_pwm_name c \<and> cleaner_call c (Pwm_Set name ch period pulse)"
| "own_call c p (Pwm_Enable name _) \<longleftrightarrow> name = cleaner_pwm_name c"
| "own_call c p (Pwm_Disable _ _) \<longleftrightarrow> False"
| "own_call c p (Motor_Output _ _) \<longleftrightarrow> False"
| "own_call c p (Pin_Write pin _) \<longleftrightarrow> pin = p"
| "own_call c p _ \<longleftrightarrow> True"

lemma own_plain: "own_call c p k \<Longrightarrow> p \<noteq> cfg_relay_pin c \<Longrightarrow> plain_call c k"
  by (cases "(c, p, k)" rule: own_call.cases) auto

lemma own_plains: "list_all (own_call c p) cs \<Longrightarrow> p \<noteq> cfg_relay_pin c \<Longrightarrow> list_all (plain_call c) cs"
  by (auto simp: list_all_iff intro: own_plain)

lemma axis_call_own: "axis_call p k \<Longrightarrow> own_call c p k"
  by (cases "(p, k)" rule: axis_call.cases) auto

lemma extends_append:
  "list_all P cs \<Longrightarrow> extends P tr0 tr \<Longrightarrow> extends P tr0 (cs @ tr)"
  unfolding extends_def by (elim exE) (rule_tac x = "cs @ csa" in exI, simp)

text \<open>
  An invariant the worker keeps while the pump is off, and what the other threads must keep
  of it. Everything but switching the pump on keeps such an invariant.
\<close>

locale cleaner_keeps =
  fixes env :: "'a env" and inv :: "'a cleaner_scheme \<Rightarrow> bool" and c :: hcics_cleaner_config
  assumes inv_env: "preserves inv env"
    and inv_cfg: "inv s \<Longrightarrow> cfg_ok c \<and> cl_config s = c \<and> cl_initialized s \<and> ax_tx_pin s \<noteq> cfg_relay_pin c"
    and inv_calls: "inv s \<Longrightarrow> list_all (own_call c (ax_tx_pin s)) cs \<Longrightarrow> inv (s\<lparr>trace := cs @ trace s\<rparr>)"
    and inv_off: "inv s \<Longrightarrow> inv (s\<lparr>cl_relay_on := False,
      trace := Pin_Write (cfg_relay_pin c) (cfg_relay_off_level c) # trace s\<rparr>)"
    and inv_clock: "inv s \<Longrightarrow> inv (s\<lparr>clock := t\<rparr>)"
    and inv_pose: "inv s \<Longrightarrow> pose_ok c y z \<Longrightarrow> inv (s\<lparr>cl_y_pulse_ns := y, cl_z_pulse_ns := z\<rparr>)"
    and inv_state: "inv s \<Longrightarrow> inv (s\<lparr>cl_state := st\<rparr>)"
    and inv_cycle: "inv s \<Longrightarrow> inv (s\<lparr>cl_cycle := k\<rparr>)"
    and inv_camera: "inv s \<Longrightarrow> inv (s\<lparr>cl_camera := t1\<rparr>)"
    and inv_guard: "inv s \<Longrightarrow> inv (s\<lparr>cl_guard := g,
      cl_stop_requested := (if b then True else cl_stop_requested s)\<rparr>)"
    and inv_stop: "inv s \<Longrightarrow> inv (s\<lparr>cl_stop_requested := True, cl_state := st\<rparr>)"
begin

lemma vc_env: "inv s \<Longrightarrow> (\<And>t. inv t \<Longrightarrow> Q () t) \<Longrightarrow> wp env Q s"
  by (rule vc_preserves [OF inv_env]) auto

lemma inv_call: "(\<And>p. own_call c p k) \<Longrightarrow> inv s \<Longrightarrow> inv (s\<lparr>trace := k # trace s\<rparr>)"
  using inv_calls [of s "[k]"] by simp

lemma pres_take: "preserves inv (cleaner_take env)"
  unfolding cleaner_take_def by (intro pres inv_env preserves_hw_out inv_call) simp_all

lemma pres_release: "preserves inv cleaner_release"
  unfolding cleaner_release_def by (intro preserves_hw_out inv_call) simp_all

lemma pres_mdelay: "preserves inv (cleaner_mdelay env ms)"
  unfolding cleaner_mdelay_def
  by (intro pres inv_env) (simp add: preserves_def run_rt_thread_mdelay inv_call inv_clock
      inv_clock [OF inv_call])

lemmas pres_sync = pres pres_take pres_release pres_mdelay

lemma inv_axis: "inv s \<Longrightarrow> list_all (axis_call (ax_tx_pin s)) cs \<Longrightarrow> inv (s\<lparr>trace := cs @ trace s\<rparr>)"
  by (intro inv_calls) (auto simp: list_all_iff intro: axis_call_own)

lemma pres_axis:
  "preserves inv hcics_axis_stop"
  "preserves inv (hcics_axis_center_from_error e)"
  "preserves inv (hcics_axis_sweep_step d)"
  by (intro preservesI vc_axis; simp add: inv_axis)+

lemma pres_snapshot: "preserves inv (cleaner_snapshot env f)"
  unfolding cleaner_snapshot_def by (intro pres_sync)

lemma pres_set_state: "preserves inv (hcics_cleaner_set_state env st)"
  unfolding hcics_cleaner_set_state_def
  by (intro pres_sync preserves_modify inv_state)

lemma pres_relay_off: "preserves inv (hcics_cleaner_relay env False)"
  unfolding hcics_cleaner_relay_def
  by (intro preservesI vc vc_preserves [OF pres_take] vc_preserves [OF pres_release])
    (auto dest: inv_cfg inv_off)

lemma pres_apply_pose: "preserves inv (hcics_cleaner_apply_pose env y z)"
proof -
  let ?y = "hcics_cleaner_clamp_u32 y (cfg_y_min_ns c) (cfg_y_max_ns c)"
  let ?z = "hcics_cleaner_clamp_u32 z (cfg_z_extend_ns c) (cfg_z_retract_ns c)"
  have in_range: "?y \<in> {cfg_y_min_ns c..cfg_y_max_ns c}" "?z \<in> {cfg_z_extend_ns c..cfg_z_retract_ns c}"
    if "cfg_ok c"
    using that by (simp_all only: cfg_ok_def clamp_in)
  have pose: "inv s \<Longrightarrow> inv (s\<lparr>cl_y_pulse_ns := ?y, cl_z_pulse_ns := ?z\<rparr>)" for s
    using inv_cfg [of s] in_range by (intro inv_pose) (simp_all add: pose_ok_def)
  have set_y: "inv s \<Longrightarrow> inv (s\<lparr>trace := Pwm_Set (cleaner_pwm_name c) (cfg_y_pwm_channel c) (cfg_pwm_period_ns c) ?y # trace s\<rparr>)"
    and set_z: "inv s \<Longrightarrow> inv (s\<lparr>trace := Pwm_Set (cleaner_pwm_name c) (cfg_z_pwm_channel c) (cfg_pwm_period_ns c) ?z # trace s\<rparr>)"
    and en: "inv s \<Longrightarrow> inv (s\<lparr>trace := Pwm_Enable (cleaner_pwm_name c) k # trace s\<rparr>)" for s k
    using inv_cfg [of s] in_range by (auto intro!: inv_call simp del: atLeastAtMost_iff)
  have cfg: "inv s \<Longrightarrow> cl_config s = c" for s
    using inv_cfg by blast
  show ?thesis
    unfolding hcics_cleaner_apply_pose_def Let_def
    by (intro preservesI vc vc_preserves [OF pres_take] vc_preserves [OF pres_release] vc_env)
      (simp_all add: pose set_y set_z en cfg)
qed

lemma pres_safe_outputs: "preserves inv (hcics_cleaner_safe_outputs env)"
  unfolding hcics_cleaner_safe_outputs_def by (intro pres pres_relay_off pres_apply_pose pres_axis)

text \<open>Every function of the worker, in the order of the code.\<close>

lemma pres_fresh:
  "preserves I (hcics_cleaner_camera_is_fresh t)" "preserves I (hcics_cleaner_clean_frame_is_fresh t)"
  "preserves I (hcics_cleaner_guard_is_fresh g)" "preserves I (hcics_cleaner_target_is_stain t)"
  "preserves I (hcics_cleaner_y_from_target t)"
  unfolding hcics_cleaner_camera_is_fresh_def hcics_cleaner_clean_frame_is_fresh_def
    hcics_cleaner_guard_is_fresh_def hcics_cleaner_target_is_stain_def hcics_cleaner_y_from_target_def
  by (intro pres)+

lemma pres_read:
  "preserves inv (hcics_cleaner_get_clean_frame env)"
  "preserves inv (hcics_cleaner_get_stain_target env)"
  "preserves inv (hcics_cleaner_guard_forces_retract env w)"
  "preserves inv (hcics_cleaner_surface_reached env)"
  unfolding hcics_cleaner_get_clean_frame_def hcics_cleaner_get_stain_target_def
    hcics_cleaner_guard_forces_retract_def hcics_cleaner_surface_reached_def hcics_cleaner_get_guard_def
  by (intro pres pres_snapshot pres_fresh)+

lemmas pres_step = pres_sync pres_axis pres_snapshot pres_set_state pres_relay_off pres_apply_pose
  pres_safe_outputs pres_fresh pres_read

lemma pres_delay_loop: "preserves inv (cleaner_delay_loop env check w left)"
proof (induction left rule: less_induct)
  case (less left)
  show ?case
    by (subst cleaner_delay_loop.simps, intro pres_step less.IH) simp_all
qed

lemma pres_delay: "preserves inv (hcics_cleaner_delay_abortable env ms check w)"
  unfolding hcics_cleaner_delay_abortable_def by (rule pres_delay_loop)

lemma pres_wait_stain: "preserves inv (hcics_cleaner_wait_stain env n ms)"
proof -
  have "preserves inv (cleaner_wait_stain_loop env start timeout n)" for start timeout
    by (induction n) (simp_all only: cleaner_wait_stain_loop.simps, (intro pres_step; assumption?)+)
  then show ?thesis
    unfolding hcics_cleaner_wait_stain_def by (intro pres)
qed

lemma pres_aim: "preserves inv (hcics_cleaner_aim env n)"
proof -
  have "preserves inv (cleaner_aim_loop env start timeout n k)" for start timeout k
    by (induction n arbitrary: k) (simp_all only: cleaner_aim_loop.simps, (intro pres_step; assumption?)+)
  then show ?thesis
    unfolding hcics_cleaner_aim_def by (intro pres)
qed

lemma pres_extend: "preserves inv (hcics_cleaner_extend_z env n y)"
proof -
  have "preserves inv (cleaner_extend_loop env start n y z)" for start y z
    by (induction n arbitrary: y z) (simp_all only: cleaner_extend_loop.simps, (intro pres_step; assumption?)+)
  then show ?thesis
    unfolding hcics_cleaner_extend_z_def by (intro pres)
qed

lemma pres_retract: "preserves inv (hcics_cleaner_retract env n)"
proof -
  have "preserves inv (cleaner_retract_loop env n z)" for z
    by (induction n arbitrary: z) (simp_all only: cleaner_retract_loop.simps, (intro pres_step; assumption?)+)
  then show ?thesis
    unfolding hcics_cleaner_retract_def by (intro pres_step pres_delay)
qed

lemma pres_verify: "preserves inv (hcics_cleaner_verify_clear env n)"
proof -
  have "preserves inv (cleaner_verify_loop env start n from active)" for start "from" active
    by (induction n arbitrary: "from" active)
      (simp_all only: cleaner_verify_loop.simps, (intro pres_step; assumption?)+)
  then show ?thesis
    unfolding hcics_cleaner_verify_clear_def by (intro pres)
qed

text \<open>The functions of the interface that other threads call while the worker runs.\<close>

lemma vc_ensure_init: "inv s \<Longrightarrow> Q RT_EOK s \<Longrightarrow> wp (cleaner_ensure_init env') Q s"
  using inv_cfg [of s] by (simp add: cleaner_ensure_init_def wp)

lemma pres_ensure_init: "preserves inv (cleaner_ensure_init env')"
  by (intro preservesI vc_ensure_init) simp_all

lemma pres_interface:
  "preserves inv (hcics_cleaner_update_camera_target env target)"
  "preserves inv (hcics_cleaner_update_guard env guard)"
  "preserves inv (hcics_cleaner_emergency_stop env)"
  "preserves inv (hcics_cleaner_get_status env)"
  unfolding hcics_cleaner_update_camera_target_def hcics_cleaner_update_guard_def
    hcics_cleaner_emergency_stop_def hcics_cleaner_get_status_def hcics_axis_emergency_stop_def
  by (intro pres_step pres_ensure_init preserves_modify inv_camera inv_guard inv_stop; assumption?)+

end

text \<open>An invariant that says nothing of the request of a mission is kept by start and reset.\<close>

locale cleaner_keeps_free = cleaner_keeps +
  assumes inv_done: "inv s \<Longrightarrow> inv (s\<lparr>cl_last_result := r, cl_busy := False, cl_state := st\<rparr>)"
    and inv_start: "inv s \<Longrightarrow> inv (s\<lparr>cl_busy := True, cl_stop_requested := False, cl_last_result := r,
      cl_cycle := k, cl_max_cycles := m, cl_state := st\<rparr>)"
    and inv_start_failed: "inv s \<Longrightarrow> inv (s\<lparr>cl_busy := False, cl_stop_requested := True,
      cl_last_result := r, cl_state := st\<rparr>)"
    and inv_reset: "inv s \<Longrightarrow> inv (s\<lparr>cl_busy := False, cl_stop_requested := False,
      cl_last_result := r, cl_cycle := k, cl_state := st\<rparr>)"
begin

lemma pres_start: "preserves inv (hcics_cleaner_start env m)"
  unfolding hcics_cleaner_start_def
  by (intro pres_step pres_ensure_init preserves_modify preserves_hw_do inv_call inv_start inv_start_failed)
    simp_all

lemma pres_wait_not_busy: "preserves inv (hcics_cleaner_wait_not_busy env n ms)"
proof -
  have "preserves inv (cleaner_wait_not_busy_loop env start timeout n)" for start timeout
    by (induction n) (simp_all only: cleaner_wait_not_busy_loop.simps, (intro pres_step; assumption?)+)
  then show ?thesis
    unfolding hcics_cleaner_wait_not_busy_def by (intro pres)
qed

lemma pres_reset: "preserves inv (hcics_cleaner_reset env n)"
  unfolding hcics_cleaner_reset_def
  by (intro pres_step pres_ensure_init pres_wait_not_busy preserves_modify inv_stop inv_reset)

end

text \<open>An invariant that is also kept while the pump runs.\<close>

locale cleaner_keeps_on = cleaner_keeps_free +
  assumes inv_on: "inv s \<Longrightarrow> inv (s\<lparr>cl_relay_on := True,
      trace := Pin_Write (cfg_relay_pin c) (cfg_relay_on_level c) # trace s\<rparr>)"
begin

lemma pres_relay_on: "preserves inv (hcics_cleaner_relay env True)"
  unfolding hcics_cleaner_relay_def
  by (intro preservesI vc vc_preserves [OF pres_take] vc_preserves [OF pres_release])
    (auto dest: inv_cfg inv_on)

lemma pres_spray: "preserves inv (hcics_cleaner_spray env)"
  unfolding hcics_cleaner_spray_def by (intro pres_step pres_relay_on pres_delay)

lemma pres_scrub: "preserves inv (hcics_cleaner_scrub env n y)"
proof -
  have "preserves inv (cleaner_scrub_loop env y start n right)" for start right
    by (induction n arbitrary: right)
      (simp_all only: cleaner_scrub_loop.simps, (intro pres_step pres_relay_on pres_delay; assumption?)+)
  then show ?thesis
    unfolding hcics_cleaner_scrub_def by (intro pres_step pres_relay_on)
qed

lemmas pres_phase = pres_wait_stain pres_aim pres_extend pres_spray pres_scrub pres_retract pres_verify

lemma pres_run_once: "preserves inv (hcics_cleaner_run_once env n)"
  unfolding hcics_cleaner_run_once_def by (intro pres_step pres_phase)

lemma pres_mission: "preserves inv (hcics_cleaner_run_mission env n)"
proof -
  have "preserves inv (cleaner_mission_loop env n cycle k)" for cycle k
    by (induction k arbitrary: cycle) (simp_all only: cleaner_mission_loop.simps,
        (intro pres_step pres_run_once pres_phase preserves_modify inv_cycle; assumption?)+)
  then show ?thesis
    unfolding hcics_cleaner_run_mission_def by (intro pres_step)
qed

lemma pres_worker: "preserves inv (hcics_cleaner_worker env n)"
  unfolding hcics_cleaner_worker_def
  by (intro pres_step pres_mission preserves_modify preserves_hw_do inv_call inv_done) simp_all

end

section \<open>The invariants\<close>

text \<open>Everything that leaves the cleaner is within its configuration.\<close>

definition cleaner_ready :: "hcics_cleaner_config \<Rightarrow> 'a cleaner_scheme \<Rightarrow> bool" where
  "cleaner_ready c s \<longleftrightarrow> cfg_ok c \<and> cl_config s = c \<and> cl_initialized s \<and> ax_tx_pin s \<noteq> cfg_relay_pin c"

definition cleaner_posed :: "hcics_cleaner_config \<Rightarrow> 'a cleaner_scheme \<Rightarrow> bool" where
  "cleaner_posed c s \<longleftrightarrow> cleaner_ready c s \<and> pose_ok c (cl_y_pulse_ns s) (cl_z_pulse_ns s)"

definition cleaner_safe :: "hcics_cleaner_config \<Rightarrow> hw_call list \<Rightarrow> 'a cleaner_scheme \<Rightarrow> bool" where
  "cleaner_safe c tr0 s \<longleftrightarrow> cleaner_posed c s \<and> extends (cleaner_call c) tr0 (trace s)"

text \<open>The pump is off: the flag, and the level last written to the pin of the relay.\<close>

fun write_to :: "int \<Rightarrow> hw_call \<Rightarrow> int option" where
  "write_to pin (Pin_Write p level) = (if p = pin then Some level else None)"
| "write_to pin _ = None"

definition pin_state :: "int \<Rightarrow> hw_call list \<Rightarrow> int option" where
  "pin_state pin tr = (case List.map_filter (write_to pin) tr of [] \<Rightarrow> None | l # _ \<Rightarrow> Some l)"

lemma pin_state_Cons [simp]:
  "pin_state pin (c # tr) = (case write_to pin c of None \<Rightarrow> pin_state pin tr | Some l \<Rightarrow> Some l)"
  by (simp add: pin_state_def map_filter_simps split: option.split)

lemma pin_state_plain: "list_all (plain_call c) cs \<Longrightarrow> pin_state (cfg_relay_pin c) (cs @ tr) = pin_state (cfg_relay_pin c) tr"
proof (induction cs)
  case (Cons k cs)
  then have "write_to (cfg_relay_pin c) k = None"
    by (cases "(c, k)" rule: plain_call.cases) auto
  with Cons show ?case by simp
qed simp

definition relay_idle :: "hcics_cleaner_config \<Rightarrow> 'a cleaner_scheme \<Rightarrow> bool" where
  "relay_idle c s \<longleftrightarrow> cleaner_posed c s \<and> \<not> cl_relay_on s \<and>
     pin_state (cfg_relay_pin c) (trace s) = Some (cfg_relay_off_level c)"

text \<open>A mission is to stop, and the pump has not been switched on since.\<close>

definition relay_off_call :: "hcics_cleaner_config \<Rightarrow> hw_call \<Rightarrow> bool" where
  "relay_off_call c k \<longleftrightarrow> write_to (cfg_relay_pin c) k \<in> {None, Some (cfg_relay_off_level c)}"

definition halted :: "hcics_cleaner_config \<Rightarrow> hw_call list \<Rightarrow> 'a cleaner_scheme \<Rightarrow> bool" where
  "halted c tr0 s \<longleftrightarrow> cleaner_ready c s \<and> cl_busy s \<and> cl_stop_requested s \<and>
     extends (relay_off_call c) tr0 (trace s)"

lemma plain_relay_off: "plain_call c k \<Longrightarrow> relay_off_call c k"
  by (cases "(c, k)" rule: plain_call.cases) (auto simp: relay_off_call_def)

lemmas cleaner_inv_defs = cleaner_ready_def cleaner_posed_def cleaner_safe_def relay_idle_def halted_def

text \<open>What the other threads must guarantee.\<close>

locale cleaner_env =
  fixes env :: "'a env"
  assumes env_safe: "preserves (cleaner_safe c tr0) env"
    and env_idle: "preserves (relay_idle c) env"
    and env_halted: "preserves (halted c tr0) env"

sublocale cleaner_env \<subseteq> safe: cleaner_keeps_on env "cleaner_safe c tr0" c for c tr0
  by unfold_locales (rule env_safe, auto simp: cleaner_inv_defs
      intro!: extends_append elim: list.pred_mono_strong dest!: own_plains intro: plain_cleaner_call)

lemma posed_env:
  fixes env :: "'a env"
  assumes "\<And>tr0. preserves (cleaner_safe c tr0) env"
  shows "preserves (cleaner_posed c) env"
  unfolding preserves_def
proof (intro allI impI)
  fix s :: "'a cleaner_scheme" assume "cleaner_posed c s"
  then have "cleaner_safe c (trace s) s"
    by (simp add: cleaner_safe_def)
  from preservesD [OF assms this] show "cleaner_posed c (snd (run_state env s))"
    by (simp add: cleaner_safe_def)
qed

sublocale cleaner_env \<subseteq> posed: cleaner_keeps_on env "cleaner_posed c" c for c
  by unfold_locales (rule posed_env [OF env_safe], auto simp: cleaner_inv_defs)

sublocale cleaner_env \<subseteq> idle: cleaner_keeps_free env "relay_idle c" c for c
  by unfold_locales (rule env_idle, auto simp: cleaner_inv_defs pin_state_plain own_plains)

sublocale cleaner_env \<subseteq> halt: cleaner_keeps env "halted c tr0" c for c tr0
  by unfold_locales (rule env_halted, auto simp: halted_def cleaner_ready_def relay_off_call_def
      intro!: extends_append elim: list.pred_mono_strong dest!: own_plains dest: plain_relay_off)

section \<open>The other threads\<close>

text \<open>
  What the camera, guard and application threads do to the cleaner, and time passing. A reset
  that finds the cleaner busy requests the stop and begins to wait, as far as one turn of its
  waiting loop.
\<close>

datatype clean_event =
    Cl_Camera hcics_cleaner_camera_target | Cl_Guard hcics_cleaner_guard | Cl_Start u8
  | Cl_Emergency_Stop | Cl_Reset | Cl_Get_Status | Cl_Time u8

fun clean_do :: "clean_event \<Rightarrow> 'a env" where
  "clean_do (Cl_Camera target) = do { _ \<leftarrow> hcics_cleaner_update_camera_target (ret ()) target; ret () }"
| "clean_do (Cl_Guard guard) = do { _ \<leftarrow> hcics_cleaner_update_guard (ret ()) guard; ret () }"
| "clean_do (Cl_Start m) = do { _ \<leftarrow> hcics_cleaner_start (ret ()) m; ret () }"
| "clean_do Cl_Emergency_Stop = hcics_cleaner_emergency_stop (ret ())"
| "clean_do Cl_Reset = do { _ \<leftarrow> hcics_cleaner_reset (ret ()) 1; ret () }"
| "clean_do Cl_Get_Status = do { _ \<leftarrow> hcics_cleaner_get_status (ret ()); ret () }"
| "clean_do (Cl_Time ms) = modify (\<lambda>s. s\<lparr>clock := clock s + ucast ms\<rparr>)"

fun clean_dos :: "clean_event list \<Rightarrow> 'a env" where
  "clean_dos [] = ret ()"
| "clean_dos (e # es) = do { clean_do e; clean_dos es }"

text \<open>
  Any schedule of them, chosen by the history; between two steps of the worker at most 100
  events, each taking less than 300 ms.
\<close>

definition clean_env :: "(hw_call list \<Rightarrow> clean_event list) \<Rightarrow> 'a env" where
  "clean_env sched = do { tr \<leftarrow> gets trace; clean_dos (take 100 (sched tr)) }"

interpretation alone: cleaner_env "ret ()"
  by unfold_locales (intro pres)+

lemma keeps_dos:
  "(\<And>e. preserves I (clean_do e)) \<Longrightarrow> preserves I (clean_dos es)"
  by (induction es) (auto intro!: pres)

lemma safe_do: "preserves (cleaner_safe c tr0) (clean_do e)"
  by (cases e; simp only: clean_do.simps;
      intro pres alone.safe.pres_interface alone.safe.pres_start alone.safe.pres_reset preserves_modify)
    (simp add: cleaner_inv_defs)

lemma idle_do: "preserves (relay_idle c) (clean_do e)"
  by (cases e; simp only: clean_do.simps;
      intro pres alone.idle.pres_interface alone.idle.pres_start alone.idle.pres_reset preserves_modify)
    (simp add: cleaner_inv_defs)

lemma halted_start: "preserves (halted c tr0) (hcics_cleaner_start (ret ()) m)"
  unfolding hcics_cleaner_start_def cleaner_take_def cleaner_release_def
  by (intro preservesI vc alone.halt.vc_ensure_init [of c tr0])
    (auto simp: halted_def cleaner_ready_def relay_off_call_def)

lemma halted_wait:
  assumes "halted c tr0 s" "\<And>t. halted c tr0 t \<Longrightarrow> Q None t"
  shows "wp (hcics_cleaner_wait_not_busy (ret ()) 1 HCICS_CLEANER_RESET_WAIT_MS) Q s"
  unfolding hcics_cleaner_wait_not_busy_def One_nat_def cleaner_wait_not_busy_loop.simps
    cleaner_snapshot_def cleaner_take_def cleaner_release_def cleaner_mdelay_def
  by (intro vc assms(2)) (use assms(1) in
    \<open>simp_all add: halted_def cleaner_ready_def relay_off_call_def HCICS_CLEANER_RESET_WAIT_MS_def\<close>)

lemma halted_reset: "preserves (halted c tr0) (hcics_cleaner_reset (ret ()) 1)"
  unfolding hcics_cleaner_reset_def cleaner_take_def cleaner_release_def
  by (intro preservesI vc alone.halt.vc_ensure_init [of c tr0] halted_wait [of c tr0]
      vc_preserves [OF alone.halt.pres_safe_outputs [of c tr0]] vc_preserves [OF alone.halt.pres_axis(1) [of c tr0]])
    (auto simp: halted_def cleaner_ready_def relay_off_call_def)

lemma halted_do: "preserves (halted c tr0) (clean_do e)"
  by (cases e; simp only: clean_do.simps;
      intro pres alone.halt.pres_interface halted_start halted_reset preserves_modify)
    (simp add: halted_def cleaner_ready_def)

interpretation others: cleaner_env "clean_env sched" for sched
  unfolding clean_env_def
  by unfold_locales (intro pres keeps_dos safe_do idle_do halted_do)+

section \<open>The pump\<close>

context cleaner_env begin

lemma idle_posed: "relay_idle c s \<Longrightarrow> cleaner_posed c s"
  by (simp add: relay_idle_def)

lemma relay_off_idle:
  assumes "cleaner_posed c s"
  shows "wp (hcics_cleaner_relay env False) (\<lambda>_. relay_idle c) s"
  unfolding hcics_cleaner_relay_def cleaner_release_def
  by (intro vc vc_preserves [OF posed.pres_take [of c] assms]) (simp add: cleaner_inv_defs)

lemma vc_relay_off:
  "cleaner_posed c s \<Longrightarrow> (\<And>t. relay_idle c t \<Longrightarrow> Q () t) \<Longrightarrow> wp (hcics_cleaner_relay env False) Q s"
  by (rule wp_conseq [OF relay_off_idle]) auto

lemma safe_outputs_idle:
  "cleaner_posed c s \<Longrightarrow> wp (hcics_cleaner_safe_outputs env) (\<lambda>_. relay_idle c) s"
  unfolding hcics_cleaner_safe_outputs_def
  by (intro vc vc_relay_off [of c] vc_preserves [OF idle.pres_axis(1) [of c]]
      vc_preserves [OF idle.pres_apply_pose [of c]]) assumption+

lemma spray_idle: "relay_idle c s \<Longrightarrow> wp (hcics_cleaner_spray env) (\<lambda>_. relay_idle c) s"
  unfolding hcics_cleaner_spray_def
  by (intro vc vc_preserves [OF idle.pres_read(3) [of c]] vc_preserves [OF posed.pres_relay_on [of c]]
      vc_preserves [OF posed.pres_delay [of c]] vc_relay_off [of c]) (auto dest: idle_posed)

lemma run_once_idle:
  assumes "relay_idle c s"
  shows "wp (hcics_cleaner_run_once env n) (\<lambda>r t. r \<noteq> None \<longrightarrow> relay_idle c t) s"
  unfolding hcics_cleaner_run_once_def
  by (intro vc vc_preserves [OF idle.pres_set_state [of c]] vc_preserves [OF idle.pres_wait_stain [of c]]
      vc_preserves [OF idle.pres_aim [of c]] vc_preserves [OF idle.pres_extend [of c]]
      wp_conseq [OF spray_idle [of c]] vc_preserves [OF posed.pres_scrub [of c]] vc_relay_off [of c]
      vc_preserves [OF idle.pres_retract [of c]] vc_preserves [OF idle.pres_verify [of c]]
      vc_preserves [OF idle.pres_fresh(5) [where I = "relay_idle c"]])
    (use assms in \<open>auto dest: idle_posed\<close>)

end

end
