(* ===== verification/HcicsTime.thy ===== *)
theory HcicsTime
  imports HcicsCleanerEnv
begin

text \<open>
  Time. How many ticks an operation takes at most, whatever the other threads do in between, and the
  loops that end by a deadline: as they sleep in every turn, and the clock cannot run past the deadline
  unseen, they end after a number of turns that is known.
\<close>

section \<open>How long an operation takes\<close>

text \<open>\<open>lasts I d m\<close>: from a state with \<open>I\<close>, \<open>m\<close> ends in one, at most \<open>d\<close> ticks later.\<close>

definition lasts :: "('a hw_scheme \<Rightarrow> bool) \<Rightarrow> nat \<Rightarrow> ('a hw_scheme, 'b) state \<Rightarrow> bool" where
  "lasts I d m \<longleftrightarrow> (\<forall>s. I s \<longrightarrow>
     wp m (\<lambda>_ t. I t \<and> unat (clock t - clock s) \<le> d) s)"

named_theorems lasts "how long operations take"

lemma lasts_le: "lasts I d m \<Longrightarrow> d \<le> d' \<Longrightarrow> lasts I d' m"
  by (fastforce simp: lasts_def elim: wp_conseq)

lemma lasts_pres: "lasts I d m \<Longrightarrow> preserves I m"
  by (auto simp: lasts_def preserves_wp elim: wp_conseq)

lemma unat_diff_trans: "unat (c - a) \<le> unat (c - b) + unat (b - a)" for a b c :: u32
proof -
  have "c - a = (c - b) + (b - a)" by simp
  then show ?thesis
    by (metis unat_add_lem unat_word_ariths(1) mod_less_eq_dividend)
qed

lemma lasts_ret [lasts]: "lasts I 0 (ret x)"
  by (simp add: lasts_def wp)

lemma lasts_gets [lasts]: "lasts I 0 (gets f)"
  by (simp add: lasts_def wp)

lemma lasts_tick [lasts]: "lasts I 0 rt_tick_get" "lasts I 0 now_ms"
  by (simp_all add: lasts_def wp)

lemma lasts_bind [lasts]:
  assumes "lasts I d m" "\<And>x. lasts I e (f x)"
  shows "lasts I (d + e) (m \<bind> f)"
  unfolding lasts_def
proof (intro allI impI)
  fix s assume "I s"
  have "wp (f x) (\<lambda>_ t'. I t' \<and> unat (clock t' - clock s) \<le> d + e) t"
    if "I t \<and> unat (clock t - clock s) \<le> d" for x t
  proof (rule wp_conseq)
    show "wp (f x) (\<lambda>_ t'. I t' \<and> unat (clock t' - clock t) \<le> e) t"
      using assms(2) that by (simp add: lasts_def)
  qed (use that unat_diff_trans [of _ "clock s" "clock t"] in \<open>fastforce intro: order_trans\<close>)
  with assms(1) \<open>I s\<close> show "wp (m \<bind> f) (\<lambda>_ t. I t \<and> unat (clock t - clock s) \<le> d + e) s"
    by (auto simp: lasts_def intro!: vc_bind elim!: wp_conseq)
qed

lemma lasts_if [lasts]: "lasts I d m \<Longrightarrow> lasts I e n \<Longrightarrow> lasts I (max d e) (if b then m else n)"
  by (auto intro: lasts_le)

lemma lasts_let [lasts]: "(\<And>x. lasts I d (f x)) \<Longrightarrow> lasts I d (let x = v in f x)"
  by simp

lemma lasts_case_option [lasts]:
  "lasts I d m \<Longrightarrow> (\<And>x. lasts I e (f x)) \<Longrightarrow> lasts I (max d e) (case v of None \<Rightarrow> m | Some x \<Rightarrow> f x)"
  by (cases v) (simp_all add: lasts_le [of I d _ "max d e"] lasts_le [of I e _ "max d e"])

lemma lasts_no_time:
  "preserves I m \<Longrightarrow> (\<And>t. preserves (\<lambda>s. clock s = t) m) \<Longrightarrow> lasts I 0 m"
  by (simp add: lasts_def preserves_wp wp_conj) (metis (mono_tags, lifting) diff_self unat_0 wp_conseq)

text \<open>\<open>elapsed\<close> and the rule that keeps track of it.\<close>

definition since :: "u32 \<Rightarrow> nat \<Rightarrow> nat \<Rightarrow> 'a hw_scheme \<Rightarrow> bool" where
  "since start lo hi s \<longleftrightarrow> lo \<le> unat (clock s - start) \<and> unat (clock s - start) \<le> hi"

lemma vc_lasts:
  assumes "lasts I d m" "I s" "since start lo hi s" "hi + d < 2 ^ 32"
    and "\<And>r t. I t \<Longrightarrow> since start lo (hi + d) t \<Longrightarrow> Q r t"
  shows "wp m Q s"
proof -
  have "since start lo (hi + d) t" if "unat (clock t - clock s) \<le> d" for t
  proof -
    have "unat (clock t - start) = unat (clock s - start) + unat (clock t - clock s)"
      using unat_add_lem [THEN iffD1, of "clock s - start" "clock t - clock s"] assms(3,4) that
      by (simp add: since_def)
    with assms(3) that show ?thesis by (simp add: since_def)
  qed
  with assms(1,2,5) show ?thesis
    by (fastforce simp: lasts_def elim: wp_conseq)
qed

lemma vc_lasts_at:
  assumes "lasts I d m" "I s"
    and "\<And>r t. I t \<Longrightarrow> unat (clock t - clock s) \<le> d \<Longrightarrow> Q r t"
  shows "wp m Q s"
  using assms by (fastforce simp: lasts_def elim: wp_conseq)

lemma lasts_hw:
  "(\<And>s. I s \<Longrightarrow> I (s\<lparr>trace := k # trace s\<rparr>)) \<Longrightarrow> lasts I 0 (hw_out k)"
  "(\<And>s. I s \<Longrightarrow> I (s\<lparr>trace := k # trace s\<rparr>)) \<Longrightarrow> lasts I 0 (hw_do k)"
  by (simp_all add: lasts_def wp)

lemma lasts_modify:
  "(\<And>s. I s \<Longrightarrow> I (f s)) \<Longrightarrow> (\<And>s. clock (f s) = clock s) \<Longrightarrow> lasts I 0 (modify f)"
  by (simp add: lasts_def wp)

lemma lasts_obind [lasts]:
  "lasts I d m \<Longrightarrow> (\<And>x. lasts I e (f x)) \<Longrightarrow> lasts I (d + e) (obind m f)"
  unfolding obind_def by (rule lasts_bind, assumption) (auto intro: lasts_le [OF lasts_ret] split: option.split)

lemma lasts_oret [lasts]: "lasts I 0 (oret x)"
  unfolding oret_def by (rule lasts_ret)

section \<open>Loops with a deadline\<close>

text \<open>In the loop: at least \<open>lo\<close> ticks since its start, and not so many that the clock wraps.\<close>

definition timely :: "('a hw_scheme \<Rightarrow> bool) \<Rightarrow> u32 \<Rightarrow> nat \<Rightarrow> nat \<Rightarrow> 'a hw_scheme \<Rightarrow> bool" where
  "timely I start lo k s \<longleftrightarrow> I s \<and> since start lo (1000000000 + k * 100000000) s"

text \<open>
  At the head of a loop with deadline \<open>timeout\<close> and fuel for \<open>n\<close> more turns of 20 ticks or more.
\<close>

definition due :: "('a hw_scheme \<Rightarrow> bool) \<Rightarrow> u32 \<Rightarrow> u32 \<Rightarrow> nat \<Rightarrow> 'a hw_scheme \<Rightarrow> bool" where
  "due I start timeout n s \<longleftrightarrow> timely I start (unat timeout - (n - 1) * 20) 0 s \<and> 0 < n \<and>
     unat timeout \<le> 100000000"

text \<open>The operation ends, as far as its fuel is concerned.\<close>

definition returns :: "('a hw_scheme \<Rightarrow> bool) \<Rightarrow> ('a hw_scheme, 'b option) state \<Rightarrow> bool" where
  "returns I m \<longleftrightarrow> (\<forall>s. I s \<longrightarrow> wp m (\<lambda>r t. r \<noteq> None \<and> I t) s)"

named_theorems returns "operations that return"

lemma returns_pres: "returns I m \<Longrightarrow> preserves I m"
  by (auto simp: returns_def preserves_wp elim: wp_conseq)

lemma returns_oret [returns]: "returns I (oret x)"
  by (simp add: returns_def oret_def wp)

lemma returns_obind [returns]: "returns I m \<Longrightarrow> (\<And>x. returns I (f x)) \<Longrightarrow> returns I (obind m f)"
  unfolding returns_def by (auto intro!: vc elim!: wp_conseq)

lemma returns_bind [returns]:
  "preserves I m \<Longrightarrow> (\<And>x. returns I (f x)) \<Longrightarrow> returns I (m \<bind> f)"
  unfolding returns_def by (auto intro!: vc elim!: vc_preserves)

lemma returns_if [returns]: "returns I m \<Longrightarrow> returns I n \<Longrightarrow> returns I (if b then m else n)"
  by simp

lemma returns_case_sum [returns]:
  "(\<And>x. returns I (f x)) \<Longrightarrow> (\<And>y. returns I (g y)) \<Longrightarrow> returns I (case v of Inl x \<Rightarrow> f x | Inr y \<Rightarrow> g y)"
  by (simp split: sum.split)

text \<open>
  The other threads take at most \<open>h\<close> ticks at a time; sleeping does no harm to the invariant. Then a
  loop that sleeps 20 ms or more in a turn sees its deadline pass.
\<close>

locale env_timed =
  fixes env :: "('a hw_scheme, unit) state" and inv :: "'a hw_scheme \<Rightarrow> bool" and h :: nat
  assumes env_lasts: "lasts inv h env" and h_le: "h \<le> 30000"
    and inv_sleep: "inv s \<Longrightarrow> inv (s\<lparr>trace := M_Delay ms # trace s, clock := now\<rparr>)"
begin

lemma lasts_nap:
  assumes "0 \<le> sint ms"
  shows "lasts inv (unat ms + h) (rt_thread_mdelay ms \<bind> (\<lambda>_. env))"
proof -
  have ms: "rt_tick_from_millisecond (sint ms) = ms"
    using assms by (simp add: rt_tick_from_millisecond_eq)
  have "lasts inv (unat ms) (rt_thread_mdelay ms)"
    unfolding lasts_def by (intro allI impI vc) (simp add: ms inv_sleep)
  then show ?thesis
    by (rule lasts_bind [OF _ env_lasts])
qed

lemma timely_start: "inv s \<Longrightarrow> timely inv (clock s) 0 0 s"
  by (simp add: timely_def since_def)

lemma vc_brief:
  assumes "lasts inv d m" "timely inv start lo k s" "d \<le> 100000000" "k < 30"
    and "\<And>r t. timely inv start lo (Suc k) t \<Longrightarrow> Q r t"
  shows "wp m Q s"
proof (rule vc_lasts [OF assms(1)])
  show "inv s" "since start lo (1000000000 + k * 100000000) s"
    using assms(2) by (simp_all add: timely_def)
  show "1000000000 + k * 100000000 + d < 2 ^ 32"
    using assms(3,4) by simp
  show "Q r t" if "inv t" "since start lo (1000000000 + k * 100000000 + d) t" for r t
    using that assms(3) by (intro assms(5)) (simp add: timely_def since_def)
qed

text \<open>After a check of the deadline, the sleep leads back to the head of the loop.\<close>

lemma due_in:
  assumes "inv t" "since start 0 30000 t" "unat timeout \<le> (n - 1) * 20" "0 < n" "unat timeout \<le> 100000000"
  shows "due inv start timeout n t"
  using assms by (auto simp: due_def timely_def since_def)

lemma due_now:
  "inv s \<Longrightarrow> unat timeout \<le> (n - 1) * 20 \<Longrightarrow> 0 < n \<Longrightarrow> unat timeout \<le> 100000000 \<Longrightarrow> due inv (clock s) timeout n s"
  by (rule due_in) (simp_all add: since_def)

lemma due_timely: "due inv start timeout n s \<Longrightarrow> timely inv start (unat timeout - (n - 1) * 20) 0 s"
  by (simp add: due_def)

lemma due_again:
  assumes "due inv start timeout (Suc n) s" "timely inv start (unat timeout - n * 20) k t"
    and "\<not> clock t - start \<ge> timeout" "inv u" "since start (unat (clock t - start) + 20) 1000000000 u"
  shows "due inv start timeout n u"
  using assms by (auto simp: due_def timely_def since_def word_le_nat_alt)

lemma vc_sleep:
  assumes "inv t" "since start lo hi t" "hi \<le> 1000000000" "unat ms \<le> 1000"
    and "\<And>u. inv u \<Longrightarrow> since start (lo + unat ms) (hi + unat ms + h) u \<Longrightarrow> Q () u"
  shows "wp (rt_thread_mdelay ms \<bind> (\<lambda>_. env)) Q t"
proof -
  have "uint ms = int (unat ms)"
    by (rule uint_nat)
  moreover from this have "sint ms = uint ms"
    unfolding sint_uint by (intro signed_take_bit_int_eq_self) (use assms(4) in \<open>simp_all del: of_nat_unat\<close>)
  ultimately have ms: "sint ms = int (unat ms)"
    by (rule trans [rotated])
  have "clock t + ms - start = (clock t - start) + ms"
    by simp
  moreover have "unat ((clock t - start) + ms) = unat (clock t - start) + unat ms"
    by (rule unat_add_lem [THEN iffD1]) (use assms(2-4) in \<open>simp add: since_def\<close>)
  ultimately have "unat (clock t + ms - start) = unat (clock t - start) + unat ms"
    by (simp only:)
  then have now: "since start (lo + unat ms) (hi + unat ms) (t\<lparr>trace := M_Delay ms # trace t, clock := clock t + ms\<rparr>)"
    using assms(2) by (simp add: since_def)
  have "wp env Q (t\<lparr>trace := M_Delay ms # trace t, clock := clock t + ms\<rparr>)"
  proof (rule vc_lasts [OF env_lasts _ now])
    show "Q r u" if "inv u" "since start (lo + unat ms) (hi + unat ms + h) u" for r u
      using assms(5) [OF that] by simp
  qed (use assms(1,3,4) h_le in \<open>simp_all add: inv_sleep\<close>)
  then show ?thesis
    by (intro vc) (simp add: ms rt_tick_from_millisecond_eq)
qed

lemma due_elapsed:
  assumes "due inv start timeout n s" "\<not> clock t - start \<ge> timeout" "timely inv start lo k t"
  shows "inv t" "since start (unat (clock t - start)) (unat (clock t - start)) t"
    "unat (clock t - start) < 100000000"
  using assms by (auto simp: due_def since_def timely_def word_le_nat_alt)

lemma vc_again:
  assumes "due inv start timeout (Suc n) s" "timely inv start (unat timeout - n * 20) k t"
    and "\<not> clock t - start \<ge> timeout" "unat ms \<in> {20..1000}"
    and "\<And>u. due inv start timeout n u \<Longrightarrow> Q () u"
  shows "wp (rt_thread_mdelay ms \<bind> (\<lambda>_. env)) Q t"
proof (rule vc_sleep)
  note e = due_elapsed [OF assms(1,3,2)]
  show "inv t" "since start (unat (clock t - start)) (unat (clock t - start)) t"
    by (fact e)+
  show "unat (clock t - start) \<le> 1000000000" "unat ms \<le> 1000"
    using e assms(4) by simp_all
  show "Q () u" if "inv u"
    "since start (unat (clock t - start) + unat ms) (unat (clock t - start) + unat ms + h) u" for u
    by (intro assms(5) due_again [OF assms(1-3) that(1)]) (use that(2) e assms(4) h_le in \<open>simp add: since_def\<close>)
qed

end

end
