(* ===== verification/HcicsTrackRuns.thy ===== *)
theory HcicsTrackRuns
  imports HcicsTrack
begin

text \<open>
  The tracking module at work: the plans it makes on the panel grid, its runs over camera frames
  and control ticks, and the commands it gives.
\<close>

section \<open>Plans on the grid\<close>

definition track_example :: track where
  "track_example = motion.extend (motion_example\<lparr>clock := 1\<rparr>)
     (track.fields True False False False False False 0 0 0 HCICS_TRACK_ACTION_FORWARD 0 0 0
        0 0 0 0 0 0 0 0 0 54
        \<lparr>cam_mode = 1, cam_x = 80, cam_y = 60, cam_width = 40, cam_type = 0, cam_tick = 1\<rparr>
        True True False track_zero_path (replicate 16 track_zero_step) 0 HCICS_TRACK_STATE_IDLE 500)"

lemmas track_example_defs = track_example_def track.defs motion_example_def motion.defs encoder.defs
  encoder_example_def

lemma grid_nonzero:
  assumes "hcics_track_target_to_grid n = Some (row, col)"
  shows "1 \<le> unat row" "1 \<le> unat col" "unat row \<le> 3" "unat col \<le> 3" "1 \<le> n" "n \<le> 9"
proof -
  have n: "1 \<le> n" "n \<le> 9"
    using assms by (simp_all add: hcics_track_target_to_grid_def track_grid_defs not_less word_le_nat_alt
        Suc_le_eq unat_gt_0 split: if_splits)
  then show "1 \<le> n" "n \<le> 9" .
  show "1 \<le> unat row" "1 \<le> unat col" "unat row \<le> 3" "unat col \<le> 3"
    using grid_of_target [OF n] assms by auto
qed

text \<open>A plan to a target, walked from any pose.\<close>

fun step_by :: "int \<Rightarrow> pose \<Rightarrow> pose" where
  "step_by n (r, c, North) = (r + n, c, North)"
| "step_by n (r, c, East) = (r, c + n, East)"
| "step_by n (r, c, South) = (r - n, c, South)"
| "step_by n (r, c, West) = (r, c - n, West)"

fun turn_right :: "pose \<Rightarrow> pose" where
  "turn_right (r, c, h) = (r, c, right_of h)"

lemma walk_forward_any: "walk p (replicate n HCICS_TRACK_ACTION_FORWARD) = step_by (int n) p"
  by (cases p rule: step_by.cases [of "(0, p)" for p, simplified]) simp_all

lemma walk_to_target_any:
  "1 \<le> col \<Longrightarrow> walk p (to_target row col) = step_by (int col - 1) (turn_right (step_by (int row) p))"
  by (cases p; cases "snd (snd p)") (simp_all add: to_target_def walk_forward_any of_nat_diff)

lemma walk_to_target_iff:
  assumes "1 \<le> col"
  shows "walk p (to_target row col) = (int row, int col, East) \<longleftrightarrow> p = dock"
proof -
  obtain r c h where p: "p = (r, c, h)" by (cases p)
  show ?thesis
    using assms by (cases h) (auto simp: walk_to_target_any p dock_def)
qed

lemma vc_plan_to_target:
  assumes "1 \<le> n" "n \<le> 9"
    and "\<And>row col t. \<lbrakk>hcics_track_target_to_grid n = Some (row, col);
      planned t = to_target (unat row) (unat col); path_destination (tr_planned_path t) = n\<rbrakk> \<Longrightarrow> Q RT_EOK t"
  shows "wp (hcics_track_plan_path n) Q s"
proof -
  have "n \<noteq> 0" using assms(1) by auto
  then show ?thesis
    unfolding hcics_track_plan_path_def
    by (intro vc vc_build_to_target [OF assms(1,2)] assms(3))
      (simp_all add: plan_ok_zero track_grid_defs plan_ok_planned)
qed

text \<open>
  C28: The planner's route leads to the panel. For every panel number the planner succeeds, and
  the route, walked on the grid from the dock, ends at the row and column that the fault protocol
  gives that number, facing along the row; it ends with the stop at the panel, takes at most 8 steps
  of the 16 there is room for, and has the panel as its destination.
\<close>

theorem track_plan_reaches_target:
  assumes "1 \<le> n" and "n \<le> 9"
  shows "wp (hcics_track_plan_path n) (\<lambda>r t. r = RT_EOK \<and>
     (\<exists>row col. hcics_fault_id_to_grid (uint n) = Some (row, col) \<and>
        walk dock (planned t) = (row, col, East)) \<and>
     last (planned t) = HCICS_TRACK_ACTION_STOP_AT_TARGET \<and> length (planned t) \<le> 8 \<and>
     path_destination (tr_planned_path t) = n) s"
proof (rule vc_plan_to_target [OF assms])
  fix row col and t :: "'a track_scheme"
  assume g: "hcics_track_target_to_grid n = Some (row, col)"
    and t: "planned t = to_target (unat row) (unat col)" "path_destination (tr_planned_path t) = n"
  note b = grid_nonzero [OF g]
  show "RT_EOK = RT_EOK \<and>
     (\<exists>row col. hcics_fault_id_to_grid (uint n) = Some (row, col) \<and>
        walk dock (planned t) = (row, col, East)) \<and>
     last (planned t) = HCICS_TRACK_ACTION_STOP_AT_TARGET \<and> length (planned t) \<le> 8 \<and>
     path_destination (tr_planned_path t) = n"
    using fault_grid_agrees [OF g assms] walk_to_target [OF b(2)] b
    by (simp add: t) (simp add: to_target_def)
qed

theorem track_plan_reaches_target_witness:
  "wp (hcics_track_plan_path 8) (\<lambda>r t. r = RT_EOK \<and> path_destination (tr_planned_path t) = 8) track_example"
  by (rule wp_conseq [OF track_plan_reaches_target]) simp_all

text \<open>
  The route home leads home. After a mission to a panel, with the vehicle parked there, the
  planner's way back, walked on the grid from the panel, ends at the dock, and ends with the docking
  delay.
\<close>

lemma track_plan_returns_home:
  assumes "hcics_track_target_to_grid (tr_current_location s) = Some (row, col)"
  shows "wp (hcics_track_plan_path HCICS_TRACK_TARGET_HOME) (\<lambda>r t. r = RT_EOK \<and>
     walk (int (unat row), int (unat col), East) (planned t) = (0, 1, South) \<and>
     last (planned t) = HCICS_TRACK_ACTION_FINISH_DELAY \<and>
     path_destination (tr_planned_path t) = HCICS_TRACK_TARGET_HOME) s"
  using grid_nonzero [OF assms] walk_to_home [of "unat col" "unat row"]
  by (intro vc_plan_path)
    (simp_all add: plan_ok_planned plan_of_def assms track_grid_defs, simp add: to_home_def)

lemma track_plan_returns_home_example:
  "wp (hcics_track_plan_path HCICS_TRACK_TARGET_HOME) (\<lambda>r t. r = RT_EOK \<and>
     path_destination (tr_planned_path t) = HCICS_TRACK_TARGET_HOME)
     (track_example\<lparr>tr_current_location := 8\<rparr>)"
  by (rule wp_conseq [OF track_plan_returns_home [of _ 3 2]])
    (simp_all add: hcics_track_target_to_grid_def track_grid_defs)



section \<open>Starting a path\<close>

lemma vc_plan_rejected:
  assumes "9 < n"
    and "\<And>t. \<lbrakk>tr_running t = tr_running s; tr_finished t = tr_finished s; tr_path t = tr_path s;
      planned t = []\<rbrakk> \<Longrightarrow> Q (- RT_EINVAL) t"
  shows "wp (hcics_track_plan_path n) Q s"
proof -
  have "n \<noteq> 0" "hcics_track_target_to_grid n = None"
    using assms(1) by (auto simp: hcics_track_target_to_grid_def track_grid_defs)
  then show ?thesis
    unfolding hcics_track_plan_path_def hcics_track_build_to_target_def
    by (intro vc) (simp_all add: track_grid_defs vc_ret assms(2) planned_def track_zero_path_def)
qed

text \<open>
  Starting a path. Without an initialised module and a motor callback nothing changes; without
  a fresh camera frame the start is refused; a target beyond the panels is refused, and leaves an
  empty plan. Otherwise the module runs the plan for the target from its first step, in line
  mode and with the node cooldown already over.
\<close>

lemma track_start_outcome:
  assumes "tr_current_location s \<le> 9"
  shows "wp (hcics_track_start_path n) (\<lambda>r t.
     if \<not> (tr_initialized s \<and> tr_set_motor s) then r = - RT_ENOSYS \<and> t = s
     else if \<not> hcics_track_target_recent (tr_camera s) (clock s)
     then r = - RT_ETIMEOUT \<and> tr_running t = tr_running s \<and> planned t = planned s
     else if 9 < n then r = - RT_EINVAL \<and> tr_running t = tr_running s \<and> planned t = []
     else r = RT_EOK \<and> track_wf t \<and> track_abs t = (Ph_Line, plan_of (tr_current_location s) n) \<and>
       path_destination (tr_planned_path t) = n \<and> tr_current_location t = tr_current_location s \<and>
       \<not> tr_finished t \<and> tr_last_node_ms t = clock s - s_current_cooldown_ms s \<and>
       s_current_cooldown_ms t = s_current_cooldown_ms s) s"
  unfolding hcics_track_start_path_def hcics_track_motor_ready_def
  apply (intro vc)
     apply simp
    apply (simp add: planned_def)
   apply (cases "9 < n")
    apply (rule vc_plan_rejected)
     apply (simp_all add: wp)
    apply (simp add: planned_def)
  apply (rule vc_plan_path)
  using assms
  apply (simp_all add: wp not_less track_abs_defs plan_ok_def)
  done

lemma track_start_outcome_example:
  "wp (hcics_track_start_path 6) (\<lambda>r t. r = - RT_ETIMEOUT)
     (track_example\<lparr>tr_camera := \<lparr>cam_mode = 0, cam_x = 0, cam_y = 0, cam_width = 0, cam_type = 0,
        cam_tick = 0\<rparr>\<rparr>)"
  by (rule wp_conseq [OF track_start_outcome])
    (simp_all add: track_example_defs hcics_track_target_recent_def HCICS_CAM_MODE_TRACK_def split: if_splits)

section \<open>Runs\<close>

datatype track_event = Tk_Tick u32 | Tk_Camera hcics_camera_target

fun track_do :: "'a track_scheme motor \<Rightarrow> track_event \<Rightarrow> ('a track_scheme, unit) state" where
  "track_do mot (Tk_Tick now) = hcics_track_tick mot now"
| "track_do mot (Tk_Camera target) = hcics_track_update_camera target"

fun track_play :: "'a track_scheme motor \<Rightarrow> track_event list \<Rightarrow> ('a track_scheme, unit) state" where
  "track_play mot [] = ret ()"
| "track_play mot (e # es) = do { track_do mot e; track_play mot es }"

lemma play_invariant:
  assumes "\<And>e s. e \<in> set es \<Longrightarrow> I s \<Longrightarrow> wp (track_do mot e) (\<lambda>_. I) s" and "I s"
  shows "wp (track_play mot es) (\<lambda>_. I) s"
  using assms
proof (induction es arbitrary: s)
  case (Cons e es)
  then show ?case
    by (simp add: wp_bind) (rule wp_conseq [of _ "\<lambda>_. I"]; simp)
qed (simp add: wp)

text \<open>The end of the plan is where its only stop is.\<close>

fun is_end :: "hcics_track_action \<Rightarrow> bool" where
  "is_end HCICS_TRACK_ACTION_FINISH_DELAY = True"
| "is_end HCICS_TRACK_ACTION_STOP_AT_TARGET = True"
| "is_end _ = False"

fun sched_ok :: "track_phase \<times> hcics_track_action list \<Rightarrow> bool" where
  "sched_ok (Ph_Done, as) \<longleftrightarrow> as = []"
| "sched_ok (Ph_Acting a e, as) \<longleftrightarrow> (is_end a \<longrightarrow> as = []) \<and> (\<forall>b \<in> set (butlast as). \<not> is_end b)"
| "sched_ok (_, as) \<longleftrightarrow> (\<forall>b \<in> set (butlast as). \<not> is_end b)"

lemma sched_step_ok: "sched_ok p \<Longrightarrow> sched_ok (sched_step seen now p)"
proof (induction seen now p rule: sched_step.induct)
  case (2 seen now a as)
  then show ?case
    by (cases a; cases as) (auto split: if_splits)
qed (auto split: if_splits)

lemma sched_step_suffix: "\<exists>made. snd p = made @ snd (sched_step seen now p)"
  by (induction seen now p rule: sched_step.induct)
    (auto intro: exI [of _ "[]"] exI [of _ "[a]" for a])

lemma sched_step_running:
  "fst p \<noteq> Ph_Idle \<Longrightarrow> fst (sched_step seen now p) \<noteq> Ph_Idle"
proof (induction seen now p rule: sched_step.induct)
  case (2 seen now a as)
  then show ?case by (cases a) auto
qed (auto split: if_splits)

lemma plan_of_ok: "sched_ok (Ph_Line, plan_of loc n)"
  by (auto simp: plan_of_def to_home_def to_target_def butlast_append split: option.splits)


text \<open>A path from \<open>loc\<close> to \<open>n\<close> under way, or finished at \<open>n\<close>.\<close>

definition track_goal :: "u8 \<Rightarrow> u8 \<Rightarrow> 'a track_scheme \<Rightarrow> bool" where
  "track_goal loc n s \<longleftrightarrow> tr_path s \<and> path_destination (tr_planned_path s) = n \<and>
     tr_current_location s = (if tr_finished s then n else loc) \<and> (tr_finished s \<longrightarrow> \<not> tr_running s)"

lemma track_goal_view: "track_view t = track_view s \<Longrightarrow> track_goal loc n t = track_goal loc n s"
  by (simp add: track_view_def track_goal_def)

text \<open>What every event keeps.\<close>

definition under_way :: "u8 \<Rightarrow> u8 \<Rightarrow> hcics_track_action list \<Rightarrow> 'a track_scheme \<Rightarrow> bool" where
  "under_way loc n acts s \<longleftrightarrow> track_wf s \<and> track_goal loc n s \<and> sched_ok (track_abs s) \<and>
     fst (track_abs s) \<noteq> Ph_Idle \<and> (\<exists>made. acts = made @ track_rest s)"

lemma under_way_facts:
  assumes "under_way loc n acts s"
  shows "(\<exists>made. acts = made @ track_rest s) \<and> (if tr_finished s then track_rest s = [] \<and> tr_current_location s = n
      else tr_running s \<and> tr_current_location s = loc)"
  using assms
  by (auto simp: under_way_def track_goal_def track_abs_def track_phase_of_def split: if_splits)

context track_motor begin

lemma goal_motion_set: "track_goal loc n s \<Longrightarrow> wp (hcics_track_motion_set mot l r) (\<lambda>_. track_goal loc n) s"
  by (rule vc_motion_set) (rule track_goal_view [THEN iffD2])

lemma goal_finish:
  "track_goal loc n s \<Longrightarrow> wp (hcics_track_finish_path mot now) (\<lambda>_. track_goal loc n) s"
  unfolding hcics_track_finish_path_def
  by (intro vc goal_motion_set) (simp add: track_goal_def)

lemma goal_timed: "track_goal loc n s \<Longrightarrow> wp (track_timed mot e st l r) (\<lambda>_. track_goal loc n) s"
  unfolding track_timed_def
  by (intro vc goal_motion_set) (simp add: track_goal_def)

lemma goal_begin:
  "track_goal loc n s \<Longrightarrow> wp (hcics_track_begin_action mot step now) (\<lambda>_. track_goal loc n) s"
  unfolding hcics_track_begin_action_def
  by (intro vc, cases "step_action step"; simp; intro vc goal_timed goal_finish)
    (simp_all add: track_goal_def)

lemma goal_line:
  "track_goal loc n s \<Longrightarrow> wp (hcics_track_apply_line_follow mot now) (\<lambda>_. track_goal loc n) s"
  unfolding hcics_track_apply_line_follow_def
  by (intro vc goal_motion_set) (simp_all add: track_goal_def)

lemma goal_complete:
  "track_goal loc n s \<Longrightarrow> wp (hcics_track_complete_action mot now) (\<lambda>_. track_goal loc n) s"
  unfolding hcics_track_complete_action_def
  by (intro vc goal_motion_set goal_finish) (simp_all add: track_goal_def)

lemma goal_accept:
  "track_goal loc n s \<Longrightarrow> wp (hcics_track_accept_node mot now) (\<lambda>_. track_goal loc n) s"
  unfolding hcics_track_accept_node_def
  by (intro vc goal_finish goal_begin) (simp_all add: track_goal_def)

lemma vc_node_seen:
  "(\<And>b. Q b s) \<Longrightarrow> wp (hcics_track_node_seen target now) Q s"
  unfolding hcics_track_node_seen_def by (intro vc) simp_all

lemma goal_out: "track_goal loc n s \<Longrightarrow> wp (hw_out c) (\<lambda>_. track_goal loc n) s"
  by (simp add: wp track_goal_def)

lemma goal_tick: "track_goal loc n s \<Longrightarrow> wp (hcics_track_tick mot now) (\<lambda>_. track_goal loc n) s"
  unfolding hcics_track_tick_def
  by (intro vc vc_node_seen wp_conseq [OF goal_complete] wp_conseq [OF goal_accept]
      wp_conseq [OF goal_line]) (simp_all add: track_goal_def)

lemma camera_keeps:
  "wp (hcics_track_update_camera target) (\<lambda>_ t. track_wf t = track_wf s \<and> track_abs t = track_abs s \<and>
     track_goal loc n t = track_goal loc n s \<and> planned t = planned s) s"
  unfolding hcics_track_update_camera_def
  by (intro vc) (simp_all add: track_goal_def track_abs_defs)

lemma under_way_do:
  assumes "under_way loc n acts s"
  shows "wp (track_do mot e) (\<lambda>_. under_way loc n acts) s"
proof (cases e)
  case (Tk_Camera target)
  then show ?thesis
    using assms by (auto simp: under_way_def track_abs_def intro!: wp_conseq [OF camera_keeps [of target s loc n]])
next
  case (Tk_Tick now)
  have s: "track_wf s" "track_goal loc n s" "sched_ok (track_abs s)" "fst (track_abs s) \<noteq> Ph_Idle"
    "\<exists>made. acts = made @ snd (track_abs s)"
    using assms by (simp_all add: under_way_def track_abs_def)
  have "wp (hcics_track_tick mot now) (\<lambda>_ t.
      (track_wf t \<and> track_abs t = sched_step (track_seen now s) now (track_abs s)) \<and> track_goal loc n t) s"
    unfolding wp_conj [where R = "\<lambda>_. track_goal loc n"]
    by (intro conjI tick_abs [OF s(1)] goal_tick [OF s(2)])
  then show ?thesis
    unfolding Tk_Tick track_do.simps
  proof (rule wp_conseq)
    fix a t
    assume t: "(track_wf t \<and> track_abs t = sched_step (track_seen now s) now (track_abs s)) \<and> track_goal loc n t"
    obtain m where "snd (track_abs s) = m @ snd (sched_step (track_seen now s) now (track_abs s))"
      using sched_step_suffix by blast
    then have "\<exists>made. acts = made @ snd (track_abs t)"
      using s(5) t by (auto intro: exI [of _ "_ @ m"])
    then show "under_way loc n acts t"
      using t s(3,4) sched_step_ok sched_step_running by (auto simp: under_way_def track_abs_def)
  qed
qed

end


text \<open>
  C26: A tick refines the step of the abstract scheduler. Under any motor callback that leaves the
  module's own fields alone, a tick keeps the module's state well formed and does to its
  abstraction, the phase and the steps still to be made, exactly what the scheduler does, where
  the node predicate of the code says whether a node mark is seen.
\<close>

theorem track_tick_refines:
  fixes mot :: "'a track_scheme motor"
  assumes "track_motor mot" and "track_wf s"
  shows "wp (hcics_track_tick mot now) (\<lambda>_ t. track_wf t \<and>
     track_abs t = sched_step (track_seen now s) now (track_abs s)) s"
  by (rule track_motor.tick_abs [OF assms])

theorem track_tick_refines_witness:
  "track_wf (snd (run_state (hcics_track_tick record_motor 7) track_example))"
  using track_tick_refines [OF recorded.track_motor_axioms, of track_example 7]
  by (simp add: wp_run track_example_defs track_wf_def)

lemma start_ok:
  assumes "tr_current_location s \<le> 9" and "n \<le> 9"
    and "run_state (hcics_track_start_path n) s = (RT_EOK, t)"
  shows "track_wf t" "track_abs t = (Ph_Line, plan_of (tr_current_location s) n)"
    "path_destination (tr_planned_path t) = n" "tr_current_location t = tr_current_location s"
    "\<not> tr_finished t" "tr_last_node_ms t = clock s - s_current_cooldown_ms s"
    "s_current_cooldown_ms t = s_current_cooldown_ms s"
  using wpD [OF track_start_outcome [OF assms(1)] assms(3)] assms(2)
  by (simp_all add: rt_err_distinct [symmetric] split: if_splits)

lemma start_under_way:
  assumes "tr_current_location s \<le> 9" and "n \<le> 9"
    and "run_state (hcics_track_start_path n) s = (RT_EOK, t)"
  shows "under_way (tr_current_location s) n (plan_of (tr_current_location s) n) t"
proof -
  note t = start_ok [OF assms]
  then have "track_phase_of t = Ph_Line" "track_rest t = plan_of (tr_current_location s) n"
    by (simp_all add: track_abs_def)
  then show ?thesis
    using t plan_of_ok [of "tr_current_location s" n]
    by (auto simp: under_way_def track_goal_def track_wf_def track_phase_of_def split: if_splits)
qed

lemma loc_example: "tr_current_location track_example \<le> 9"
  by (simp add: track_example_defs)

lemma start_example: "n \<le> 9 \<Longrightarrow> fst (run_state (hcics_track_start_path n) track_example) = RT_EOK"
  using wp_stateI [OF track_start_outcome [OF loc_example, of n]]
  by (simp add: track_example_defs hcics_track_target_recent_def HCICS_CAM_MODE_TRACK_def
      HCICS_TRACK_MIN_TARGET_W_def HCICS_TRACK_TARGET_STALE_MS_def split: if_splits)

text \<open>
  C27: A path is driven in order to its end. After a successful start towards \<open>n\<close>, whatever camera
  frames arrive and whenever the ticks run, the module has always made a first part of its plan
  and the rest is still to come; it says it has finished only when no step is left, and then its
  location is \<open>n\<close>; until then it keeps running and its location is the old one.
\<close>

theorem track_run_in_order:
  fixes mot :: "'a track_scheme motor"
  assumes "track_motor mot" and "tr_current_location s \<le> 9" and "n \<le> 9"
    and "run_state (hcics_track_start_path n) s = (RT_EOK, t)"
  shows "wp (track_play mot es) (\<lambda>_ u. (\<exists>made. plan_of (tr_current_location s) n = made @ track_rest u) \<and>
     (if tr_finished u then track_rest u = [] \<and> tr_current_location u = n
      else tr_running u \<and> tr_current_location u = tr_current_location s)) t"
proof -
  let ?loc = "tr_current_location s" and ?plan = "plan_of (tr_current_location s) n"
  note start = start_under_way [OF assms(2-4)]
  show ?thesis
  proof (rule wp_conseq [OF play_invariant [where I = "under_way ?loc n ?plan"]])
    show "wp (track_do mot e) (\<lambda>_. under_way ?loc n ?plan) u" if "under_way ?loc n ?plan u" for e u
      using that by (rule track_motor.under_way_do [OF assms(1)])
    show "under_way ?loc n ?plan t" by (rule start)
  qed (rule under_way_facts)
qed


theorem track_run_in_order_witness:
  "wp (track_play record_motor [Tk_Tick 5, Tk_Tick 10])
     (\<lambda>_ u. tr_finished u \<longrightarrow> tr_current_location u = 6)
     (snd (run_state (hcics_track_start_path 6) track_example))"
proof -
  show ?thesis
    using start_example [of 6] track_run_in_order [OF recorded.track_motor_axioms loc_example, of 6
        "snd (run_state (hcics_track_start_path 6) track_example)" "[Tk_Tick 5, Tk_Tick 10]"]
    by (simp add: prod_eq_iff wp_run split: if_splits)
qed


section \<open>Paths are completed\<close>

text \<open>Time passes: each moment is 1200 ms or more after the one before, and never the tick 0.\<close>

fun spaced :: "u32 \<Rightarrow> u32 list \<Rightarrow> bool" where
  "spaced p [] = True"
| "spaced p (now # ts) \<longleftrightarrow> now \<noteq> 0 \<and> 1200 \<le> now - p \<and> now - p < 2000000000 \<and> spaced now ts"

definition node_frame :: "u32 \<Rightarrow> hcics_camera_target" where
  "node_frame now =
     \<lparr>cam_mode = 1, cam_x = 80, cam_y = 60, cam_width = 100, cam_type = 3, cam_tick = now\<rparr>"

definition node_at :: "u32 \<Rightarrow> track_event list" where
  "node_at now = [Tk_Camera (node_frame now), Tk_Tick now]"

fun work_left :: "track_phase \<times> hcics_track_action list \<Rightarrow> nat" where
  "work_left (Ph_Line, as) = 2 * length as + 1"
| "work_left (Ph_Acting a e, as) = 2 * length as + 2"
| "work_left (_, as) = 0"

fun live_phase :: "u32 \<Rightarrow> u32 \<Rightarrow> track_phase \<Rightarrow> bool" where
  "live_phase p node Ph_Line \<longleftrightarrow> node = p \<or> node = p - 500"
| "live_phase p node (Ph_Acting a e) \<longleftrightarrow> e = p + action_duration a"
| "live_phase p node Ph_Done \<longleftrightarrow> True"
| "live_phase p node Ph_Idle \<longleftrightarrow> False"

definition live :: "u32 \<Rightarrow> 'a track_scheme \<Rightarrow> bool" where
  "live p s \<longleftrightarrow> track_wf s \<and> s_current_cooldown_ms s = 500 \<and> live_phase p (tr_last_node_ms s) (track_phase_of s)"

lemma action_duration_le: "action_duration a \<le> 1200"
  by (cases a) simp_all

lemma later_node:
  assumes "1200 \<le> now - p" "now - p < (2000000000 :: u32)" "node = p \<or> node = p - 500"
  shows "\<not> now - node < 500"
proof -
  define x where "x = now - p"
  have x: "1200 \<le> unat x" "unat x < 2000000000"
    using assms(1,2) by (simp_all add: x_def word_le_nat_alt word_less_nat_alt)
  have "unat (x + 500) = unat x + 500"
    using x by (simp add: unat_word_ariths)
  moreover have "now - node = x + 500 \<or> now - node = x"
    using assms(3) by (auto simp: x_def)
  ultimately show ?thesis
    using x(1) by (elim disjE) (simp_all add: word_less_nat_alt)
qed

lemma later_end:
  assumes "1200 \<le> now - p" "now - p < (2000000000 :: u32)" "d \<le> 1200"
  shows "\<not> sint (now - (p + d)) < 0"
proof -
  define x where "x = now - p"
  have x: "1200 \<le> unat x" "unat x < 2000000000" "unat d \<le> 1200"
    using assms by (simp_all add: x_def word_le_nat_alt word_less_nat_alt)
  have "unat (x - d) = unat x - unat d"
    using x by (intro unat_sub) (simp add: word_le_nat_alt)
  moreover have d: "now - (p + d) = x - d"
    by (simp add: x_def)
  ultimately have "unat (now - (p + d)) < 2000000000"
    unfolding d using x(2) by simp
  then have "uint (now - (p + d)) < 2000000000"
    by (simp only: uint_nat)
  then have "sint (now - (p + d)) = uint (now - (p + d))"
    unfolding sint_uint
    by (intro signed_take_bit_int_eq_self order_trans [OF _ uint_nonnegative]) simp_all
  then show ?thesis
    by simp
qed


text \<open>What a tick does to the time of the last node mark.\<close>

definition cooled :: "hcics_camera_target \<Rightarrow> 'a track_scheme \<Rightarrow> bool" where
  "cooled cam s \<longleftrightarrow> s_current_cooldown_ms s = 500 \<and> tr_camera s = cam"

definition node_now :: "hcics_camera_target \<Rightarrow> u32 \<Rightarrow> 'a track_scheme \<Rightarrow> bool" where
  "node_now cam now s \<longleftrightarrow> cooled cam s \<and> (tr_running s \<longrightarrow> tr_action_active s \<or> tr_last_node_ms s = now)"

lemma track_seen_tick [simp]: "track_seen now (s\<lparr>tr_last_tick_ms := t\<rparr>) = track_seen now s"
  by (simp add: track_seen_def hcics_track_node_seen_def Let_def)

lemma vc_seen:
  assumes "tr_camera s = camera" and "Q (track_seen now s) s"
  shows "wp (hcics_track_node_seen camera now) Q s"
  by (rule wpI [where Q = Q, OF _ assms(2)]) (simp add: run_node_seen flip: assms(1))

fun on_time :: "u32 \<Rightarrow> track_phase \<Rightarrow> bool" where
  "on_time now (Ph_Acting a e) \<longleftrightarrow> e = now + action_duration a"
| "on_time now Ph_Idle \<longleftrightarrow> False"
| "on_time now ph \<longleftrightarrow> True"

lemma begin_on_time: "on_time now (sched_begin now a)"
  by (cases a) simp_all

lemma begin_work: "work_left (sched_begin now a, as) \<le> 2 * length as + 2"
  by (cases a) simp_all

lemma sched_progress:
  assumes "ph \<noteq> Ph_Idle" "ph = Ph_Line \<Longrightarrow> seen" "\<And>a e. ph = Ph_Acting a e \<Longrightarrow> \<not> sint (now - e) < 0"
  shows "(work_left (sched_step seen now (ph, as)) < work_left (ph, as) \<or>
      fst (sched_step seen now (ph, as)) = Ph_Done) \<and> on_time now (fst (sched_step seen now (ph, as)))"
proof (cases ph)
  case Ph_Line
  then show ?thesis
    using assms(2) begin_on_time begin_work
    by (cases as) (auto simp: less_Suc_eq_le intro!: disjI1 order_trans [OF begin_work])
qed (use assms in auto)

context track_motor begin

lemma on_time_live:
  "node_now cam now t \<Longrightarrow> on_time now (track_phase_of t) \<Longrightarrow> live_phase now (tr_last_node_ms t) (track_phase_of t)"
  by (auto simp: node_now_def cooled_def track_phase_of_def split: if_splits)

lemma node_now_motion_set:
  "node_now cam now s \<Longrightarrow> wp (hcics_track_motion_set mot l r) (\<lambda>_. node_now cam now) s"
  by (rule vc_motion_set) (simp add: track_view_def node_now_def cooled_def)

lemma node_now_finish:
  "cooled cam s \<Longrightarrow> wp (hcics_track_finish_path mot now) (\<lambda>_. node_now cam now) s"
  unfolding hcics_track_finish_path_def
  by (intro vc node_now_motion_set) (simp add: node_now_def cooled_def)

lemma node_now_timed:
  "cooled cam s \<Longrightarrow> wp (track_timed mot e st l r) (\<lambda>_. node_now cam now) s"
  unfolding track_timed_def
  by (intro vc node_now_motion_set) (simp add: node_now_def cooled_def)

lemma node_now_begin:
  "cooled cam s \<Longrightarrow> wp (hcics_track_begin_action mot step now) (\<lambda>_. node_now cam now) s"
  unfolding hcics_track_begin_action_def
  by (intro vc, cases "step_action step"; simp; intro vc node_now_timed node_now_finish)
    (simp_all add: node_now_def cooled_def)

lemma node_now_accept:
  "cooled cam s \<Longrightarrow> wp (hcics_track_accept_node mot now) (\<lambda>_. node_now cam now) s"
  unfolding hcics_track_accept_node_def
  by (intro vc node_now_finish node_now_begin) (simp_all add: cooled_def)

lemma node_now_complete:
  "cooled cam s \<Longrightarrow> tr_action_active s \<Longrightarrow> wp (hcics_track_complete_action mot now) (\<lambda>_. node_now cam now) s"
  unfolding hcics_track_complete_action_def
  by (intro vc node_now_finish node_now_motion_set) (simp_all add: node_now_def cooled_def)

lemma node_now_tick:
  assumes "cooled cam s" "tr_initialized s"
    and "tr_running s \<Longrightarrow> tr_action_active s \<or> track_seen now s"
  shows "wp (hcics_track_tick mot now) (\<lambda>_. node_now cam now) s"
  unfolding hcics_track_tick_def
  by (intro vc vc_seen wp_conseq [OF node_now_complete] wp_conseq [OF node_now_accept])
    (use assms in \<open>simp_all add: node_now_def cooled_def\<close>)


lemma live_tick:
  assumes "live p s" "tr_camera s = node_frame now" "spaced p [now]"
  shows "wp (hcics_track_tick mot now) (\<lambda>_ t. live now t \<and>
     (work_left (track_abs t) < work_left (track_abs s) \<or> fst (track_abs t) = Ph_Done)) s"
proof -
  have s: "track_wf s" "s_current_cooldown_ms s = 500" "live_phase p (tr_last_node_ms s) (track_phase_of s)"
    "now \<noteq> 0" "1200 \<le> now - p" "now - p < 2000000000"
    using assms(1,3) by (simp_all add: live_def)
  have init: "tr_initialized s"
    using s(1) by (simp add: track_wf_def)
  have seen: "track_seen now s" if "tr_running s" "\<not> tr_action_active s"
  proof -
    have "tr_last_node_ms s = p \<or> tr_last_node_ms s = p - 500"
      using s(3) that by (simp add: track_phase_of_def)
    from later_node [OF s(5,6) this] s(4) show ?thesis
      by (simp add: track_seen_def hcics_track_node_seen_def hcics_track_target_recent_def assms(2) s(2)
          node_frame_def HCICS_CAM_MODE_TRACK_def track_width_defs track_time_defs Let_def)
  qed
  have ended: "\<not> sint (now - e) < 0" if "track_phase_of s = Ph_Acting a e" for a e
    using s(3) that later_end [OF s(5,6) action_duration_le] by simp
  have step: "live_phase now (tr_last_node_ms t) (track_phase_of t) \<and>
      (work_left (track_abs t) < work_left (track_abs s) \<or> fst (track_abs t) = Ph_Done)"
    if n: "node_now (node_frame now) now t" and t: "track_abs t = sched_step (track_seen now s) now (track_abs s)" for t
  proof -
    let ?q = "sched_step (track_seen now s) now (track_phase_of s, track_rest s)"
    have q: "track_phase_of t = fst ?q" "track_abs t = ?q"
      using t by (simp_all add: track_abs_def prod_eq_iff)
    have "(work_left ?q < work_left (track_phase_of s, track_rest s) \<or> fst ?q = Ph_Done) \<and>
        on_time now (fst ?q)"
      by (rule sched_progress) (use s(3) seen ended in \<open>auto simp: track_phase_of_def split: if_splits\<close>)
    then show ?thesis
      using on_time_live [OF n] by (simp add: q(2)) (simp add: q(1) track_abs_def)
  qed
  have "wp (hcics_track_tick mot now) (\<lambda>_ t.
      (track_wf t \<and> track_abs t = sched_step (track_seen now s) now (track_abs s)) \<and> node_now (node_frame now) now t) s"
    unfolding wp_conj [where R = "\<lambda>_. node_now (node_frame now) now"]
    by (intro conjI tick_abs [OF s(1)] node_now_tick) (use s(2) assms(2) init seen in \<open>auto simp: cooled_def\<close>)
  then show ?thesis
  proof (rule wp_conseq)
    fix a t
    assume t: "(track_wf t \<and> track_abs t = sched_step (track_seen now s) now (track_abs s)) \<and> node_now (node_frame now) now t"
    then have "s_current_cooldown_ms t = 500"
      by (simp add: node_now_def cooled_def)
    then show "live now t \<and> (work_left (track_abs t) < work_left (track_abs s) \<or> fst (track_abs t) = Ph_Done)"
      using t step [of t] by (simp add: live_def)
  qed
qed


lemma live_node_at:
  assumes "live p s" "spaced p [now]"
  shows "wp (track_play mot (node_at now)) (\<lambda>_ t. live now t \<and>
     (work_left (track_abs t) < work_left (track_abs s) \<or> fst (track_abs t) = Ph_Done)) s"
proof -
  have init: "tr_initialized s"
    using assms(1) by (simp add: live_def track_wf_def)
  let ?s = "s\<lparr>trace := Mutex_Release ''htrk'' # Mutex_Take ''htrk'' # trace s, tr_camera := node_frame now,
      tr_target_locked := True\<rparr>"
  have cam: "run_state (hcics_track_update_camera (node_frame now)) s = ((), ?s)"
    using init by (simp add: hcics_track_update_camera_def node_frame_def HCICS_CAM_MODE_TRACK_def
        HCICS_TRACK_MIN_TARGET_W_def)
  have "track_wf ?s = track_wf s" "track_phase_of ?s = track_phase_of s" "track_rest ?s = track_rest s"
    by (simp_all add: track_abs_defs)
  then have "live p ?s" "track_abs ?s = track_abs s"
    using assms(1) by (simp_all add: live_def track_abs_def)
  with live_tick [OF this(1) _ assms(2)] show ?thesis
    by (simp add: node_at_def wp_bind wp_ret) (simp add: wp_def cam)
qed

lemma play_append: "track_play mot (es @ fs) = do { track_play mot es; track_play mot fs }"
  by (induction es) simp_all

lemma live_play:
  assumes "live p s" "spaced p ts" "work_left (track_abs s) \<le> length ts"
  shows "wp (track_play mot (concat (map node_at ts))) (\<lambda>_ t. fst (track_abs t) = Ph_Done) s"
  using assms
proof (induction ts arbitrary: p s)
  case Nil
  then show ?case
    by (cases "fst (track_abs s)"; cases "track_abs s") (auto simp: wp live_def track_abs_def)
next
  case (Cons now ts)
  have now: "spaced p [now]" "spaced now ts"
    using Cons.prems(2) by simp_all
  have none_left: "work_left (track_abs t) = 0" if "fst (track_abs t) = Ph_Done" for t :: "'a track_scheme"
    using that by (cases "track_abs t") simp
  show ?case
    unfolding list.map concat.simps play_append wp_bind
  proof (rule wp_conseq [OF live_node_at [OF Cons.prems(1) now(1)]])
    fix a and t :: "'a track_scheme"
    assume "live now t \<and> (work_left (track_abs t) < work_left (track_abs s) \<or> fst (track_abs t) = Ph_Done)"
    then show "wp (track_play mot (concat (map node_at ts))) (\<lambda>_ t. fst (track_abs t) = Ph_Done) t"
      using Cons.prems(3) now(2) none_left [of t] by (intro Cons.IH [of now]) auto
  qed
qed

end


text \<open>
  C29: Paths are completed. After a start towards \<open>n\<close>, if the camera sees a node mark at every one of
  a list of moments 1.2 s or more apart and the module ticks after each, then after twice as many
  moments as the plan has steps, and one more, the path is finished and the location is \<open>n\<close>,
  also across a wrap-around of the tick counter.
\<close>

theorem track_path_completes:
  fixes mot :: "'a track_scheme motor"
  assumes "track_motor mot" and "tr_current_location s \<le> 9" and "n \<le> 9"
    and "s_current_cooldown_ms s = 500"
    and "run_state (hcics_track_start_path n) s = (RT_EOK, t)"
    and "spaced (clock s) ts" and "2 * length (plan_of (tr_current_location s) n) < length ts"
  shows "wp (track_play mot (concat (map node_at ts)))
     (\<lambda>_ u. tr_finished u \<and> tr_current_location u = n) t"
proof -
  let ?loc = "tr_current_location s" and ?plan = "plan_of (tr_current_location s) n"
  note t = start_ok [OF assms(2,3,5)]
  have "live (clock s) t"
    using t assms(4) by (simp add: live_def track_abs_def)
  then have "wp (track_play mot (concat (map node_at ts))) (\<lambda>_ u. fst (track_abs u) = Ph_Done) t"
    by (rule track_motor.live_play [OF assms(1) _ assms(6)]) (use t assms(7) in simp)
  moreover have "wp (track_play mot (concat (map node_at ts))) (\<lambda>_. under_way ?loc n ?plan) t"
    by (rule play_invariant)
      (simp_all add: track_motor.under_way_do [OF assms(1)] start_under_way [OF assms(2,3,5)])
  ultimately have "wp (track_play mot (concat (map node_at ts)))
      (\<lambda>_ u. fst (track_abs u) = Ph_Done \<and> under_way ?loc n ?plan u) t"
    by (simp add: wp_conj)
  then show ?thesis
  proof (rule wp_conseq)
    fix a u assume u: "fst (track_abs u) = Ph_Done \<and> under_way ?loc n ?plan u"
    then have "tr_finished u"
      by (simp add: track_abs_def track_phase_of_def split: if_splits)
    then show "tr_finished u \<and> tr_current_location u = n"
      using under_way_facts [of ?loc n ?plan u] u by simp
  qed
qed


theorem track_path_completes_witness:
  "wp (track_play record_motor (concat (map node_at [2000, 4000, 6000])))
     (\<lambda>_ u. tr_finished u \<and> tr_current_location u = 0)
     (snd (run_state (hcics_track_start_path 0) track_example))"
proof (rule track_path_completes [OF recorded.track_motor_axioms loc_example])
  show "run_state (hcics_track_start_path 0) track_example =
      (RT_EOK, snd (run_state (hcics_track_start_path 0) track_example))"
    using start_example [of 0] by (simp add: prod_eq_iff)
qed (simp_all add: track_example_defs plan_of_def hcics_track_target_to_grid_def track_grid_defs)

text \<open>
  One frame can count as two nodes. A camera frame with a node mark stays in force for 1.5 s, the
  cooldown between nodes is 0.5 s, and nothing notes that a frame has been counted: without any new
  frame, two ticks half a second apart make two steps of the plan.
\<close>

lemma track_frame_counted_twice:
  fixes mot :: "'a track_scheme motor"
  assumes "track_motor mot" and "track_wf s" and "s_current_cooldown_ms s = 500"
    and "track_abs s = (Ph_Line, HCICS_TRACK_ACTION_FORWARD # HCICS_TRACK_ACTION_FORWARD # as)"
    and "tr_camera s = node_frame c" and "c \<noteq> 0" and "now - c \<le> 1000"
    and "500 \<le> now - tr_last_node_ms s"
  shows "wp (track_play mot [Tk_Tick now, Tk_Tick (now + 500)]) (\<lambda>_ t. track_abs t = (Ph_Line, as)) s"
proof -
  have x: "unat (now - c) \<le> 1000"
    using assms(7) by (simp add: word_le_nat_alt)
  then have "unat (now - c + 500) \<le> 1500"
    by (simp add: unat_word_ariths)
  moreover have "now + 500 - c = now - c + 500"
    by simp
  ultimately have recent: "now - c \<le> 1500" "now + 500 - c \<le> 1500"
    using x by (simp_all only: word_le_nat_alt) simp_all
  have line: "tr_running s" "\<not> tr_action_active s" "tr_initialized s"
    using assms(2,4) by (simp_all add: track_abs_def track_phase_of_def track_wf_def split: if_splits)
  have seen: "track_seen t u" if "tr_camera u = node_frame c" "s_current_cooldown_ms u = 500"
    "500 \<le> t - tr_last_node_ms u" "t - c \<le> 1500" for t and u :: "'a track_scheme"
    using that assms(6)
    by (simp add: track_seen_def hcics_track_node_seen_def hcics_track_target_recent_def
        node_frame_def HCICS_CAM_MODE_TRACK_def track_width_defs track_time_defs Let_def not_less)
  have "wp (hcics_track_tick mot now) (\<lambda>_ t.
      (track_wf t \<and> track_abs t = sched_step (track_seen now s) now (track_abs s)) \<and>
      node_now (node_frame c) now t) s"
    unfolding wp_conj [where R = "\<lambda>_. node_now (node_frame c) now"]
    by (intro conjI track_motor.tick_abs [OF assms(1,2)] track_motor.node_now_tick [OF assms(1)])
      (use assms(3,5,8) line seen [of s now] recent in \<open>auto simp: cooled_def\<close>)
  then show ?thesis
    unfolding track_play.simps track_do.simps wp_bind wp_ret
  proof (rule wp_conseq)
    fix a and t :: "'a track_scheme"
    assume t: "(track_wf t \<and> track_abs t = sched_step (track_seen now s) now (track_abs s)) \<and>
      node_now (node_frame c) now t"
    then have a: "track_abs t = (Ph_Line, HCICS_TRACK_ACTION_FORWARD # as)"
      using seen [of s now] assms(3,4,5,8) recent by simp
    then have "tr_running t" "\<not> tr_action_active t"
      by (simp_all add: track_abs_def track_phase_of_def split: if_splits)
    then have "track_seen (now + 500) t"
      using t seen [of t "now + 500"] recent by (simp add: node_now_def cooled_def)
    then show "wp (hcics_track_tick mot (now + 500)) (\<lambda>_ t. track_abs t = (Ph_Line, as)) t"
      by (intro wp_conseq [OF track_motor.tick_abs [OF assms(1) conjunct1 [OF conjunct1 [OF t]]]]) (simp add: a)
  qed
qed

lemma replicate_16: "replicate 16 x = [x, x, x, x, x, x, x, x, x, x, x, x, x, x, x, x]"
  by (simp add: numeral_eq_Suc)

lemma track_frame_counted_twice_example:
  "wp (track_play record_motor [Tk_Tick 1000, Tk_Tick (1000 + 500)])
     (\<lambda>_ t. track_abs t = (Ph_Line, [HCICS_TRACK_ACTION_STOP_AT_TARGET]))
     (track_example\<lparr>tr_running := True, tr_path := True, tr_camera := node_frame 900,
        tr_planned_path := track_zero_path\<lparr>path_len := 3\<rparr>,
        tr_planned_steps := (replicate 16 track_zero_step)
          [2 := \<lparr>step_action = HCICS_TRACK_ACTION_STOP_AT_TARGET, step_name = ''stop''\<rparr>]\<rparr>)"
  by (rule track_frame_counted_twice [OF recorded.track_motor_axioms, of _ _ 900])
    (simp_all add: track_example_defs track_abs_defs plan_ok_def track_zero_path_def track_zero_step_def
      replicate_16)

section \<open>Commands\<close>

lemma recorded_play: "preserves (\<lambda>s. extends (drive_call 150) tr0 (trace s)) (track_play record_motor es)"
proof (induction es)
  case (Cons e es)
  have "preserves (\<lambda>s. extends (drive_call 150) tr0 (trace s)) (track_do record_motor e)"
  proof (cases e)
    case (Tk_Tick now)
    then show ?thesis
      using recorded_150.pres_tick [of tr0 now] by simp
  next
    case (Tk_Camera target)
    then show ?thesis
      unfolding Tk_Camera track_do.simps hcics_track_update_camera_def
      by (intro pres preserves_modify preserves_hw_out) simp_all
  qed
  then show ?case
    unfolding track_play.simps by (intro pres Cons.IH)
qed (simp add: pres)

text \<open>
  The commands to the drive are bounded. Whatever frames and ticks the module sees, in whatever
  state, it never commands a wheel beyond 150, with the float arithmetic of the line follower as
  the processor does it.
\<close>

lemma track_commands_bounded:
  "wp (track_play record_motor es) (\<lambda>_ t. extends (drive_call 150) (trace s) (trace t)) s"
  using preservesD [OF recorded_play, of "trace s" s] by (simp add: wp_run)

text \<open>
  C31: The line follower. With a stale camera it commands exactly 0 on both wheels. With a fresh
  frame it makes one command, within 124, and within 37 when the line is doubtful.
\<close>

theorem track_line_commands:
  assumes "tr_set_motor s"
  shows "wp (hcics_track_apply_line_follow record_motor now) (\<lambda>_ t.
     trace t = Motor_Output (tr_left_cmd t) (tr_right_cmd t) # trace s \<and>
     (if \<not> hcics_track_target_recent (tr_camera s) now then tr_left_cmd t = 0 \<and> tr_right_cmd t = 0
      else \<bar>tr_left_cmd t\<bar> \<le> (if cam_width (tr_camera s) < 32 then 37 else 124) \<and>
        \<bar>tr_right_cmd t\<bar> \<le> (if cam_width (tr_camera s) < 32 then 37 else 124))) s"
proof -
  have motion: "wp (hcics_track_motion_set record_motor l r) Q u"
    if "tr_set_motor u" "Q () (u\<lparr>tr_left_cmd := l, tr_right_cmd := r, trace := Motor_Output l r # trace u\<rparr>)"
    for l r Q and u :: "'a track_scheme"
    using that by (simp add: hcics_track_motion_set_def record_motor_def wp)
  show ?thesis
    unfolding hcics_track_apply_line_follow_def Let_def
    apply (intro vc motion)
    using assms line_commands_sharp [OF refl refl, of True] line_commands_sharp [OF refl refl, of False]
    apply (simp_all add: track_speed_defs HCICS_TRACK_LOW_CONF_W_def)
    done
qed

theorem track_line_commands_witness:
  "wp (hcics_track_apply_line_follow record_motor 5) (\<lambda>_ t. \<bar>tr_left_cmd t\<bar> \<le> 124) track_example"
  by (rule wp_conseq [OF track_line_commands]) (simp_all add: track_example_defs split: if_splits)

end
