(* ===== verification/HcicsCleanerRuns.thy ===== *)
theory HcicsCleanerRuns
  imports HcicsCleanerEnv HcicsTrackRuns
begin

text \<open>
  The properties of the cleaner: outputs within the configuration, the pump, the emergency stop,
  what the results of its phases mean, and the outcomes of its interface.
\<close>

section \<open>An example\<close>

definition cleaner_example :: cleaner where
  "cleaner_example = track.extend (track_example\<lparr>ax_initialized := True, ax_ready := True,
         ax_tx_pin := HCICS_AXIS_SOFT_TX_PIN, trace := [Pin_Write HCICS_CLEANER_RELAY_PIN PIN_HIGH]\<rparr>)
     (cleaner.fields True False False False 0 HCICS_CLEANER_STATE_IDLE 0 3 1860000 2200000
        hcics_cleaner_get_default_config cleaner_no_camera
        \<lparr>gd_tof_mm = 60, gd_tof_valid = True, gd_contact = True, gd_force_stop = False, gd_tick = 1\<rparr> True)"

lemmas cleaner_example_defs = cleaner_example_def cleaner.defs track_example_defs

section \<open>The configuration\<close>

lemma sanitize_ok: "cfg_ok (hcics_cleaner_sanitize_config c)"
  by (auto simp: hcics_cleaner_sanitize_config_def cfg_ok_def Let_def clamp_in
      HCICS_CLEANER_PWM_DEVICE_NAME_def simp del: atLeastAtMost_iff)

lemma clamp_id: "v \<in> {lo..hi} \<Longrightarrow> hcics_cleaner_clamp_u32 v lo hi = v"
  by (simp add: hcics_cleaner_clamp_u32_def not_less leD)

lemma sanitize_id:
  assumes "cfg_ok c" shows "hcics_cleaner_sanitize_config c = c"
proof -
  have c: "(cfg_pwm_device_name c = None) = False" "(cfg_y_pwm_channel c = 0) = False"
    "(cfg_z_pwm_channel c = 0) = False" "(cfg_pwm_period_ns c = 0) = False"
    "(cfg_y_min_ns c > cfg_y_max_ns c) = False" "(cfg_z_extend_ns c > cfg_z_retract_ns c) = False"
    and v: "hcics_cleaner_clamp_u32 (cfg_y_safe_ns c) (cfg_y_min_ns c) (cfg_y_max_ns c) = cfg_y_safe_ns c"
    "hcics_cleaner_clamp_u32 (cfg_y_center_ns c) (cfg_y_min_ns c) (cfg_y_max_ns c) = cfg_y_center_ns c"
    "hcics_cleaner_clamp_u32 (cfg_z_wash_ns c) (cfg_z_extend_ns c) (cfg_z_retract_ns c) = cfg_z_wash_ns c"
    using assms by (simp_all only: cfg_ok_def clamp_id) (simp_all add: not_less)
  show ?thesis
    unfolding hcics_cleaner_sanitize_config_def Let_def c if_False
    by (cases c) (use v in simp)
qed

text \<open>
  C38: The sanitised configuration is usable, whatever the caller passes: a named device, channels
  and a period that are not zero, ordered ranges, and the safe, centre and wash positions within
  their ranges. Sanitising changes nothing that is usable already, so doing it twice is doing it once.
\<close>

theorem cleaner_config_ok:
  "cfg_ok (hcics_cleaner_sanitize_config c) \<and>
   (hcics_cleaner_sanitize_config c = c \<longleftrightarrow> cfg_ok c)"
  using sanitize_ok [of c] by (metis sanitize_id)

section \<open>Outputs\<close>

text \<open>The default configuration is left as it is.\<close>

abbreviation default_cfg :: hcics_cleaner_config where
  "default_cfg \<equiv> hcics_cleaner_get_default_config"

lemma default_ok: "cfg_ok default_cfg"
  by (simp add: cfg_ok_def hcics_cleaner_get_default_config_def HCICS_CLEANER_PWM_DEVICE_NAME_def)

lemma example_posed: "cleaner_posed default_cfg cleaner_example"
  by (simp add: cleaner_posed_def cleaner_ready_def default_ok pose_ok_def)
    (simp add: cleaner_example_defs hcics_cleaner_get_default_config_def
      HCICS_CLEANER_RELAY_PIN_def HCICS_AXIS_SOFT_TX_PIN_def GET_PIN_def)

text \<open>
  C34: The worker never leaves its envelope. Whatever the cameras, the guard and the application do
  between its steps, a turn of the worker sends the servos only positions within the configured
  ranges, with the configured period, on the two configured channels, and the relay only the
  configured levels; the stored pose stays within the ranges.
\<close>

theorem cleaner_outputs_bounded:
  assumes "cleaner_posed c s"
  shows "wp (hcics_cleaner_worker (clean_env sched) n) (\<lambda>_ t.
     extends (cleaner_call c) (trace s) (trace t) \<and> pose_ok c (cl_y_pulse_ns t) (cl_z_pulse_ns t)) s"
  by (rule vc_preserves [OF others.safe.pres_worker [of c "trace s"]])
    (use assms in \<open>simp_all add: cleaner_safe_def cleaner_posed_def\<close>)

theorem cleaner_outputs_bounded_witness:
  "wp (hcics_cleaner_worker (clean_env (\<lambda>_. [Cl_Time 5])) 300)
     (\<lambda>_ t. cl_y_pulse_ns t \<le> 1950000) cleaner_example"
  by (rule wp_conseq [OF cleaner_outputs_bounded [OF example_posed]])
    (simp add: pose_ok_def hcics_cleaner_get_default_config_def)

section \<open>The pump\<close>

context cleaner_env begin

lemma worker_idle:
  assumes "relay_idle c s"
  shows "wp (hcics_cleaner_worker env n) (\<lambda>r t. r \<noteq> None \<longrightarrow> relay_idle c t) s"
  unfolding hcics_cleaner_worker_def
  by (intro vc vc_preserves [OF idle.pres_safe_outputs [of c]] vc_preserves [OF posed.pres_mission [of c]]
      vc_preserves [OF posed.pres_snapshot [of c]] wp_conseq [OF safe_outputs_idle [of c]]
      vc_preserves [OF idle.pres_take [of c]] vc_preserves [OF idle.pres_release [of c]]
      impI idle.inv_call idle.inv_done)
    (use assms in \<open>simp_all add: idle_posed\<close>)

end

lemma example_idle: "relay_idle default_cfg cleaner_example"
  using example_posed
  by (simp add: relay_idle_def)
    (simp add: cleaner_example_defs hcics_cleaner_get_default_config_def)

text \<open>
  C32: The pump is off after a turn of the worker, however the mission went and whatever the other
  threads did, and it is off after every cycle whose result the mission looks at: the stored flag
  is false, and the level last written to the pin of the relay is the off level.
\<close>

theorem cleaner_pump_off:
  assumes "relay_idle c s"
  shows "wp (hcics_cleaner_worker (clean_env sched) n) (\<lambda>r t. r \<noteq> None \<longrightarrow> \<not> cl_relay_on t \<and>
       pin_state (cfg_relay_pin c) (trace t) = Some (cfg_relay_off_level c)) s \<and>
     wp (hcics_cleaner_run_once (clean_env sched) n) (\<lambda>r t. r \<noteq> None \<longrightarrow> \<not> cl_relay_on t \<and>
       pin_state (cfg_relay_pin c) (trace t) = Some (cfg_relay_off_level c)) s"
  by (intro conjI; rule wp_conseq [OF others.worker_idle [OF assms]] wp_conseq [OF others.run_once_idle [OF assms]],
      simp add: relay_idle_def)

theorem cleaner_pump_off_witness:
  "wp (hcics_cleaner_worker (clean_env (\<lambda>_. [Cl_Time 5, Cl_Start 2])) 300)
     (\<lambda>r t. r \<noteq> None \<longrightarrow> \<not> cl_relay_on t) cleaner_example"
  by (rule wp_conseq [OF cleaner_pump_off [OF example_idle, THEN conjunct1]]) simp

section \<open>A requested stop\<close>

context cleaner_env begin

lemma halted_snapshot:
  assumes "halted c tr0 s" "\<And>t. halted c tr0 t \<Longrightarrow> Q True t"
  shows "wp (cleaner_snapshot env cl_stop_requested) Q s"
  unfolding cleaner_snapshot_def
  by (intro vc vc_preserves [OF halt.pres_take [of c tr0]] vc_preserves [OF halt.pres_release [of c tr0]])
    (use assms in \<open>simp_all add: halted_def\<close>)

lemma halted_mission:
  assumes "halted c tr0 s" "0 < n" "\<And>r t. halted c tr0 t \<Longrightarrow> Q (Some r) t"
  shows "wp (hcics_cleaner_run_mission env n) Q s"
proof -
  obtain m where n: "n = Suc m"
    using assms(2) gr0_implies_Suc by blast
  have once: "wp (hcics_cleaner_run_once env n) (\<lambda>r t. r = Some (- RT_EINTR) \<and> halted c tr0 t) s'"
    if "halted c tr0 s'" for s'
    unfolding hcics_cleaner_run_once_def hcics_cleaner_wait_stain_def n cleaner_wait_stain_loop.simps
    by (intro vc vc_preserves [OF halt.pres_set_state [of c tr0] that]) (auto simp: halted_def)
  have "wp (cleaner_mission_loop env n 0 k) (\<lambda>r t. r \<noteq> None \<and> halted c tr0 t) s'"
    if "halted c tr0 s'" for s' k
  proof (cases k)
    case (Suc k')
    show ?thesis
      unfolding Suc cleaner_mission_loop.simps
      by (intro vc vc_preserves [OF halt.pres_take [of c tr0] that] wp_conseq [OF once]
          vc_preserves [OF halt.pres_release [of c tr0]] halt.inv_cycle) auto
  qed (use that in \<open>simp add: oret_def wp\<close>)
  note loop = this
  show ?thesis
    unfolding hcics_cleaner_run_mission_def
    by (intro vc vc_preserves [OF halt.pres_snapshot [of c tr0] assms(1)] wp_conseq [OF loop])
      (use assms(3) in auto)
qed

lemma halted_worker:
  assumes h: "halted c (trace s) s" and n: "0 < n" and sem: "answer s (Sem_Take ''hclean_s'' # trace s) = RT_EOK"
  shows "wp (hcics_cleaner_worker env n) (\<lambda>r t. r = Some () \<and> cl_state t = HCICS_CLEANER_STATE_STOPPED \<and>
     \<not> cl_busy t \<and> cl_stop_requested t \<and> extends (relay_off_call c) (trace s) (trace t)) s"
proof -
  have h1: "halted c (trace s) (s\<lparr>trace := Sem_Take ''hclean_s'' # trace s\<rparr>)"
    using h by (simp add: halted_def cleaner_ready_def relay_off_call_def)
  show ?thesis
    unfolding hcics_cleaner_worker_def cleaner_release_def
    apply (rule vc_bind)
    apply (rule wp_hw_do [THEN iffD2])
    apply (subst sem)
    apply (subst if_not_P, simp)
    by (intro vc vc_preserves [OF halt.pres_safe_outputs [of c "trace s"]]
        halted_mission [of c "trace s", OF _ n] halted_snapshot [of c "trace s"]
        vc_preserves [OF halt.pres_take [of c "trace s"]]; (rule h1 | assumption)?)
      (auto simp: halted_def cleaner_ready_def relay_off_call_def)
qed

end



section \<open>What the results mean\<close>

text \<open>Whatever the interference does.\<close>

lemma vc_any: "(\<And>r t. Q r t) \<Longrightarrow> wp m Q s"
  by (simp add: wp_run)

definition fresh_within :: "u32 \<Rightarrow> u32 \<Rightarrow> u32 \<Rightarrow> bool" where
  "fresh_within age tick now \<longleftrightarrow> tick \<noteq> 0 \<and> now - tick \<le> age"

text \<open>A stain, as the camera reports one: valid, within the image, of a plausible width.\<close>

definition shows_stain :: "hcics_cleaner_camera_target \<Rightarrow> bool" where
  "shows_stain f \<longleftrightarrow> ct_valid f \<and> ct_mode f = 2 \<and> unat (ct_x f) \<in> {1..640} \<and> unat (ct_y f) \<in> {1..480} \<and>
     unat (ct_width f) \<in> {3..250}"

lemma run_snapshot:
  "run_state (cleaner_snapshot env f) s =
     (let t = snd (run_state (cleaner_take env) s) in (f t, t\<lparr>trace := Mutex_Release ''hclean_l'' # trace t\<rparr>))"
  by (simp add: cleaner_snapshot_def cleaner_release_def split: prod.split)

lemma u16_range: "(x = 0) = (unat x = 0)" "(640 < x) = (640 < unat x)" "(480 < x) = (480 < unat x)" for x :: u16
  by (simp_all add: word_less_nat_alt unat_eq_0)

lemma u8_range: "(x < 3) = (unat x < 3)" "(250 < x) = (250 < unat x)" for x :: u8
  by (simp_all add: word_less_nat_alt)

lemma run_camera_fresh:
  "run_state (hcics_cleaner_camera_is_fresh f) s = (ct_valid f \<and> fresh_within 1200 (ct_tick f) (clock s), s)"
  "run_state (hcics_cleaner_clean_frame_is_fresh f) s =
     (ct_mode f = 2 \<and> fresh_within 1200 (ct_tick f) (clock s), s)"
  "run_state (hcics_cleaner_guard_is_fresh g) s = (fresh_within 300 (gd_tick g) (clock s), s)"
  by (simp_all add: hcics_cleaner_camera_is_fresh_def hcics_cleaner_clean_frame_is_fresh_def
      hcics_cleaner_guard_is_fresh_def HCICS_CLEANER_TARGET_STALE_MS_def HCICS_CLEANER_GUARD_STALE_MS_def
      HCICS_CLEANER_CAMERA_MODE_CLEAN_def rt_tick_from_millisecond_eq fresh_within_def)

lemma run_is_stain:
  "run_state (hcics_cleaner_target_is_stain f) s =
     (shows_stain f \<and> fresh_within 1200 (ct_tick f) (clock s), s)"
  by (simp add: hcics_cleaner_target_is_stain_def run_camera_fresh HCICS_CLEANER_CAMERA_MODE_CLEAN_def
      HCICS_CLEANER_MIN_TARGET_W_def HCICS_CLEANER_MAX_TARGET_W_def shows_stain_def u16_range u8_range)
    auto

lemma vc_snapshot:
  "(\<And>t tr. f (t\<lparr>trace := tr\<rparr>) = f t) \<Longrightarrow> (\<And>t. Q (f t) t) \<Longrightarrow> wp (cleaner_snapshot env f) Q s"
  by (simp add: wp_run run_snapshot Let_def) metis

text \<open>What the worker looks at last.\<close>

definition clear_view :: "'a cleaner_scheme \<Rightarrow> bool" where
  "clear_view t \<longleftrightarrow> ct_mode (cl_camera t) = 2 \<and> fresh_within 1200 (ct_tick (cl_camera t)) (clock t) \<and>
     \<not> shows_stain (cl_camera t)"

definition at_surface :: "'a cleaner_scheme \<Rightarrow> bool" where
  "at_surface t \<longleftrightarrow> fresh_within 300 (gd_tick (cl_guard t)) (clock t) \<and>
     (gd_contact (cl_guard t) \<or> gd_tof_valid (cl_guard t) \<and> gd_tof_mm (cl_guard t) \<le> 69)"

definition may_wash :: "'a cleaner_scheme \<Rightarrow> bool" where
  "may_wash t \<longleftrightarrow> fresh_within 300 (gd_tick (cl_guard t)) (clock t) \<and> \<not> gd_force_stop (cl_guard t) \<and>
     gd_tof_valid (cl_guard t) \<and> 46 < gd_tof_mm (cl_guard t)"

lemma vc_clean_frame:
  assumes "\<And>t. ct_mode (cl_camera t) = 2 \<Longrightarrow> fresh_within 1200 (ct_tick (cl_camera t)) (clock t) \<Longrightarrow>
      Q (Some (cl_camera t)) t"
    and "\<And>t. Q None t"
  shows "wp (hcics_cleaner_get_clean_frame env) Q s"
  unfolding hcics_cleaner_get_clean_frame_def
  by (intro vc vc_snapshot) (use assms in \<open>auto simp: wp_run run_camera_fresh\<close>)

lemma vc_surface:
  assumes "\<And>b t. (b \<Longrightarrow> at_surface t) \<Longrightarrow> Q b t"
  shows "wp (hcics_cleaner_surface_reached env) Q s"
  unfolding hcics_cleaner_surface_reached_def hcics_cleaner_get_guard_def HCICS_CLEANER_TOF_WASH_ENTER_MM_def
  by (intro vc vc_snapshot) (auto simp: wp_run run_camera_fresh at_surface_def intro!: assms)

lemma vc_danger:
  assumes "\<And>b t. (\<not> b \<Longrightarrow> may_wash t \<and> (w \<or> 50 < gd_tof_mm (cl_guard t))) \<Longrightarrow> Q b t"
  shows "wp (hcics_cleaner_guard_forces_retract env w) Q s"
  unfolding hcics_cleaner_guard_forces_retract_def hcics_cleaner_get_guard_def cleaner_tof_defs
  by (intro vc vc_snapshot) (auto simp: wp_run run_camera_fresh may_wash_def not_le intro!: assms)

lemma vc_stain:
  assumes "\<And>b. b = (shows_stain f \<and> fresh_within 1200 (ct_tick f) (clock s)) \<Longrightarrow> Q b s"
  shows "wp (hcics_cleaner_target_is_stain f) Q s"
  by (simp only: wp_run run_is_stain fst_conv snd_conv) (rule assms [OF refl])

lemma vc_aim_next:
  "(\<And>t. target = Some t \<Longrightarrow> b \<Longrightarrow> wp (m t) Q s) \<Longrightarrow> (\<not> (target \<noteq> None \<and> b) \<Longrightarrow> wp n Q s) \<Longrightarrow>
     wp (case (target, b) of (Some t, True) \<Rightarrow> m t | _ \<Rightarrow> n) Q s"
  by (cases target; cases b) simp_all

lemma verify_loop_clear:
  "wp (cleaner_verify_loop env start n from_ms active) (\<lambda>r t. r = Some RT_EOK \<longrightarrow> clear_view t) s"
proof (induction n arbitrary: from_ms active s)
  case (Suc n)
  show ?case
    unfolding cleaner_verify_loop.simps
    by (intro vc vc_danger vc_clean_frame vc_stain vc_any [of _ "cleaner_mdelay env 80"] Suc)
      (auto simp: clear_view_def)
qed (simp add: wp)

lemma extend_loop_surface:
  "wp (cleaner_extend_loop env start n y z) (\<lambda>r t. r = Some RT_EOK \<longrightarrow> at_surface t) s"
proof (induction n arbitrary: y z s)
  case (Suc n)
  show ?case
    unfolding cleaner_extend_loop.simps
    by (intro vc vc_danger vc_surface Suc vc_any [of _ "cleaner_mdelay env 30"]
        vc_any [of _ "hcics_cleaner_get_stain_target env"] vc_any [of _ "hcics_cleaner_y_from_target _"]
        vc_any [of _ "hcics_cleaner_apply_pose env _ _"]) auto
qed (simp add: wp)

lemma wait_stain_error:
  "wp (hcics_cleaner_wait_stain env n ms) (\<lambda>r _. r \<noteq> Some (Inl RT_EOK)) s"
proof -
  have "wp (cleaner_wait_stain_loop env start timeout n) (\<lambda>r _. r \<noteq> Some (Inl RT_EOK)) s" for start timeout
  proof (induction n arbitrary: s)
    case (Suc n)
    show ?case
      unfolding cleaner_wait_stain_loop.simps
      by (intro vc Suc vc_any [of _ "cleaner_mdelay env 40"] vc_any [of _ "hcics_cleaner_get_stain_target env"])
        auto
  qed (simp add: wp)
  then show ?thesis
    unfolding hcics_cleaner_wait_stain_def by (intro vc)
qed

lemma aim_error:
  "wp (hcics_cleaner_aim env n) (\<lambda>r _. r \<noteq> Some (Inl RT_EOK)) s"
proof -
  have "wp (cleaner_aim_loop env start timeout n steady) (\<lambda>r _. r \<noteq> Some (Inl RT_EOK)) s" for start timeout steady
  proof (induction n arbitrary: s steady)
    case (Suc n)
    show ?case
      unfolding cleaner_aim_loop.simps
      by (intro vc Suc vc_any [of _ "cleaner_mdelay env 80"] vc_any [of _ "hcics_cleaner_get_stain_target env"]
          vc_any [of _ "hcics_cleaner_y_from_target _"] vc_any [of _ "hcics_cleaner_apply_pose env _ _"]
          vc_any [of _ "hcics_axis_center_from_error _"] vc_aim_next)
        auto
  qed (simp add: wp)
  then show ?thesis
    unfolding hcics_cleaner_aim_def by (intro vc)
qed

lemma verify_clear_view:
  "wp (hcics_cleaner_verify_clear env n) (\<lambda>r t. r = Some RT_EOK \<longrightarrow> clear_view t) s"
  unfolding hcics_cleaner_verify_clear_def by (intro vc verify_loop_clear)

lemma run_once_clear_view:
  "wp (hcics_cleaner_run_once env n) (\<lambda>r t. r = Some RT_EOK \<longrightarrow> clear_view t) s"
  unfolding hcics_cleaner_run_once_def
  by (intro vc wp_conseq [OF wait_stain_error] wp_conseq [OF aim_error] verify_clear_view
      vc_any [of _ "hcics_cleaner_set_state env _"] vc_any [of _ "hcics_cleaner_y_from_target _"]
      vc_any [of _ "hcics_cleaner_extend_z env n _"] vc_any [of _ "hcics_cleaner_spray env"]
      vc_any [of _ "hcics_cleaner_scrub env n _"] vc_any [of _ "hcics_cleaner_relay env _"]
      vc_any [of _ "hcics_cleaner_retract env n"]) auto

text \<open>Another thread that delivers a clean view and a distant surface, and 300 ms, at every chance.\<close>

definition clear_feed :: "cleaner \<Rightarrow> cleaner" where
  "clear_feed s = (let now = clock s + 300 in s\<lparr>clock := now,
     cl_camera := \<lparr>ct_mode = 2, ct_x = 0, ct_y = 0, ct_width = 0, ct_type = 0, ct_valid = False, ct_tick = now\<rparr>,
     cl_guard := \<lparr>gd_tof_mm = 200, gd_tof_valid = True, gd_contact = False, gd_force_stop = False,
       gd_tick = now\<rparr>\<rparr>)"

lemma clear_feed_run:
  "fst (run_state (hcics_cleaner_verify_clear (modify clear_feed) 6) cleaner_example) = Some RT_EOK"
  by code_simp

text \<open>
  C36: A cycle that reports success ends with a clear view. When the verification, and so the
  cycle, returns \<open>RT_EOK\<close>, the camera target in force is a frame of the cleaning mode that is not
  older than 1200 ms and shows no stain, whatever the other threads did before.
\<close>

theorem cleaner_done_is_clear:
  "wp (hcics_cleaner_verify_clear env n) (\<lambda>r t. r = Some RT_EOK \<longrightarrow> clear_view t) s \<and>
   wp (hcics_cleaner_run_once env n) (\<lambda>r t. r = Some RT_EOK \<longrightarrow> clear_view t) s"
  by (intro conjI verify_clear_view run_once_clear_view)

theorem cleaner_done_is_clear_witness:
  "clear_view (snd (run_state (hcics_cleaner_verify_clear (modify clear_feed) 6) cleaner_example))"
  using cleaner_done_is_clear [of "modify clear_feed" 6 cleaner_example, THEN conjunct1] clear_feed_run
  by (simp add: wp_run)


lemma extend_run:
  "fst (run_state (hcics_cleaner_extend_z (ret ()) 1 1550000) cleaner_example) = Some RT_EOK"
  by code_simp


section \<open>The interface\<close>

text \<open>
  Starting a mission. A busy cleaner refuses and is left as it is. A free one is made busy with
  the cycles asked for, 3 for 0, and nothing of a former mission left, before the worker is woken;
  when it cannot be woken, the cleaner is free again, stopped, with the error kept and the pump off.
\<close>

lemma cleaner_start_outcome:
  assumes "cl_initialized s"
  shows "wp (hcics_cleaner_start (ret ()) m) (\<lambda>r t.
     let woken = answer s (Sem_Release ''hclean_s'' # Mutex_Release ''hclean_l'' # Mutex_Take ''hclean_l'' # trace s) in
     if cl_busy s then r = - RT_EBUSY \<and> t = s\<lparr>trace := trace t\<rparr>
     else r = woken \<and> cl_cycle t = 0 \<and> cl_max_cycles t = (if m = 0 then 3 else m) \<and> cl_last_result t = r \<and>
       (if woken = RT_EOK
        then cl_busy t \<and> \<not> cl_stop_requested t \<and> cl_state t = HCICS_CLEANER_STATE_AIMING \<and>
          cl_relay_on t = cl_relay_on s
        else \<not> cl_busy t \<and> cl_stop_requested t \<and> cl_state t = HCICS_CLEANER_STATE_ERROR \<and>
          \<not> cl_relay_on t \<and>
          pin_state (cfg_relay_pin (cl_config s)) (trace t) = Some (cfg_relay_off_level (cl_config s)))) s"
  using assms
  by (simp add: hcics_cleaner_start_def cleaner_ensure_init_def cleaner_take_def cleaner_release_def
      hcics_cleaner_relay_def HCICS_CLEANER_MAX_CYCLES_def wp RT_EOK_def Let_def)

lemma cleaner_start_outcome_example:
  "wp (hcics_cleaner_start (ret ()) 0) (\<lambda>r t. r = RT_EOK \<and> cl_busy t \<and> cl_max_cycles t = 3) cleaner_example"
  by (rule wp_conseq [OF cleaner_start_outcome]) (simp_all add: cleaner_example_defs RT_EOK_def Let_def)

end
