(* ===== verification/HcicsCleanerTime.thy ===== *)
theory HcicsCleanerTime
  imports HcicsTime HcicsCleanerRuns
begin

text \<open>
  The worker of the cleaner returns. The bounds on how long its operations take show that the clock
  cannot run past a deadline unseen, and so that the fuel of the loops is enough.
\<close>

section \<open>The operations of the cleaner\<close>

text \<open>
  Fuel that is enough: no deadline is later than 6000 ms, and a turn sleeps 20 ms or more; the
  retraction moves 24000 ns a turn. The retracted position must be that far from the largest
  number, or the addition in \<open>hcics_cleaner_move_toward\<close> may wrap around and miss it.
\<close>

definition fuel_ok :: "hcics_cleaner_config \<Rightarrow> nat \<Rightarrow> bool" where
  "fuel_ok c n \<longleftrightarrow> 301 \<le> n \<and> unat (cfg_z_retract_ns c) + 24000 < 2 ^ 32 \<and>
     unat (cfg_z_retract_ns c) - unat (cfg_z_extend_ns c) \<le> (n - 1) * 24000"

text \<open>The calls that wait for the worker, with a lock or in a reset.\<close>

locale cleaner_waits = cleaner_keeps_free env inv c + env_timed env inv h
  for env :: "'a env" and inv and c and h
begin

lemma lasts_take: "lasts inv h (cleaner_take env)"
  unfolding cleaner_take_def
  by (rule lasts_le, (rule lasts env_lasts lasts_hw inv_call | (simp; fail))+)

lemma lasts_release: "lasts inv 0 cleaner_release"
  unfolding cleaner_release_def by (rule lasts_hw) (simp add: inv_call)

lemma lasts_snapshot: "lasts inv h (cleaner_snapshot env f)"
  unfolding cleaner_snapshot_def
  by (rule lasts_le, (rule lasts lasts_take lasts_release | (simp; fail))+)

lemmas lasts_mdelay = lasts_nap [folded cleaner_mdelay_def]
lemmas vc_doze = vc_sleep [folded cleaner_mdelay_def]
lemmas vc_retry = vc_again [folded cleaner_mdelay_def]

lemma wait_not_busy_loop_returns:
  "due inv start timeout n s \<Longrightarrow>
     wp (cleaner_wait_not_busy_loop env start timeout n) (\<lambda>r t. r \<noteq> None \<and> inv t) s"
proof (induction n arbitrary: s)
  case (Suc n)
  note step = vc lasts_snapshot [THEN vc_brief] vc_retry [OF Suc.prems] Suc.IH due_timely [OF Suc.prems, simplified]
  show ?case
    unfolding cleaner_wait_not_busy_loop.simps
    by (assumption | rule step | (insert Suc.prems h_le, simp add: due_def timely_def; fail))+
qed (simp add: due_def)

lemma returns_reset: "301 \<le> n \<Longrightarrow> returns inv (hcics_cleaner_reset env n)"
proof -
  assume "301 \<le> n"
  then have "returns inv (hcics_cleaner_wait_not_busy env n HCICS_CLEANER_RESET_WAIT_MS)"
    unfolding returns_def hcics_cleaner_wait_not_busy_def
    by (intro allI impI vc wait_not_busy_loop_returns due_now; simp add: cleaner_time_defs rt_tick_from_millisecond_eq)
  then show ?thesis
    unfolding hcics_cleaner_reset_def
    by (intro returns pres_step pres_ensure_init preserves_modify inv_stop inv_reset)
qed

end

locale cleaner_timed = cleaner_env +
  fixes h :: nat
  assumes env_lasts: "lasts (cleaner_posed c) h env" and h_le: "h \<le> 30000"

sublocale cleaner_timed \<subseteq> waits: cleaner_waits env "cleaner_posed c" c h for c
  by unfold_locales (rule env_lasts, rule h_le, simp add: cleaner_inv_defs)

context cleaner_timed begin

lemma posed_hw [simp]:
  "cleaner_posed c (s\<lparr>trace := tr\<rparr>) = cleaner_posed c s"
  "cleaner_posed c (s\<lparr>clock := now\<rparr>) = cleaner_posed c s"
  for s :: "'a cleaner_scheme"
  by (simp_all add: cleaner_inv_defs)

lemmas lasts_take = waits.lasts_take and lasts_release = waits.lasts_release
  and lasts_mdelay = waits.lasts_mdelay and lasts_snapshot = waits.lasts_snapshot
lemmas vc_brief = waits.vc_brief and vc_sleep = waits.vc_doze and vc_again = waits.vc_retry
  and due_timely = waits.due_timely and due_again = waits.due_again and due_elapsed = waits.due_elapsed

lemma lasts_set_state: "lasts (cleaner_posed c) h (hcics_cleaner_set_state env st)"
  unfolding hcics_cleaner_set_state_def
  by (rule lasts_le, (rule lasts lasts_take lasts_release lasts_modify | (simp add: cleaner_inv_defs; fail))+)

lemma lasts_axis:
  "lasts (cleaner_posed c) 0 (hcics_axis_stop :: ('a cleaner_scheme, rt_err) state)"
  "lasts (cleaner_posed c) 0 (hcics_axis_center_from_error e :: ('a cleaner_scheme, rt_err) state)"
  "lasts (cleaner_posed c) 0 (hcics_axis_sweep_step d :: ('a cleaner_scheme, rt_err) state)"
  unfolding lasts_def by (intro allI impI vc_axis; simp)+

lemma lasts_relay: "lasts (cleaner_posed c) h (hcics_cleaner_relay env on)"
  unfolding hcics_cleaner_relay_def
  by (rule lasts_le, (rule lasts lasts_take lasts_release lasts_modify lasts_hw |
        (simp add: cleaner_inv_defs; fail))+)

lemma lasts_fresh:
  "lasts I 0 (hcics_cleaner_camera_is_fresh t)" "lasts I 0 (hcics_cleaner_clean_frame_is_fresh t)"
  "lasts I 0 (hcics_cleaner_guard_is_fresh g)" "lasts I 0 (hcics_cleaner_target_is_stain t)"
  "lasts I 0 (hcics_cleaner_y_from_target t)"
  by (auto simp: lasts_def wp_run run_camera_fresh run_is_stain hcics_cleaner_y_from_target_def Let_def)

lemma lasts_read:
  "lasts (cleaner_posed c) h (hcics_cleaner_get_clean_frame env)"
  "lasts (cleaner_posed c) h (hcics_cleaner_get_stain_target env)"
  "lasts (cleaner_posed c) h (hcics_cleaner_guard_forces_retract env w)"
  "lasts (cleaner_posed c) h (hcics_cleaner_surface_reached env)"
  unfolding hcics_cleaner_get_clean_frame_def hcics_cleaner_get_stain_target_def
    hcics_cleaner_guard_forces_retract_def hcics_cleaner_surface_reached_def hcics_cleaner_get_guard_def
  by (rule lasts_le, (rule lasts lasts_snapshot lasts_fresh | (simp; fail))+)+

lemma lasts_cfg:
  fixes f :: "hcics_cleaner_config \<Rightarrow> ('a cleaner_scheme, 'b) state"
  shows "lasts (cleaner_posed c) d (f c) \<Longrightarrow> lasts (cleaner_posed c) d (gets cl_config \<bind> f)"
  by (simp add: lasts_def wp cleaner_posed_def cleaner_ready_def)

lemma lasts_apply_pose: "lasts (cleaner_posed c) (5 * h) (hcics_cleaner_apply_pose env y z)"
proof -
  have pose: "lasts (cleaner_posed c) 0 (modify (\<lambda>s :: 'a cleaner_scheme.
      s\<lparr>cl_y_pulse_ns := hcics_cleaner_clamp_u32 y (cfg_y_min_ns c) (cfg_y_max_ns c),
        cl_z_pulse_ns := hcics_cleaner_clamp_u32 z (cfg_z_extend_ns c) (cfg_z_retract_ns c)\<rparr>))"
    by (rule lasts_modify) (auto simp: cleaner_inv_defs pose_ok_def cfg_ok_def clamp_in simp del: atLeastAtMost_iff)
  show ?thesis
    unfolding hcics_cleaner_apply_pose_def Let_def
    by (rule lasts_le, (rule lasts_cfg pose | rule lasts env_lasts lasts_take lasts_release lasts_hw | (simp; fail))+)
qed

lemma lasts_safe_outputs: "lasts (cleaner_posed c) (6 * h) (hcics_cleaner_safe_outputs env)"
  unfolding hcics_cleaner_safe_outputs_def
  by (rule lasts_le, (rule lasts_cfg | rule lasts lasts_relay lasts_axis lasts_apply_pose | (simp; fail))+)

lemma lasts_ensure_init:
  "lasts (cleaner_posed c) 0 (cleaner_ensure_init env' :: ('a cleaner_scheme, rt_err) state)"
  unfolding lasts_def by (intro allI impI posed.vc_ensure_init [of c]) simp_all

lemma lasts_mdelay_nat:
  assumes "n \<le> 1000" shows "lasts (cleaner_posed c) (n + h) (cleaner_mdelay env (word_of_nat n))"
proof -
  have u: "unat (word_of_nat n :: u32) = n"
    using assms by (simp add: unat_of_nat take_bit_nat_eq_self)
  have "0 \<le> sint (word_of_nat n :: u32)"
    using assms by (simp add: signed_of_nat signed_take_bit_int_eq_self)
  from lasts_mdelay [OF this, of c] show ?thesis by (simp add: u)
qed

lemma lasts_delay_loop: "lasts (cleaner_posed c) (left * 60040) (cleaner_delay_loop env check w left)"
proof (induction left rule: less_induct)
  case (less left)
  show ?case
  proof (cases "left = 0")
    case False
    note rest = less.IH [of "left - 40"] and stop = less.IH [of 0]
    have danger: "lasts (cleaner_posed c) h (if check then hcics_cleaner_guard_forces_retract env w else ret False)"
      by (rule lasts_le, (rule lasts lasts_read | (simp; fail))+)
    have turn: "lasts (cleaner_posed c) (left * 60040 - h)
      (if left \<ge> 40 then do { cleaner_mdelay env 40; cleaner_delay_loop env check w (left - 40) }
       else do { cleaner_mdelay env (word_of_nat left); cleaner_delay_loop env check w 0 })"
    proof (cases "left \<ge> 40")
      case True
      have "lasts (cleaner_posed c) (40 + h + (left - 40) * 60040)
          (do { cleaner_mdelay env 40; cleaner_delay_loop env check w (left - 40) })"
        using rest False lasts_mdelay_nat [of 40] by (intro lasts_bind) simp_all
      with True h_le show ?thesis by (simp, elim lasts_le) linarith
    next
      case small: False
      have "lasts (cleaner_posed c) (left + h + 0 * 60040)
          (do { cleaner_mdelay env (word_of_nat left); cleaner_delay_loop env check w 0 })"
        using stop False small lasts_mdelay_nat [of left] by (intro lasts_bind) simp_all
      with small False h_le show ?thesis by (simp, elim lasts_le) linarith
    qed
    show ?thesis
      by (subst cleaner_delay_loop.simps, rule lasts_le, (rule lasts danger turn)+)
        (use h_le False in \<open>simp add: max_def\<close>)
  qed (simp add: cleaner_delay_loop.simps lasts_ret)
qed

lemma lasts_delay: "lasts (cleaner_posed c) (unat ms * 60040) (hcics_cleaner_delay_abortable env ms check w)"
  unfolding hcics_cleaner_delay_abortable_def by (rule lasts_delay_loop)

lemmas vc_read = lasts_read [THEN vc_brief] lasts_fresh [THEN vc_brief] lasts_apply_pose [THEN vc_brief]
  lasts_axis [THEN vc_brief] lasts_snapshot [THEN vc_brief]

lemma wait_stain_loop_returns:
  "due (cleaner_posed c) start timeout n s \<Longrightarrow>
     wp (cleaner_wait_stain_loop env start timeout n) (\<lambda>r t. r \<noteq> None \<and> cleaner_posed c t) s"
proof (induction n arbitrary: s)
  case (Suc n)
  note step = vc vc_read vc_again [OF Suc.prems] Suc.IH due_timely [OF Suc.prems, simplified]
  show ?case
    unfolding cleaner_wait_stain_loop.simps
    by (assumption | rule step | (insert Suc.prems h_le, simp add: due_def timely_def; fail))+
qed (simp add: due_def)

lemma aim_loop_returns:
  "due (cleaner_posed c) start timeout n s \<Longrightarrow>
     wp (cleaner_aim_loop env start timeout n steady) (\<lambda>r t. r \<noteq> None \<and> cleaner_posed c t) s"
proof (induction n arbitrary: s steady)
  case (Suc n)
  note step = vc_aim_next vc vc_read vc_again [OF Suc.prems] Suc.IH due_timely [OF Suc.prems, simplified]
  show ?case
    unfolding cleaner_aim_loop.simps
    by (assumption | rule step | (insert Suc.prems h_le, simp add: due_def timely_def; fail))+
qed (simp add: due_def)

lemma extend_loop_returns:
  "due (cleaner_posed c) start HCICS_CLEANER_Z_EXTEND_TIMEOUT_MS n s \<Longrightarrow>
     wp (cleaner_extend_loop env start n y z) (\<lambda>r t. r \<noteq> None \<and> cleaner_posed c t) s"
proof (induction n arbitrary: s y z)
  case (Suc n)
  note step = vc_aim_next vc vc_read vc_again [OF Suc.prems] Suc.IH due_timely [OF Suc.prems, simplified]
  show ?case
    unfolding cleaner_extend_loop.simps
    by (assumption | rule step | (insert Suc.prems h_le, simp add: due_def timely_def; fail))+
qed (simp add: due_def)

lemma verify_loop_returns:
  "due (cleaner_posed c) start (rt_tick_from_millisecond (uint HCICS_CLEANER_WAIT_TARGET_MS)) n s \<Longrightarrow>
     wp (cleaner_verify_loop env start n from_ms active) (\<lambda>r t. r \<noteq> None \<and> cleaner_posed c t) s"
proof (induction n arbitrary: s from_ms active)
  case (Suc n)
  note step = vc_aim_next vc vc_read vc_again [OF Suc.prems] Suc.IH due_timely [OF Suc.prems, simplified]
  show ?case
    unfolding cleaner_verify_loop.simps
    by (assumption | rule step | (insert Suc.prems h_le, simp add: due_def timely_def; fail))+
qed (simp add: due_def)

text \<open>Scrubbing sleeps in the abortable delay, which begins with 40 ms when it goes through.\<close>

lemma vc_again_scrub:
  fixes s t :: "'a cleaner_scheme"
  assumes "due (cleaner_posed c) start timeout (Suc n) s" "timely (cleaner_posed c) start (unat timeout - n * 20) k t"
    and "\<not> clock t - start \<ge> timeout"
    and "\<And>u. cleaner_posed c u \<Longrightarrow> Q False u" "\<And>u. due (cleaner_posed c) start timeout n u \<Longrightarrow> Q True u"
  shows "wp (hcics_cleaner_delay_abortable env HCICS_CLEANER_SCRUB_STEP_MS True True) Q t"
proof -
  let ?e = "unat (clock t - start)"
  note e = due_elapsed [OF assms(1,3,2)]
  have rest: "wp (cleaner_delay_loop env True True (160 - 40)) Q u"
    if "cleaner_posed c u" "since start (?e + 40) (?e + 61000) u" for u
  proof (rule vc_lasts [OF lasts_delay_loop that])
    show "Q r v" if "cleaner_posed c v" "since start (?e + 40) (?e + 61000 + (160 - 40) * 60040) v" for r v
    proof (cases r)
      case True
      then show ?thesis
        using that e by (auto intro!: assms(5) due_again [OF assms(1-3)] simp: since_def)
    qed (use that assms(4) in simp)
  qed (use e in simp)
  have sleep: "wp (cleaner_mdelay env 40) R u"
    if "cleaner_posed c u" "since start ?e (?e + h) u"
      "\<And>v. cleaner_posed c v \<Longrightarrow> since start (?e + 40) (?e + 61000) v \<Longrightarrow> R () v" for R u
    by (rule vc_sleep [OF that(1,2)]) (use e h_le in \<open>auto intro!: that(3) simp: since_def\<close>)
  show ?thesis
    unfolding hcics_cleaner_delay_abortable_def HCICS_CLEANER_SCRUB_STEP_MS_def unat_numeral
    by (subst cleaner_delay_loop.simps, intro vc vc_lasts [OF lasts_read(3) e(1,2)] sleep rest)
      (use e h_le in \<open>simp_all add: assms(4) rest [simplified]\<close>)
qed

lemma scrub_loop_returns:
  "due (cleaner_posed c) start HCICS_CLEANER_SCRUB_MS n s \<Longrightarrow>
     wp (cleaner_scrub_loop env base start n right) (\<lambda>r t. r \<noteq> None \<and> cleaner_posed c t) s"
proof (induction n arbitrary: s right)
  case (Suc n)
  note step = vc_again_scrub [OF Suc.prems] vc vc_read Suc.IH due_timely [OF Suc.prems, simplified]
  show ?case
    unfolding cleaner_scrub_loop.simps
    by (assumption | rule step | (insert Suc.prems h_le, simp add: due_def timely_def; fail))+
qed (simp add: due_def)

section \<open>Retracting\<close>

lemma retract_step:
  assumes "z < to" "unat to + 24000 < 2 ^ 32" "unat to - unat z \<le> Suc n * 24000"
  shows "hcics_cleaner_move_toward z to (HCICS_CLEANER_Z_STEP_NS * 2) \<le> to"
    "unat to - unat (hcics_cleaner_move_toward z to (HCICS_CLEANER_Z_STEP_NS * 2)) \<le> n * 24000"
proof -
  have z: "unat z < unat to"
    using assms(1) by (simp add: word_less_nat_alt)
  have "unat (z + 24000) = unat z + 24000"
    using unat_add_lem [THEN iffD1, of z 24000] z assms(2) by simp
  then show "hcics_cleaner_move_toward z to (HCICS_CLEANER_Z_STEP_NS * 2) \<le> to"
    "unat to - unat (hcics_cleaner_move_toward z to (HCICS_CLEANER_Z_STEP_NS * 2)) \<le> n * 24000"
    using assms z by (auto simp: hcics_cleaner_move_toward_def HCICS_CLEANER_Z_STEP_NS_def Let_def
        word_less_nat_alt word_le_nat_alt not_less)
qed

lemma retract_loop_returns:
  assumes to: "unat (cfg_z_retract_ns c) + 24000 < 2 ^ 32"
  shows "cleaner_posed c s \<Longrightarrow> z \<le> cfg_z_retract_ns c \<Longrightarrow>
    unat (cfg_z_retract_ns c) - unat z \<le> n * 24000 \<Longrightarrow>
    wp (cleaner_retract_loop env (Suc n) z) (\<lambda>r t. r \<noteq> None \<and> cleaner_posed c t) s"
proof (induction n arbitrary: s z)
  case 0
  then have "z = cfg_z_retract_ns c" "cl_config s = c"
    by (simp_all add: word_le_nat_alt word_unat_eq_iff cleaner_posed_def cleaner_ready_def)
  with 0 show ?case
    by (auto simp: oret_def wp)
next
  case (Suc n)
  have c: "cl_config s = c"
    using Suc.prems(1) by (simp add: cleaner_posed_def cleaner_ready_def)
  have step: "hcics_cleaner_move_toward z (cfg_z_retract_ns c) (HCICS_CLEANER_Z_STEP_NS * 2) \<le> cfg_z_retract_ns c"
    "unat (cfg_z_retract_ns c) - unat (hcics_cleaner_move_toward z (cfg_z_retract_ns c) (HCICS_CLEANER_Z_STEP_NS * 2))
       \<le> n * 24000" if "z \<noteq> cfg_z_retract_ns c"
    using retract_step [OF _ to, of z n] Suc.prems that by simp_all
  show ?case
    unfolding cleaner_retract_loop.simps(2) [of _ "Suc n"]
    by (intro vc vc_preserves [OF posed.pres_apply_pose [of c]] vc_preserves [OF posed.pres_mdelay [of c]]
        Suc.IH; (assumption | use Suc.prems step in \<open>simp add: c\<close>)?)
qed

section \<open>The worker\<close>

lemma due_in:
  fixes t :: "'a cleaner_scheme"
  assumes "cleaner_posed c t" "since start 0 30000 t" "fuel_ok c n" "unat timeout \<le> 6000"
  shows "due (cleaner_posed c) start timeout n t"
  using assms by (intro waits.due_in) (auto simp: fuel_ok_def)

lemma due_now:
  fixes s :: "'a cleaner_scheme"
  shows "cleaner_posed c s \<Longrightarrow> fuel_ok c n \<Longrightarrow> unat timeout \<le> 6000 \<Longrightarrow> due (cleaner_posed c) (clock s) timeout n s"
  by (rule due_in) (simp_all add: since_def)

lemma returns_timed:
  assumes "fuel_ok c n"
  shows "returns (cleaner_posed c) (hcics_cleaner_wait_stain env n HCICS_CLEANER_WAIT_TARGET_MS)"
    "returns (cleaner_posed c) (hcics_cleaner_aim env n)"
    "returns (cleaner_posed c) (hcics_cleaner_extend_z env n y)"
    "returns (cleaner_posed c) (hcics_cleaner_verify_clear env n)"
  unfolding returns_def hcics_cleaner_wait_stain_def hcics_cleaner_aim_def hcics_cleaner_extend_z_def
    hcics_cleaner_verify_clear_def
  by (intro allI impI vc wait_stain_loop_returns aim_loop_returns extend_loop_returns verify_loop_returns
      due_now assms; simp add: cleaner_time_defs rt_tick_from_millisecond_eq)+

lemma returns_scrub:
  assumes "fuel_ok c n"
  shows "returns (cleaner_posed c) (hcics_cleaner_scrub env n y)"
  unfolding returns_def hcics_cleaner_scrub_def
  by (intro allI impI vc vc_lasts_at [OF lasts_relay [of c]] scrub_loop_returns due_in [OF _ _ assms])
    (use h_le in \<open>simp_all add: cleaner_time_defs since_def\<close>)

lemma returns_retract:
  assumes "fuel_ok c n"
  shows "returns (cleaner_posed c) (hcics_cleaner_retract env n)"
proof -
  obtain m where n: "n = Suc m"
    using assms by (cases n) (simp_all add: fuel_ok_def)
  have loop: "wp (cleaner_retract_loop env n (cl_z_pulse_ns s)) (\<lambda>r t. r \<noteq> None \<and> cleaner_posed c t) s"
    if "cleaner_posed c s" for s
    using assms that unfolding n
    by (intro retract_loop_returns)
      (auto simp: fuel_ok_def n cleaner_posed_def pose_ok_def word_le_nat_alt)
  have from_pose: "returns (cleaner_posed c) (gets cl_z_pulse_ns \<bind> (\<lambda>z. obind (cleaner_retract_loop env n z) f))"
    if "\<And>x. returns (cleaner_posed c) (f x)" for f :: "rt_err \<Rightarrow> ('a cleaner_scheme, rt_err option) state"
    using that unfolding returns_def by (auto intro!: vc wp_conseq [OF loop])
  show ?thesis
    unfolding hcics_cleaner_retract_def
    by (intro from_pose returns posed.pres_step posed.pres_delay)
qed

lemmas returns_phase = returns_timed returns_scrub returns_retract

lemma returns_run_once: "fuel_ok c n \<Longrightarrow> returns (cleaner_posed c) (hcics_cleaner_run_once env n)"
  unfolding hcics_cleaner_run_once_def
  by (intro returns returns_phase posed.pres_step posed.pres_spray posed.pres_fresh) assumption+

lemma returns_mission: "fuel_ok c n \<Longrightarrow> returns (cleaner_posed c) (hcics_cleaner_run_mission env n)"
proof -
  assume n: "fuel_ok c n"
  have "returns (cleaner_posed c) (cleaner_mission_loop env n cycle k)" for cycle k
    by (induction k arbitrary: cycle) (simp_all only: cleaner_mission_loop.simps,
        (intro returns returns_run_once [OF n] returns_retract [OF n] posed.pres_step preserves_modify
          posed.inv_cycle; assumption?)+)
  then show ?thesis
    unfolding hcics_cleaner_run_mission_def by (intro returns posed.pres_step)
qed

lemma returns_worker: "fuel_ok c n \<Longrightarrow> returns (cleaner_posed c) (hcics_cleaner_worker env n)"
  unfolding hcics_cleaner_worker_def
  by (intro returns returns_mission posed.pres_step preserves_modify preserves_hw_do posed.inv_call
      posed.inv_done) simp_all

end

section \<open>The other threads\<close>

interpretation alone_timed: cleaner_timed "ret ()" 0
  by unfold_locales (simp_all add: lasts_ret)

lemmas lasts_alone = lasts alone_timed.lasts_ensure_init alone_timed.lasts_take alone_timed.lasts_release
  alone_timed.lasts_safe_outputs alone_timed.lasts_relay alone_timed.lasts_axis alone_timed.lasts_snapshot
  lasts_modify lasts_hw

lemma lasts_interface:
  "lasts (cleaner_posed c) 0 (hcics_cleaner_update_camera_target (ret ()) target)"
  "lasts (cleaner_posed c) 0 (hcics_cleaner_update_guard (ret ()) guard)"
  "lasts (cleaner_posed c) 0 (hcics_cleaner_start (ret ()) m)"
  "lasts (cleaner_posed c) 0 (hcics_cleaner_emergency_stop (ret ()))"
  "lasts (cleaner_posed c) 0 (hcics_cleaner_get_status (ret ()))"
  unfolding hcics_cleaner_update_camera_target_def hcics_cleaner_update_guard_def hcics_cleaner_start_def
    hcics_cleaner_emergency_stop_def hcics_cleaner_get_status_def hcics_axis_emergency_stop_def
  by (rule lasts_le, (rule lasts_alone | (simp add: cleaner_inv_defs; fail))+)+

lemma lasts_reset_begun: "lasts (cleaner_posed c) 20 (hcics_cleaner_reset (ret ()) 1)"
proof -
  have nap: "lasts (cleaner_posed c) 20 (cleaner_mdelay (ret ()) 20 :: ('a cleaner_scheme, unit) state)"
    using alone_timed.lasts_mdelay [of 20 c] by simp
  show ?thesis
    unfolding hcics_cleaner_reset_def hcics_cleaner_wait_not_busy_def One_nat_def cleaner_wait_not_busy_loop.simps
    by (rule lasts_le, (rule lasts_alone nap | (simp add: cleaner_inv_defs; fail))+)
qed

lemma lasts_event: "lasts (cleaner_posed c) 300 (clean_do e)"
proof (cases e)
  case (Cl_Time ms)
  have "unat (ucast ms :: u32) \<le> 300"
    unfolding unsigned_ucast_eq
    by (rule order_trans [OF take_bit_nat_less_eq_self], rule order_trans [OF less_imp_le [OF unat_u8]]) simp
  then show ?thesis
    by (simp add: Cl_Time lasts_def wp cleaner_inv_defs)
qed (simp only: clean_do.simps, rule lasts_le, (rule lasts lasts_interface lasts_reset_begun | (simp; fail))+)+

lemma lasts_events: "lasts (cleaner_posed c) (300 * length es) (clean_dos es)"
proof (induction es)
  case (Cons e es)
  from lasts_bind [OF lasts_event Cons] show ?case
    by simp
qed (simp add: lasts_ret)

interpretation others_timed: cleaner_timed "clean_env sched" 30000 for sched
proof unfold_locales
  show "lasts (cleaner_posed c) 30000 (clean_env sched :: 'a env)" for c
  proof -
    have "lasts (cleaner_posed c) 30000 (clean_dos (take 100 (sched tr)) :: 'a env)" for tr
      using lasts_events [of c "take 100 (sched tr)"] by (rule lasts_le) simp
    from lasts_bind [OF lasts_gets this] show ?thesis
      by (simp add: clean_env_def)
  qed
qed simp

text \<open>
  C33: The worker never hangs. With loops of 301 turns, and enough for the way of the retraction, a
  turn of the worker comes to its end from every state of the cleaner, whatever the cameras, the
  guard and the application do in between, and so does a reset that waits for a busy worker.
\<close>

theorem cleaner_worker_returns:
  assumes "cleaner_posed c s" and "fuel_ok c n"
  shows "wp (hcics_cleaner_worker (clean_env sched) n) (\<lambda>r t. r = Some ()) s \<and>
    wp (hcics_cleaner_reset (clean_env sched) n) (\<lambda>r t. r = Some ()) s"
  using others_timed.returns_worker [OF assms(2), of sched] others_timed.waits.returns_reset [of n c sched] assms
  by (auto simp: returns_def fuel_ok_def elim: wp_conseq)

theorem cleaner_worker_returns_witness:
  "wp (hcics_cleaner_worker (clean_env (\<lambda>_. [Cl_Time 200, Cl_Reset])) 301) (\<lambda>r t. r = Some ()) cleaner_example"
  by (rule cleaner_worker_returns [OF example_posed, THEN conjunct1])
    (simp add: fuel_ok_def hcics_cleaner_get_default_config_def)

end
