(* ===== verification/HcicsGuard.thy ===== *)
theory HcicsGuard
  imports HcicsCleanerTime
begin

text \<open>
  The guard of the cleaner, \<open>applications/hcics_guard.c\<close>: a VL53L0X distance sensor on an I2C bus,
  set up and sampled by a thread of its own, which reports to the cleaner. The record holds the
  static \<open>g_guard\<close>. The bus transfers messages of bytes; the received buffer is filled by what the
  device sends. The waits for the sensor take fuel, as the loops of the cleaner do. \<open>env\<close> stands for
  the other threads, as in \<open>HcicsCleaner\<close>.
\<close>

section \<open>Registers and state\<close>

definition HCICS_GUARD_I2C_BUS_NAME :: string where "HCICS_GUARD_I2C_BUS_NAME = ''i2c1''"
definition HCICS_GUARD_SAMPLE_MS :: u32 where "HCICS_GUARD_SAMPLE_MS = 80"
definition HCICS_GUARD_I2C_TIMEOUT_MS :: int where "HCICS_GUARD_I2C_TIMEOUT_MS = 80"
definition HCICS_GUARD_MAX_READ_ERRORS :: u8 where "HCICS_GUARD_MAX_READ_ERRORS = 3"
definition HCICS_GUARD_CONTACT_PIN :: int where "HCICS_GUARD_CONTACT_PIN = - 1"
definition HCICS_GUARD_CONTACT_ACTIVE_LEVEL :: int where "HCICS_GUARD_CONTACT_ACTIVE_LEVEL = PIN_LOW"

definition VL53_REG_SYSRANGE_START :: u8 where "VL53_REG_SYSRANGE_START = 0x00"
definition VL53_REG_SYSTEM_SEQUENCE_CONFIG :: u8 where "VL53_REG_SYSTEM_SEQUENCE_CONFIG = 0x01"
definition VL53_REG_SYSTEM_INTERRUPT_CONFIG_GPIO :: u8 where "VL53_REG_SYSTEM_INTERRUPT_CONFIG_GPIO = 0x0A"
definition VL53_REG_SYSTEM_INTERRUPT_CLEAR :: u8 where "VL53_REG_SYSTEM_INTERRUPT_CLEAR = 0x0B"
definition VL53_REG_RESULT_INTERRUPT_STATUS :: u8 where "VL53_REG_RESULT_INTERRUPT_STATUS = 0x13"
definition VL53_REG_RESULT_RANGE_STATUS :: u8 where "VL53_REG_RESULT_RANGE_STATUS = 0x14"
definition VL53_REG_MSRC_CONFIG_CONTROL :: u8 where "VL53_REG_MSRC_CONFIG_CONTROL = 0x60"
definition VL53_REG_FINAL_RANGE_MIN_RATE_RTN_LIMIT :: u8 where "VL53_REG_FINAL_RANGE_MIN_RATE_RTN_LIMIT = 0x44"
definition VL53_REG_DYNAMIC_SPAD_REF_EN_START_OFFSET :: u8 where "VL53_REG_DYNAMIC_SPAD_REF_EN_START_OFFSET = 0x4F"
definition VL53_REG_DYNAMIC_SPAD_NUM_REQUESTED :: u8 where "VL53_REG_DYNAMIC_SPAD_NUM_REQUESTED = 0x4E"
definition VL53_REG_GLOBAL_CONFIG_REF_EN_START_SELECT :: u8 where "VL53_REG_GLOBAL_CONFIG_REF_EN_START_SELECT = 0xB6"
definition VL53_REG_GLOBAL_CONFIG_SPAD_ENABLES_REF_0 :: u8 where "VL53_REG_GLOBAL_CONFIG_SPAD_ENABLES_REF_0 = 0xB0"
definition VL53_REG_GPIO_HV_MUX_ACTIVE_HIGH :: u8 where "VL53_REG_GPIO_HV_MUX_ACTIVE_HIGH = 0x84"
definition VL53_REG_VHV_CONFIG_PAD_SCL_SDA_EXTSUP_HV :: u8 where "VL53_REG_VHV_CONFIG_PAD_SCL_SDA_EXTSUP_HV = 0x89"
definition VL53_REG_IDENTIFICATION_MODEL_ID :: u8 where "VL53_REG_IDENTIFICATION_MODEL_ID = 0xC0"

text \<open>\<open>gu_bus\<close>: the pointer \<open>bus\<close> is set.\<close>

record guard = cleaner +
  gu_initialized :: bool
  gu_ready :: bool
  gu_stop_variable :: u8
  gu_read_errors :: u8
  gu_bus :: bool

section \<open>The bus\<close>

definition hcics_guard_timeout_ticks :: u32 where
  "hcics_guard_timeout_ticks = rt_tick_from_millisecond HCICS_GUARD_I2C_TIMEOUT_MS"

definition hcics_guard_write_multi :: "u8 \<Rightarrow> u8 list \<Rightarrow> ('a guard_scheme, rt_err) state" where
  "hcics_guard_write_multi reg data = do {
     bus \<leftarrow> gets gu_bus;
     if \<not> bus \<or> data = [] then ret (- RT_EINVAL)
     else if length data > 8 - 1 then ret (- RT_EINVAL)
     else do {
       sent \<leftarrow> hw_do (I2c_Transfer (reg # data) 0);
       ret (if sent = 1 then RT_EOK else - RT_ERROR) } }"

text \<open>The buffer of \<open>len\<close> bytes after the transfer; the bytes the device does not send are read as 0.\<close>

definition i2c_buffer :: "nat \<Rightarrow> u8 list \<Rightarrow> u8 list" where
  "i2c_buffer len bytes = take len (bytes @ replicate len 0)"

definition hcics_guard_read_multi :: "u8 \<Rightarrow> nat \<Rightarrow> ('a guard_scheme, rt_err + u8 list) state" where
  "hcics_guard_read_multi reg len = do {
     bus \<leftarrow> gets gu_bus;
     if \<not> bus \<or> len = 0 then ret (Inl (- RT_EINVAL))
     else do {
       (sent, bytes) \<leftarrow> hw_rx (I2c_Transfer [reg] len);
       ret (if sent = 2 then Inr (i2c_buffer len bytes) else Inl (- RT_ERROR)) } }"

definition hcics_guard_write_u8 :: "u8 \<Rightarrow> u8 \<Rightarrow> ('a guard_scheme, rt_err) state" where
  "hcics_guard_write_u8 reg value = hcics_guard_write_multi reg [value]"

definition hcics_guard_read_u8 :: "u8 \<Rightarrow> ('a guard_scheme, rt_err + u8) state" where
  "hcics_guard_read_u8 reg = do {
     r \<leftarrow> hcics_guard_read_multi reg 1;
     ret (case r of Inl e \<Rightarrow> Inl e | Inr data \<Rightarrow> Inr (data ! 0)) }"

definition hcics_guard_write_u16 :: "u8 \<Rightarrow> u16 \<Rightarrow> ('a guard_scheme, rt_err) state" where
  "hcics_guard_write_u16 reg value =
     hcics_guard_write_multi reg [ucast (drop_bit 8 value), ucast (value AND 0xFF)]"

definition hcics_guard_read_u16 :: "u8 \<Rightarrow> ('a guard_scheme, rt_err + u16) state" where
  "hcics_guard_read_u16 reg = do {
     r \<leftarrow> hcics_guard_read_multi reg 2;
     ret (case r of Inl e \<Rightarrow> Inl e
          | Inr data \<Rightarrow> Inr (push_bit 8 (ucast (data ! 0)) OR ucast (data ! 1))) }"

definition hcics_guard_update_u8 :: "u8 \<Rightarrow> u8 \<Rightarrow> u8 \<Rightarrow> ('a guard_scheme, rt_err) state" where
  "hcics_guard_update_u8 reg clear_mask set_mask = do {
     r \<leftarrow> hcics_guard_read_u8 reg;
     case r of Inl e \<Rightarrow> ret e
     | Inr value \<Rightarrow> hcics_guard_write_u8 reg ((value AND NOT clear_mask) OR set_mask) }"

text \<open>\<open>rt_thread_mdelay\<close>, and the other threads meanwhile.\<close>

definition guard_mdelay :: "('a guard_scheme, unit) state \<Rightarrow> u32 \<Rightarrow> ('a guard_scheme, unit) state" where
  "guard_mdelay env ms = do { rt_thread_mdelay ms; env }"

fun guard_wait_loop ::
  "('a guard_scheme, unit) state \<Rightarrow> u8 \<Rightarrow> u8 \<Rightarrow> bool \<Rightarrow> u32 \<Rightarrow> nat \<Rightarrow> ('a guard_scheme, bool option) state"
where
  "guard_wait_loop env reg bits high start 0 = ret None"
| "guard_wait_loop env reg bits high start (Suc n) = do {
     now \<leftarrow> rt_tick_get;
     if \<not> now - start \<le> hcics_guard_timeout_ticks then oret False
     else do {
       r \<leftarrow> hcics_guard_read_u8 reg;
       case r of Inl e \<Rightarrow> oret False
       | Inr value \<Rightarrow>
           if (if high then value AND bits \<noteq> 0 else value AND bits = 0) then oret True
           else do {
             guard_mdelay env 2;
             guard_wait_loop env reg bits high start n } } }"

definition hcics_guard_wait_reg_bits ::
  "('a guard_scheme, unit) state \<Rightarrow> nat \<Rightarrow> u8 \<Rightarrow> u8 \<Rightarrow> bool \<Rightarrow> ('a guard_scheme, bool option) state" where
  "hcics_guard_wait_reg_bits env n reg bits high = do {
     start \<leftarrow> rt_tick_get;
     guard_wait_loop env reg bits high start n }"

section \<open>Setting up the sensor\<close>

text \<open>The table \<open>seq\<close> of register writes.\<close>

definition guard_tuning :: "(u8 \<times> u8) list" where
  "guard_tuning = [
     (0xFF, 0x01), (0x00, 0x00), (0xFF, 0x00), (0x09, 0x00),
     (0x10, 0x00), (0x11, 0x00), (0x24, 0x01), (0x25, 0xFF),
     (0x75, 0x00), (0xFF, 0x01), (0x4E, 0x2C), (0x48, 0x00),
     (0x30, 0x20), (0xFF, 0x00), (0x30, 0x09), (0x54, 0x00),
     (0x31, 0x04), (0x32, 0x03), (0x40, 0x83), (0x46, 0x25),
     (0x60, 0x00), (0x27, 0x00), (0x50, 0x06), (0x51, 0x00),
     (0x52, 0x96), (0x56, 0x08), (0x57, 0x30), (0x61, 0x00),
     (0x62, 0x00), (0x64, 0x00), (0x65, 0x00), (0x66, 0xA0),
     (0xFF, 0x01), (0x22, 0x32), (0x47, 0x14), (0x49, 0xFF),
     (0x4A, 0x00), (0xFF, 0x00), (0x7A, 0x0A), (0x7B, 0x00),
     (0x78, 0x21), (0xFF, 0x01), (0x23, 0x34), (0x42, 0x00),
     (0x44, 0xFF), (0x45, 0x26), (0x46, 0x05), (0x40, 0x40),
     (0x0E, 0x06), (0x20, 0x1A), (0x43, 0x40), (0xFF, 0x00),
     (0x34, 0x03), (0x35, 0x44), (0xFF, 0x01), (0x31, 0x04),
     (0x4B, 0x09), (0x4C, 0x05), (0x4D, 0x04), (0xFF, 0x00),
     (0x44, 0x00), (0x45, 0x20), (0x47, 0x08), (0x48, 0x28),
     (0x67, 0x00), (0x70, 0x04), (0x71, 0x01), (0x72, 0xFE),
     (0x76, 0x00), (0x77, 0x00), (0xFF, 0x01), (0x0D, 0x01),
     (0xFF, 0x00), (0x80, 0x01), (0x01, 0xF8), (0xFF, 0x01),
     (0x8E, 0x01), (0x00, 0x01), (0xFF, 0x00), (0x80, 0x00)]"

fun guard_write_all :: "(u8 \<times> u8) list \<Rightarrow> ('a guard_scheme, rt_err) state" where
  "guard_write_all [] = ret RT_EOK"
| "guard_write_all ((reg, value) # rest) = do {
     result \<leftarrow> hcics_guard_write_u8 reg value;
     if result \<noteq> RT_EOK then ret result else guard_write_all rest }"

definition hcics_guard_write_tuning :: "('a guard_scheme, rt_err) state" where
  "hcics_guard_write_tuning = guard_write_all guard_tuning"

text \<open>The do-while loop; its result is an error, or the last value of \<open>tmp\<close>.\<close>

fun guard_spad_loop ::
  "('a guard_scheme, unit) state \<Rightarrow> u32 \<Rightarrow> nat \<Rightarrow> ('a guard_scheme, (rt_err + u8) option) state" where
  "guard_spad_loop env start 0 = ret None"
| "guard_spad_loop env start (Suc n) = do {
     r \<leftarrow> hcics_guard_read_u8 0x83;
     case r of Inl e \<Rightarrow> oret (Inl (- RT_ERROR))
     | Inr tmp \<Rightarrow>
         if tmp \<noteq> 0 then oret (Inr tmp)
         else do {
           guard_mdelay env 2;
           now \<leftarrow> rt_tick_get;
           if now - start \<le> hcics_guard_timeout_ticks then guard_spad_loop env start n
           else oret (Inr tmp) } }"

text \<open>The result is an error, or the count and whether the type is aperture.\<close>

definition hcics_guard_get_spad_info ::
  "('a guard_scheme, unit) state \<Rightarrow> nat \<Rightarrow> ('a guard_scheme, (rt_err + u8 \<times> bool) option) state" where
  "hcics_guard_get_spad_info env n = do {
     ok \<leftarrow> all_ok [
       hcics_guard_write_u8 0x80 0x01,
       hcics_guard_write_u8 0xFF 0x01,
       hcics_guard_write_u8 0x00 0x00,
       hcics_guard_write_u8 0xFF 0x06,
       hcics_guard_update_u8 0x83 0x00 0x04,
       hcics_guard_write_u8 0xFF 0x07,
       hcics_guard_write_u8 0x81 0x01,
       hcics_guard_write_u8 0x80 0x01,
       hcics_guard_write_u8 0x94 0x6B,
       hcics_guard_write_u8 0x83 0x00];
     if \<not> ok then oret (Inl (- RT_ERROR))
     else do {
       start \<leftarrow> rt_tick_get;
       obind (guard_spad_loop env start n) (\<lambda>ready.
       case ready of Inl e \<Rightarrow> oret (Inl e)
       | Inr tmp \<Rightarrow>
         if tmp = 0 then oret (Inl (- RT_ETIMEOUT))
         else do {
           result \<leftarrow> hcics_guard_write_u8 0x83 0x01;
           if result \<noteq> RT_EOK then oret (Inl (- RT_ERROR))
           else do {
             r \<leftarrow> hcics_guard_read_u8 0x92;
             case r of Inl e \<Rightarrow> oret (Inl (- RT_ERROR))
             | Inr tmp \<Rightarrow> do {
                 ok \<leftarrow> all_ok [
                   hcics_guard_write_u8 0x81 0x00,
                   hcics_guard_write_u8 0xFF 0x06,
                   hcics_guard_update_u8 0x83 0x04 0x00,
                   hcics_guard_write_u8 0xFF 0x01,
                   hcics_guard_write_u8 0x00 0x01,
                   hcics_guard_write_u8 0xFF 0x00,
                   hcics_guard_write_u8 0x80 0x00];
                 if \<not> ok then oret (Inl (- RT_ERROR))
                 else oret (Inr (tmp AND 0x7F, tmp AND 0x80 \<noteq> 0)) } } }) } }"

text \<open>One turn of the loop over the 48 SPADs: the map and the number of enabled ones so far.\<close>

definition guard_spad_step :: "nat \<Rightarrow> u8 \<Rightarrow> u8 list \<times> u8 \<Rightarrow> nat \<Rightarrow> u8 list \<times> u8" where
  "guard_spad_step first_spad spad_count st i =
     (let (spad_map, enabled) = st;
          byte = i div 8;
          bit = push_bit (i mod 8) 1
      in if i < first_spad \<or> enabled = spad_count
         then (spad_map[byte := spad_map ! byte AND NOT bit], enabled)
         else if spad_map ! byte AND bit \<noteq> 0 then (spad_map, enabled + 1)
         else (spad_map, enabled))"

definition guard_spad_map :: "bool \<Rightarrow> u8 \<Rightarrow> u8 list \<Rightarrow> u8 list" where
  "guard_spad_map aperture spad_count spad_map =
     fst (foldl (guard_spad_step (if aperture then 12 else 0) spad_count) (spad_map, 0) [0..<48])"

definition hcics_guard_config_spads ::
  "('a guard_scheme, unit) state \<Rightarrow> nat \<Rightarrow> ('a guard_scheme, rt_err option) state" where
  "hcics_guard_config_spads env n =
     obind (hcics_guard_get_spad_info env n) (\<lambda>info.
     case info of Inl e \<Rightarrow> oret e
     | Inr (spad_count, aperture) \<Rightarrow> do {
         r \<leftarrow> hcics_guard_read_multi VL53_REG_GLOBAL_CONFIG_SPAD_ENABLES_REF_0 6;
         case r of Inl e \<Rightarrow> oret e
         | Inr ref_spad_map \<Rightarrow> do {
             ok \<leftarrow> all_ok [
               hcics_guard_write_u8 0xFF 0x01,
               hcics_guard_write_u8 VL53_REG_DYNAMIC_SPAD_REF_EN_START_OFFSET 0x00,
               hcics_guard_write_u8 VL53_REG_DYNAMIC_SPAD_NUM_REQUESTED 0x2C,
               hcics_guard_write_u8 0xFF 0x00,
               hcics_guard_write_u8 VL53_REG_GLOBAL_CONFIG_REF_EN_START_SELECT 0xB4];
             if \<not> ok then oret (- RT_ERROR)
             else do {
               result \<leftarrow> hcics_guard_write_multi VL53_REG_GLOBAL_CONFIG_SPAD_ENABLES_REF_0
                 (guard_spad_map aperture spad_count ref_spad_map);
               oret result } } })"

definition hcics_guard_ref_calibration ::
  "('a guard_scheme, unit) state \<Rightarrow> nat \<Rightarrow> u8 \<Rightarrow> ('a guard_scheme, rt_err option) state" where
  "hcics_guard_ref_calibration env n vhv_init_byte = do {
     result \<leftarrow> hcics_guard_write_u8 VL53_REG_SYSRANGE_START (0x01 OR vhv_init_byte);
     if result \<noteq> RT_EOK then oret (- RT_ERROR)
     else
       obind (hcics_guard_wait_reg_bits env n VL53_REG_RESULT_INTERRUPT_STATUS 0x07 True) (\<lambda>done_bits.
       if \<not> done_bits then oret (- RT_ETIMEOUT)
       else do {
         ok \<leftarrow> all_ok [
           hcics_guard_write_u8 VL53_REG_SYSTEM_INTERRUPT_CLEAR 0x01,
           hcics_guard_write_u8 VL53_REG_SYSRANGE_START 0x00];
         oret (if \<not> ok then - RT_ERROR else RT_EOK) }) }"

text \<open>The read of the chain that stores into \<open>g_guard.stop_variable\<close>.\<close>

definition guard_read_stop_variable :: "('a guard_scheme, rt_err) state" where
  "guard_read_stop_variable = do {
     r \<leftarrow> hcics_guard_read_u8 0x91;
     case r of Inl e \<Rightarrow> ret e
     | Inr value \<Rightarrow> do {
         modify (\<lambda>s. s\<lparr>gu_stop_variable := value\<rparr>);
         ret RT_EOK } }"

definition hcics_guard_sensor_init ::
  "('a guard_scheme, unit) state \<Rightarrow> nat \<Rightarrow> ('a guard_scheme, rt_err option) state" where
  "hcics_guard_sensor_init env n = do {
     r \<leftarrow> hcics_guard_read_u8 VL53_REG_IDENTIFICATION_MODEL_ID;
     case r of Inl e \<Rightarrow> oret e
     | Inr model \<Rightarrow>
       if model \<noteq> 0xEE then oret (- RT_ENOSYS)
       else do {
         ok \<leftarrow> all_ok [
           hcics_guard_update_u8 VL53_REG_VHV_CONFIG_PAD_SCL_SDA_EXTSUP_HV 0x00 0x01,
           hcics_guard_write_u8 0x88 0x00,
           hcics_guard_write_u8 0x80 0x01,
           hcics_guard_write_u8 0xFF 0x01,
           hcics_guard_write_u8 0x00 0x00,
           guard_read_stop_variable,
           hcics_guard_write_u8 0x00 0x01,
           hcics_guard_write_u8 0xFF 0x00,
           hcics_guard_write_u8 0x80 0x00,
           hcics_guard_update_u8 VL53_REG_MSRC_CONFIG_CONTROL 0x00 0x12,
           hcics_guard_write_u16 VL53_REG_FINAL_RANGE_MIN_RATE_RTN_LIMIT 32,
           hcics_guard_write_u8 VL53_REG_SYSTEM_SEQUENCE_CONFIG 0xFF];
         if \<not> ok then oret (- RT_ERROR)
         else
           obind (hcics_guard_config_spads env n) (\<lambda>result.
           if result \<noteq> RT_EOK then oret result
           else do {
             ok \<leftarrow> all_ok [
               hcics_guard_write_tuning,
               hcics_guard_write_u8 VL53_REG_SYSTEM_INTERRUPT_CONFIG_GPIO 0x04,
               hcics_guard_update_u8 VL53_REG_GPIO_HV_MUX_ACTIVE_HIGH 0x10 0x00,
               hcics_guard_write_u8 VL53_REG_SYSTEM_INTERRUPT_CLEAR 0x01,
               hcics_guard_write_u8 VL53_REG_SYSTEM_SEQUENCE_CONFIG 0x01];
             if \<not> ok then oret (- RT_ERROR)
             else
               obind (hcics_guard_ref_calibration env n 0x40) (\<lambda>result.
               if result \<noteq> RT_EOK then oret result
               else do {
                 result \<leftarrow> hcics_guard_write_u8 VL53_REG_SYSTEM_SEQUENCE_CONFIG 0x02;
                 if result \<noteq> RT_EOK then oret (- RT_ERROR)
                 else
                   obind (hcics_guard_ref_calibration env n 0x00) (\<lambda>result.
                   if result \<noteq> RT_EOK then oret result
                   else do {
                     result \<leftarrow> hcics_guard_write_u8 VL53_REG_SYSTEM_SEQUENCE_CONFIG 0xE8;
                     oret result }) }) }) } }"

section \<open>Sampling\<close>

text \<open>The result and the distance, which is the caller's initial value when it was not read.\<close>

definition hcics_guard_read_distance ::
  "('a guard_scheme, unit) state \<Rightarrow> nat \<Rightarrow> u16 \<Rightarrow> ('a guard_scheme, (rt_err \<times> u16) option) state" where
  "hcics_guard_read_distance env n distance_mm = do {
     stop_variable \<leftarrow> gets gu_stop_variable;
     ok \<leftarrow> all_ok [
       hcics_guard_write_u8 0x80 0x01,
       hcics_guard_write_u8 0xFF 0x01,
       hcics_guard_write_u8 0x00 0x00,
       hcics_guard_write_u8 0x91 stop_variable,
       hcics_guard_write_u8 0x00 0x01,
       hcics_guard_write_u8 0xFF 0x00,
       hcics_guard_write_u8 0x80 0x00,
       hcics_guard_write_u8 VL53_REG_SYSRANGE_START 0x01];
     if \<not> ok then oret (- RT_ERROR, distance_mm)
     else
       obind (hcics_guard_wait_reg_bits env n VL53_REG_SYSRANGE_START 0x01 False) (\<lambda>started.
       if \<not> started then oret (- RT_ETIMEOUT, distance_mm)
       else
         obind (hcics_guard_wait_reg_bits env n VL53_REG_RESULT_INTERRUPT_STATUS 0x07 True) (\<lambda>measured.
         if \<not> measured then oret (- RT_ETIMEOUT, distance_mm)
         else do {
           r \<leftarrow> hcics_guard_read_u16 (VL53_REG_RESULT_RANGE_STATUS + 10);
           case r of Inl e \<Rightarrow> oret (- RT_ERROR, distance_mm)
           | Inr distance \<Rightarrow> do {
               result \<leftarrow> hcics_guard_write_u8 VL53_REG_SYSTEM_INTERRUPT_CLEAR 0x01;
               oret (result, distance) } })) }"

definition hcics_guard_read_contact :: "('a guard_scheme, bool) state" where
  "hcics_guard_read_contact =
     (if HCICS_GUARD_CONTACT_PIN \<ge> 0
      then do {
        level \<leftarrow> hw_do (Pin_Read HCICS_GUARD_CONTACT_PIN);
        ret (level = HCICS_GUARD_CONTACT_ACTIVE_LEVEL) }
      else ret False)"

definition hcics_guard_publish ::
  "('a guard_scheme, unit) state \<Rightarrow> u16 \<Rightarrow> bool \<Rightarrow> bool \<Rightarrow> ('a guard_scheme, rt_err) state" where
  "hcics_guard_publish env distance_mm tof_valid force_stop = do {
     contact \<leftarrow> hcics_guard_read_contact;
     now \<leftarrow> rt_tick_get;
     hcics_cleaner_update_guard env
       \<lparr>gd_tof_mm = (if tof_valid then distance_mm else HCICS_CLEANER_TOF_INVALID_MM),
        gd_tof_valid = tof_valid, gd_contact = contact, gd_force_stop = force_stop, gd_tick = now\<rparr> }"

definition hcics_guard_sample_once ::
  "('a guard_scheme, unit) state \<Rightarrow> nat \<Rightarrow> ('a guard_scheme, rt_err option) state" where
  "hcics_guard_sample_once env n =
     obind (hcics_guard_read_distance env n HCICS_CLEANER_TOF_INVALID_MM) (\<lambda>(result, distance).
     if result = RT_EOK \<and> distance \<noteq> 0 \<and> distance \<noteq> HCICS_CLEANER_TOF_INVALID_MM then do {
       modify (\<lambda>s. s\<lparr>gu_read_errors := 0\<rparr>);
       published \<leftarrow> hcics_guard_publish env distance True False;
       oret published }
     else do {
       modify (\<lambda>s. s\<lparr>gu_read_errors :=
         (if gu_read_errors s < 0xFF then gu_read_errors s + 1 else gu_read_errors s)\<rparr>);
       errors \<leftarrow> gets gu_read_errors;
       (if errors \<ge> HCICS_GUARD_MAX_READ_ERRORS
        then do { _ \<leftarrow> hcics_guard_publish env HCICS_CLEANER_TOF_INVALID_MM False True; ret () }
        else ret ());
       oret result })"

text \<open>One turn of the thread's endless loop.\<close>

definition hcics_guard_thread :: "('a guard_scheme, unit) state \<Rightarrow> nat \<Rightarrow> ('a guard_scheme, unit option) state" where
  "hcics_guard_thread env n =
     obind (hcics_guard_sample_once env n) (\<lambda>_. do {
       guard_mdelay env HCICS_GUARD_SAMPLE_MS;
       oret () })"

definition hcics_guard_init :: "('a guard_scheme, unit) state \<Rightarrow> nat \<Rightarrow> ('a guard_scheme, rt_err option) state" where
  "hcics_guard_init env n = do {
     initialized \<leftarrow> gets gu_initialized;
     if initialized then oret RT_EOK
     else do {
       modify (\<lambda>s. s\<lparr>gu_initialized := False, gu_ready := False, gu_stop_variable := 0,
         gu_read_errors := 0, gu_bus := False\<rparr>);
       found \<leftarrow> hw_do (Dev_Find HCICS_GUARD_I2C_BUS_NAME);
       modify (\<lambda>s. s\<lparr>gu_bus := (found \<noteq> 0)\<rparr>);
       if found = 0 then oret (- RT_ENOSYS)
       else do {
         (if HCICS_GUARD_CONTACT_PIN \<ge> 0 then hw_out (Pin_Mode HCICS_GUARD_CONTACT_PIN) else ret ());
         obind (hcics_guard_sensor_init env n) (\<lambda>result.
         if result \<noteq> RT_EOK then oret result
         else
           obind (hcics_guard_sample_once env n) (\<lambda>result.
           if result \<noteq> RT_EOK then oret result
           else do {
             thread \<leftarrow> hw_do (Thread_Create ''hguard'');
             if thread = 0 then oret (- RT_ENOMEM)
             else do {
               hw_out (Thread_Startup ''hguard'');
               modify (\<lambda>s. s\<lparr>gu_ready := True, gu_initialized := True\<rparr>);
               oret RT_EOK } })) } } }"

definition hcics_guard_is_ready :: "('a guard_scheme, bool) state" where
  "hcics_guard_is_ready = gets gu_ready"

end
