(* ===== verification/HcicsApp.thy ===== *)
theory HcicsApp
  imports HcicsGuard HcicsTrackRuns
begin

text \<open>
  The application, \<open>applications/hcics_app.c\<close>: it takes faults from the network, drives the vehicle
  to the panel, has it cleaned, drives back and reports. The record extends the state of all the
  other modules with \<open>g_hcics\<close>, so this is the state of the whole program. The operation \<open>env\<close> is
  what the other threads do whenever the running one takes a lock or sleeps, as in \<open>HcicsCleaner\<close>;
  loops that end by the clock or a flag take fuel.

  \<open>ap_queue\<close> is the content of the message queue, and \<open>ap_from\<close> the sender that \<open>recvfrom\<close> reports,
  which depends on the history like every answer of the boundary.
\<close>

section \<open>State\<close>

definition HCICS_NET_PORT :: int where "HCICS_NET_PORT = 6208"
definition HCICS_TRACK_CAMERA_UART_NAME :: string where "HCICS_TRACK_CAMERA_UART_NAME = ''uart1''"
definition HCICS_CLEAN_CAMERA_UART_NAME :: string where "HCICS_CLEAN_CAMERA_UART_NAME = ''uart6''"
definition HCICS_UDP_TOKEN :: string where "HCICS_UDP_TOKEN = ''change-me''"
definition HCICS_WIFI_INIT_TIMEOUT_MS :: u32 where "HCICS_WIFI_INIT_TIMEOUT_MS = 15000"
definition HCICS_WIFI_CONNECT_TIMEOUT_MS :: u32 where "HCICS_WIFI_CONNECT_TIMEOUT_MS = 20000"
definition HCICS_WIFI_RETRY_DELAY_MS :: u32 where "HCICS_WIFI_RETRY_DELAY_MS = 2000"
definition HCICS_WIFI_POLL_MS :: u32 where "HCICS_WIFI_POLL_MS = 200"
definition HCICS_CONTROL_PERIOD_MS :: u32 where "HCICS_CONTROL_PERIOD_MS = 5"
definition HCICS_CLEAN_MAX_CYCLES :: u8 where "HCICS_CLEAN_MAX_CYCLES = 3"
definition HCICS_TRACK_POLL_MS :: u32 where "HCICS_TRACK_POLL_MS = 20"
definition HCICS_TRACK_NAV_TIMEOUT_MS :: u32 where "HCICS_TRACK_NAV_TIMEOUT_MS = 120000"
definition HCICS_TRACK_WAIT_CAMERA_MS :: u32 where "HCICS_TRACK_WAIT_CAMERA_MS = 5000"
definition HCICS_TRACK_LOST_CAMERA_MS :: u32 where "HCICS_TRACK_LOST_CAMERA_MS = 2500"
definition HCICS_TRACK_MIN_CAMERA_W :: u8 where "HCICS_TRACK_MIN_CAMERA_W = 3"
definition HCICS_CLEAN_POLL_MS :: u32 where "HCICS_CLEAN_POLL_MS = 100"
definition HCICS_CLEAN_TIMEOUT_MS :: u32 where "HCICS_CLEAN_TIMEOUT_MS = 60000"

datatype hcics_state =
    HCICS_STATE_IDLE | HCICS_STATE_NAV_TO_FAULT | HCICS_STATE_PARKED | HCICS_STATE_CLEANING
  | HCICS_STATE_VERIFY_CLEAR | HCICS_STATE_RETURN_HOME | HCICS_STATE_ERROR

record sockaddr_in =
  sin_family :: int
  sin_port :: u16
  sin_addr :: u32

text \<open>The only type of message is \<open>HCICS_MSG_FAULT\<close>; \<open>msg_peer\<close> is \<open>peer\<close> when \<open>peer_valid\<close>.\<close>

datatype hcics_msg_type = HCICS_MSG_FAULT

record hcics_msg =
  msg_type :: hcics_msg_type
  msg_fault :: hcics_fault
  msg_peer :: "sockaddr_in option"

text \<open>The pending report is \<open>Some\<close> when \<open>pending_report_valid\<close>.\<close>

record app = guard +
  ap_initialized :: bool
  ap_busy :: bool
  ap_abort :: bool
  ap_motion_fault :: bool
  ap_motion_fault_reason :: u8
  ap_state :: hcics_state
  ap_active_fault :: hcics_fault
  ap_latest_clean :: hcics_camera_target
  ap_latest_track :: hcics_camera_target
  ap_udp_sock :: int
  ap_pending :: "(hcics_remote_cmd \<times> u8 \<times> sockaddr_in) option"
  ap_mq :: bool
  ap_track_uart :: "rt_device option"
  ap_clean_uart :: "rt_device option"
  ap_queue :: "hcics_msg list"
  ap_from :: "hw_call list \<Rightarrow> sockaddr_in"

type_synonym 'a app_env = "('a app_scheme, unit) state"

fun hcics_state_name :: "hcics_state \<Rightarrow> string" where
  "hcics_state_name HCICS_STATE_IDLE = ''IDLE''"
| "hcics_state_name HCICS_STATE_NAV_TO_FAULT = ''NAV_TO_FAULT''"
| "hcics_state_name HCICS_STATE_PARKED = ''PARKED''"
| "hcics_state_name HCICS_STATE_CLEANING = ''CLEANING''"
| "hcics_state_name HCICS_STATE_VERIFY_CLEAR = ''VERIFY_CLEAR''"
| "hcics_state_name HCICS_STATE_RETURN_HOME = ''RETURN_HOME''"
| "hcics_state_name HCICS_STATE_ERROR = ''ERROR''"

definition hcics_set_state :: "hcics_state \<Rightarrow> ('a app_scheme, unit) state" where
  "hcics_set_state st = modify (\<lambda>s. s\<lparr>ap_state := st\<rparr>)"

definition app_take :: "'a app_env \<Rightarrow> string \<Rightarrow> ('a app_scheme, unit) state" where
  "app_take env lock = do { env; hw_out (Mutex_Take lock) }"

definition app_release :: "string \<Rightarrow> ('a app_scheme, unit) state" where
  "app_release lock = hw_out (Mutex_Release lock)"

definition app_mdelay :: "'a app_env \<Rightarrow> u32 \<Rightarrow> ('a app_scheme, unit) state" where
  "app_mdelay env ms = do { rt_thread_mdelay ms; env }"

section \<open>Missions\<close>

definition hcics_reserve_mission :: "'a app_env \<Rightarrow> hcics_fault \<Rightarrow> ('a app_scheme, rt_err) state" where
  "hcics_reserve_mission env fault =
     (if \<not> hcics_protocol_fault_is_valid fault then ret (- RT_EINVAL)
      else do {
        app_take env ''hcics_st'';
        busy \<leftarrow> gets ap_busy;
        if busy then do {
          app_release ''hcics_st'';
          ret (- RT_EBUSY) }
        else do {
          app_take env ''hcics_udp'';
          pending \<leftarrow> gets ap_pending;
          if pending \<noteq> None then do {
            app_release ''hcics_udp'';
            app_release ''hcics_st'';
            ret (- RT_EBUSY) }
          else do {
            app_release ''hcics_udp'';
            modify (\<lambda>s. s\<lparr>ap_busy := True, ap_active_fault := fault\<rparr>);
            app_release ''hcics_st'';
            ret RT_EOK } } })"

definition hcics_release_mission :: "'a app_env \<Rightarrow> ('a app_scheme, unit) state" where
  "hcics_release_mission env = do {
     app_take env ''hcics_st'';
     modify (\<lambda>s. s\<lparr>ap_busy := False\<rparr>);
     app_release ''hcics_st'' }"

text \<open>The variable \<open>left\<close> gets smaller with every turn.\<close>

fun app_delay_loop :: "'a app_env \<Rightarrow> nat \<Rightarrow> ('a app_scheme, bool) state" where
  "app_delay_loop env left =
     (if left = 0 then ret True
      else do {
        abort \<leftarrow> gets ap_abort;
        if abort then ret False
        else if left \<ge> 50 then do {
          app_mdelay env 50;
          app_delay_loop env (left - 50) }
        else do {
          app_mdelay env (word_of_nat left);
          app_delay_loop env 0 } })"

declare app_delay_loop.simps [simp del]

definition hcics_delay_abortable :: "'a app_env \<Rightarrow> u32 \<Rightarrow> ('a app_scheme, bool) state" where
  "hcics_delay_abortable env ms = app_delay_loop env (unat ms)"

section \<open>The track camera\<close>

definition hcics_latest_track_recent :: "'a app_env \<Rightarrow> u32 \<Rightarrow> ('a app_scheme, bool) state" where
  "hcics_latest_track_recent env max_age_ms = do {
     app_take env ''hcics_cam'';
     target \<leftarrow> gets ap_latest_track;
     app_release ''hcics_cam'';
     if cam_mode target \<noteq> HCICS_CAM_MODE_TRACK \<or> cam_tick target = 0 \<or>
        cam_width target < HCICS_TRACK_MIN_CAMERA_W then ret False
     else do {
       now \<leftarrow> now_ms;
       ret (now - tick_to_ms (cam_tick target) \<le> max_age_ms) } }"

fun app_wait_camera_loop ::
  "'a app_env \<Rightarrow> u32 \<Rightarrow> u32 \<Rightarrow> nat \<Rightarrow> ('a app_scheme, rt_err option) state" where
  "app_wait_camera_loop env start timeout_ms 0 = ret None"
| "app_wait_camera_loop env start timeout_ms (Suc n) = do {
     abort \<leftarrow> gets ap_abort;
     if abort then oret (- RT_EINTR)
     else do {
       recent \<leftarrow> hcics_latest_track_recent env HCICS_TRACK_LOST_CAMERA_MS;
       if recent then oret RT_EOK
       else do {
         now \<leftarrow> now_ms;
         if now - start \<ge> timeout_ms then oret (- RT_ETIMEOUT)
         else do {
           app_mdelay env HCICS_TRACK_POLL_MS;
           app_wait_camera_loop env start timeout_ms n } } } }"

definition hcics_wait_track_camera :: "'a app_env \<Rightarrow> nat \<Rightarrow> u32 \<Rightarrow> ('a app_scheme, rt_err option) state" where
  "hcics_wait_track_camera env n timeout_ms = do {
     start \<leftarrow> now_ms;
     app_wait_camera_loop env start timeout_ms n }"

definition hcics_track_state_requires_camera :: "hcics_track_state \<Rightarrow> bool" where
  "hcics_track_state_requires_camera st \<longleftrightarrow> st = HCICS_TRACK_STATE_LINE"

section \<open>Motion faults and the control thread\<close>

definition hcics_latch_motion_fault :: "u8 \<Rightarrow> ('a app_scheme, unit) state" where
  "hcics_latch_motion_fault reason = do {
     modify (\<lambda>s. if \<not> ap_motion_fault s then s\<lparr>ap_motion_fault_reason := reason\<rparr> else s);
     modify (\<lambda>s. s\<lparr>ap_motion_fault := True, ap_abort := True\<rparr>) }"

text \<open>\<open>(snap.stop_reason != 0U) ? snap.stop_reason : 0xE0U\<close>\<close>

definition app_fault_reason :: "hcics_motion_snapshot \<Rightarrow> u8" where
  "app_fault_reason snap = (if snap_stop_reason snap \<noteq> 0 then snap_stop_reason snap else 0xE0)"

definition hcics_track_set_motor :: "'a app_scheme motor" where
  "hcics_track_set_motor left right = do {
     result \<leftarrow> hcics_motion_set_target left right;
     if result \<noteq> RT_EOK then do {
       snap \<leftarrow> hcics_motion_get_snapshot;
       hcics_latch_motion_fault (app_fault_reason snap) }
     else ret () }"

definition hcics_track_get_speed :: "('a app_scheme, int \<times> int) state" where
  "hcics_track_get_speed = do {
     (_, left, _, right) \<leftarrow> hcics_motion_get_realtime;
     ret (left, right) }"

text \<open>One turn of the endless loop.\<close>

definition hcics_control_thread :: "'a app_env \<Rightarrow> ('a app_scheme, unit) state" where
  "hcics_control_thread env = do {
     now \<leftarrow> now_ms;
     hcics_track_tick hcics_track_set_motor now;
     result \<leftarrow> hcics_motion_update;
     (if result \<noteq> RT_EOK then do {
        snap \<leftarrow> hcics_motion_get_snapshot;
        hcics_latch_motion_fault (app_fault_reason snap) }
      else ret ());
     app_mdelay env HCICS_CONTROL_PERIOD_MS }"

section \<open>Camera frames\<close>

definition hcics_forward_clean_camera :: "'a app_env \<Rightarrow> hcics_camera_target \<Rightarrow> ('a app_scheme, unit) state" where
  "hcics_forward_clean_camera env target = do {
     _ \<leftarrow> hcics_cleaner_update_camera_target env
       \<lparr>ct_mode = cam_mode target, ct_x = cam_x target, ct_y = cam_y target,
        ct_width = cam_width target, ct_type = cam_type target, ct_valid = (cam_width target > 0),
        ct_tick = cam_tick target\<rparr>;
     ret () }"

definition hcics_app_update_camera :: "'a app_env \<Rightarrow> hcics_camera_target \<Rightarrow> ('a app_scheme, unit) state" where
  "hcics_app_update_camera env target = do {
     app_take env ''hcics_cam'';
     modify (\<lambda>s. if cam_mode target = HCICS_CAM_MODE_CLEAN then s\<lparr>ap_latest_clean := target\<rparr>
       else if cam_mode target = HCICS_CAM_MODE_TRACK then s\<lparr>ap_latest_track := target\<rparr> else s);
     app_release ''hcics_cam'';
     if cam_mode target = HCICS_CAM_MODE_CLEAN then hcics_forward_clean_camera env target
     else if cam_mode target = HCICS_CAM_MODE_TRACK then hcics_track_update_camera target
     else ret () }"

definition hcics_app_update_role_camera ::
  "'a app_env \<Rightarrow> hcics_camera_target \<Rightarrow> u8 \<Rightarrow> ('a app_scheme, unit) state" where
  "hcics_app_update_role_camera env target expected_mode =
     hcics_app_update_camera env
       (if cam_mode target \<noteq> expected_mode then target\<lparr>cam_mode := expected_mode\<rparr> else target)"

text \<open>
  \<open>rt_device_read(camera_uart, 0, &byte, 1)\<close>: the size and the byte. The names of the two UARTs are
  never those of the encoders.
\<close>

fun app_read_byte :: "rt_device \<Rightarrow> ('a app_scheme, int \<times> u8) state" where
  "app_read_byte (Other_Dev name) = do {
     (size, bytes) \<leftarrow> hw_rx (Dev_Read name);
     ret (size, case bytes of [] \<Rightarrow> 0 | b # _ \<Rightarrow> b) }"
| "app_read_byte (Encoder_Dev w) = ret (0, 0)"

text \<open>One turn of the endless loop, on the local \<open>parser\<close>; \<open>None\<close> when the thread ends.\<close>

definition hcics_camera_uart_loop ::
  "'a app_env \<Rightarrow> rt_device option \<Rightarrow> u8 \<Rightarrow> hcics_camera_parser \<Rightarrow>
     ('a app_scheme, hcics_camera_parser option) state" where
  "hcics_camera_uart_loop env camera_uart expected_mode parser =
     (case camera_uart of
        None \<Rightarrow> ret None
      | Some uart \<Rightarrow> do {
          (size, byte) \<leftarrow> app_read_byte uart;
          if size = 1 then do {
            now \<leftarrow> rt_tick_get;
            let (complete, parser, target) = hcics_protocol_camera_feed now parser byte
              \<lparr>cam_mode = 0, cam_x = 0, cam_y = 0, cam_width = 0, cam_type = 0, cam_tick = 0\<rparr>;
            (if complete then hcics_app_update_role_camera env target expected_mode else ret ());
            ret (Some parser) }
          else do {
            app_mdelay env 10;
            ret (Some parser) } })"

definition hcics_track_camera_uart_thread ::
  "'a app_env \<Rightarrow> hcics_camera_parser \<Rightarrow> ('a app_scheme, hcics_camera_parser option) state" where
  "hcics_track_camera_uart_thread env parser = do {
     uart \<leftarrow> gets ap_track_uart;
     hcics_camera_uart_loop env uart HCICS_CAM_MODE_TRACK parser }"

definition hcics_clean_camera_uart_thread ::
  "'a app_env \<Rightarrow> hcics_camera_parser \<Rightarrow> ('a app_scheme, hcics_camera_parser option) state" where
  "hcics_clean_camera_uart_thread env parser = do {
     uart \<leftarrow> gets ap_clean_uart;
     hcics_camera_uart_loop env uart HCICS_CAM_MODE_CLEAN parser }"

section \<open>Commands and reports\<close>

definition hcics_app_stop :: "'a app_env \<Rightarrow> u8 \<Rightarrow> ('a app_scheme, unit) state" where
  "hcics_app_stop env reason = do {
     modify (\<lambda>s. s\<lparr>ap_abort := True\<rparr>);
     hcics_track_stop hcics_track_set_motor;
     hcics_cleaner_emergency_stop env;
     hcics_motion_emergency_stop reason }"

fun hcics_report_text :: "hcics_remote_cmd \<Rightarrow> string" where
  "hcics_report_text HCICS_REMOTE_DONE = ''DONE''"
| "hcics_report_text HCICS_REMOTE_ERROR = ''ERROR''"

definition hcics_wifi_link_ready :: "('a app_scheme, bool) state" where
  "hcics_wifi_link_ready = do {
     ready \<leftarrow> hw_do Wlan_Is_Ready;
     ret (ready \<noteq> 0) }"

text \<open>\<open>snprintf(text, sizeof(text), "%s,%u\n", \<dots>)\<close>\<close>

definition app_report_line :: "hcics_remote_cmd \<Rightarrow> u8 \<Rightarrow> string" where
  "app_report_line cmd param = hcics_report_text cmd @ '','' @ dec_u8 param @ [CHR 0x0A]"

definition hcics_udp_send_report ::
  "int \<Rightarrow> hcics_remote_cmd \<Rightarrow> u8 \<Rightarrow> sockaddr_in option \<Rightarrow> ('a app_scheme, bool) state" where
  "hcics_udp_send_report sock cmd param peer =
     (case peer of
        None \<Rightarrow> ret False
      | Some to \<Rightarrow>
          if sock < 0 then ret False
          else do {
            ready \<leftarrow> hcics_wifi_link_ready;
            if \<not> ready then ret False
            else do {
              let text = app_report_line cmd param;
              if length text \<ge> 24 then ret False
              else do {
                sent \<leftarrow> hw_do (Sock_Send sock text (sin_family to) (sin_port to) (sin_addr to));
                ret (sent = int (length text)) } } })"

fun hcics_same_peer :: "sockaddr_in option \<Rightarrow> sockaddr_in option \<Rightarrow> bool" where
  "hcics_same_peer (Some left) (Some right) \<longleftrightarrow>
     sin_family left = sin_family right \<and> sin_port left = sin_port right \<and> sin_addr left = sin_addr right"
| "hcics_same_peer _ _ \<longleftrightarrow> False"

definition hcics_store_pending_report_locked ::
  "hcics_remote_cmd \<Rightarrow> u8 \<Rightarrow> sockaddr_in option \<Rightarrow> ('a app_scheme, bool) state" where
  "hcics_store_pending_report_locked cmd param peer =
     (case peer of
        None \<Rightarrow> ret False
      | Some to \<Rightarrow> do {
          pending \<leftarrow> gets ap_pending;
          if pending \<noteq> None then ret False
          else do {
            modify (\<lambda>s. s\<lparr>ap_pending := Some (cmd, param, to)\<rparr>);
            ret True } })"

definition hcics_clear_pending_report_if_current ::
  "'a app_env \<Rightarrow> hcics_remote_cmd \<Rightarrow> u8 \<Rightarrow> sockaddr_in option \<Rightarrow> ('a app_scheme, unit) state" where
  "hcics_clear_pending_report_if_current env cmd param peer = do {
     app_take env ''hcics_udp'';
     modify (\<lambda>s. case ap_pending s of
         None \<Rightarrow> s
       | Some (c, p, to) \<Rightarrow>
           if c = cmd \<and> p = param \<and> hcics_same_peer (Some to) peer then s\<lparr>ap_pending := None\<rparr> else s);
     app_release ''hcics_udp'' }"

definition hcics_flush_pending_report :: "'a app_env \<Rightarrow> ('a app_scheme, unit) state" where
  "hcics_flush_pending_report env = do {
     app_take env ''hcics_udp'';
     pending \<leftarrow> gets ap_pending;
     sock \<leftarrow> gets ap_udp_sock;
     case pending of
       None \<Rightarrow> app_release ''hcics_udp''
     | Some (cmd, param, peer) \<Rightarrow>
         if sock < 0 then app_release ''hcics_udp''
         else do {
           ready \<leftarrow> hcics_wifi_link_ready;
           if \<not> ready then app_release ''hcics_udp''
           else do {
             app_release ''hcics_udp'';
             sent \<leftarrow> hcics_udp_send_report sock cmd param (Some peer);
             if sent then hcics_clear_pending_report_if_current env cmd param (Some peer)
             else ret () } } }"

definition hcics_pending_report_active :: "'a app_env \<Rightarrow> ('a app_scheme, bool) state" where
  "hcics_pending_report_active env = do {
     app_take env ''hcics_udp'';
     pending \<leftarrow> gets ap_pending;
     app_release ''hcics_udp'';
     ret (pending \<noteq> None) }"

definition hcics_report_esp_final ::
  "'a app_env \<Rightarrow> hcics_remote_cmd \<Rightarrow> u8 \<Rightarrow> sockaddr_in option \<Rightarrow> ('a app_scheme, unit) state" where
  "hcics_report_esp_final env cmd param peer =
     (if peer = None then ret ()
      else do {
        app_take env ''hcics_udp'';
        sock \<leftarrow> gets ap_udp_sock;
        app_release ''hcics_udp'';
        sent \<leftarrow> hcics_udp_send_report sock cmd param peer;
        if sent then ret ()
        else do {
          app_take env ''hcics_udp'';
          _ \<leftarrow> hcics_store_pending_report_locked cmd param peer;
          app_release ''hcics_udp'' } })"

definition hcics_report_esp_reject ::
  "'a app_env \<Rightarrow> hcics_remote_cmd \<Rightarrow> u8 \<Rightarrow> sockaddr_in option \<Rightarrow> ('a app_scheme, unit) state" where
  "hcics_report_esp_reject env cmd param peer =
     (if peer = None then ret ()
      else do {
        app_take env ''hcics_udp'';
        sock \<leftarrow> gets ap_udp_sock;
        app_release ''hcics_udp'';
        _ \<leftarrow> hcics_udp_send_report sock cmd param peer;
        ret () })"

text \<open>
  \<open>rt_mq_send\<close> and \<open>rt_mq_recv\<close>: the kernel says whether the message was queued or taken. A receiver
  waits for as long as the queue is empty; \<open>None\<close>.
\<close>

definition rt_mq_send :: "hcics_msg \<Rightarrow> ('a app_scheme, rt_err) state" where
  "rt_mq_send msg = do {
     result \<leftarrow> hw_do (Mq_Send 1);
     (if result = RT_EOK then modify (\<lambda>s. s\<lparr>ap_queue := ap_queue s @ [msg]\<rparr>) else ret ());
     ret result }"

definition rt_mq_recv :: "('a app_scheme, (rt_err + hcics_msg) option) state" where
  "rt_mq_recv = do {
     queue \<leftarrow> gets ap_queue;
     case queue of
       [] \<Rightarrow> ret None
     | msg # rest \<Rightarrow> do {
         result \<leftarrow> hw_do Mq_Recv;
         if result \<noteq> RT_EOK then ret (Some (Inl result))
         else do {
           modify (\<lambda>s. s\<lparr>ap_queue := rest\<rparr>);
           ret (Some (Inr msg)) } } }"

definition hcics_enqueue_fault ::
  "'a app_env \<Rightarrow> hcics_fault \<Rightarrow> sockaddr_in option \<Rightarrow> ('a app_scheme, rt_err) state" where
  "hcics_enqueue_fault env fault peer = do {
     mq \<leftarrow> gets ap_mq;
     if \<not> mq then ret (- RT_EINVAL)
     else if \<not> hcics_protocol_fault_is_valid fault then ret (- RT_EINVAL)
     else do {
       active \<leftarrow> hcics_pending_report_active env;
       if active then ret (- RT_EBUSY)
       else do {
         result \<leftarrow> hcics_reserve_mission env fault;
         if result \<noteq> RT_EOK then ret result
         else do {
           result \<leftarrow> rt_mq_send \<lparr>msg_type = HCICS_MSG_FAULT, msg_fault = fault, msg_peer = peer\<rparr>;
           (if result \<noteq> RT_EOK then hcics_release_mission env else ret ());
           ret result } } } }"

section \<open>Driving and cleaning\<close>

definition hcics_fault_to_track_target :: "hcics_fault \<Rightarrow> u8" where
  "hcics_fault_to_track_target fault =
     (if hcics_protocol_fault_is_valid fault \<and> fault_id fault \<ge> HCICS_TRACK_TARGET_MIN \<and>
         fault_id fault \<le> HCICS_TRACK_TARGET_MAX
      then fault_id fault else HCICS_TRACK_TARGET_HOME)"

text \<open>Giving up: the track is stopped and the drive told to stand still.\<close>

definition app_halt_drive :: "('a app_scheme, unit) state" where
  "app_halt_drive = do {
     hcics_track_stop hcics_track_set_motor;
     _ \<leftarrow> hcics_motion_set_target_direct 0 0;
     ret () }"

fun app_follow_loop :: "'a app_env \<Rightarrow> u32 \<Rightarrow> nat \<Rightarrow> ('a app_scheme, rt_err option) state" where
  "app_follow_loop env start_ms 0 = ret None"
| "app_follow_loop env start_ms (Suc n) = do {
     abort \<leftarrow> gets ap_abort;
     if abort then do {
       app_halt_drive;
       motion_fault \<leftarrow> gets ap_motion_fault;
       oret (if motion_fault then - RT_ERROR else - RT_EINTR) }
     else do {
       now \<leftarrow> now_ms;
       motion_fault \<leftarrow> gets ap_motion_fault;
       if motion_fault then do {
         app_halt_drive;
         oret (- RT_ERROR) }
       else do {
         finished \<leftarrow> hcics_track_is_finished;
         if finished then do {
           _ \<leftarrow> hcics_motion_set_target_direct 0 0;
           oret RT_EOK }
         else do {
           status \<leftarrow> hcics_track_status;
           recent \<leftarrow> (if hcics_track_state_requires_camera (st_visual_mission_state status)
             then hcics_latest_track_recent env HCICS_TRACK_LOST_CAMERA_MS else ret True);
           if \<not> recent then do {
             app_halt_drive;
             oret (- RT_ETIMEOUT) }
           else if now - start_ms \<ge> HCICS_TRACK_NAV_TIMEOUT_MS then do {
             app_halt_drive;
             oret (- RT_ETIMEOUT) }
           else do {
             app_mdelay env HCICS_TRACK_POLL_MS;
             app_follow_loop env start_ms n } } } } }"

definition hcics_follow_track_path :: "'a app_env \<Rightarrow> nat \<Rightarrow> u8 \<Rightarrow> ('a app_scheme, rt_err option) state" where
  "hcics_follow_track_path env n target_id =
     obind (hcics_wait_track_camera env n HCICS_TRACK_WAIT_CAMERA_MS) (\<lambda>result.
     if result \<noteq> RT_EOK then oret result
     else do {
       result \<leftarrow> hcics_track_start_path target_id;
       if result \<noteq> RT_EOK then oret result
       else do {
         start_ms \<leftarrow> now_ms;
         app_follow_loop env start_ms n } })"

definition hcics_navigate_to_fault :: "'a app_env \<Rightarrow> nat \<Rightarrow> hcics_fault \<Rightarrow> ('a app_scheme, rt_err option) state" where
  "hcics_navigate_to_fault env n fault =
     (let target_id = hcics_fault_to_track_target fault
      in if target_id = HCICS_TRACK_TARGET_HOME then oret (- RT_EINVAL)
         else hcics_follow_track_path env n target_id)"

definition hcics_return_home :: "'a app_env \<Rightarrow> nat \<Rightarrow> ('a app_scheme, rt_err option) state" where
  "hcics_return_home env n = hcics_follow_track_path env n HCICS_TRACK_TARGET_HOME"

fun app_clean_loop :: "'a app_env \<Rightarrow> u32 \<Rightarrow> nat \<Rightarrow> ('a app_scheme, rt_err option) state" where
  "app_clean_loop env start_ms 0 = ret None"
| "app_clean_loop env start_ms (Suc n) = do {
     abort \<leftarrow> gets ap_abort;
     if abort then do {
       hcics_cleaner_emergency_stop env;
       oret (- RT_EINTR) }
     else do {
       r \<leftarrow> hcics_cleaner_get_status env;
       case r of
         Inl result \<Rightarrow> oret result
       | Inr status \<Rightarrow>
           if cs_state status = HCICS_CLEANER_STATE_DONE then oret (cs_last_result status)
           else if cs_state status = HCICS_CLEANER_STATE_ERROR
             then oret (if cs_last_result status = RT_EOK then - RT_ERROR else cs_last_result status)
           else if cs_state status = HCICS_CLEANER_STATE_STOPPED then oret (- RT_EINTR)
           else do {
             now \<leftarrow> now_ms;
             if now - start_ms \<ge> HCICS_CLEAN_TIMEOUT_MS then do {
               hcics_cleaner_emergency_stop env;
               oret (- RT_ETIMEOUT) }
             else do {
               app_mdelay env HCICS_CLEAN_POLL_MS;
               app_clean_loop env start_ms n } } } }"

definition hcics_clean_panel :: "'a app_env \<Rightarrow> nat \<Rightarrow> ('a app_scheme, rt_err option) state" where
  "hcics_clean_panel env n = do {
     result \<leftarrow> hcics_cleaner_start env HCICS_CLEAN_MAX_CYCLES;
     if result \<noteq> RT_EOK then oret result
     else do {
       start_ms \<leftarrow> now_ms;
       app_clean_loop env start_ms n } }"

definition hcics_safe_stop_outputs :: "'a app_env \<Rightarrow> nat \<Rightarrow> ('a app_scheme, unit option) state" where
  "hcics_safe_stop_outputs env n = do {
     hcics_track_stop hcics_track_set_motor;
     obind (hcics_cleaner_reset env n) (\<lambda>_. do {
       _ \<leftarrow> hcics_motion_set_target_direct 0 0;
       oret () }) }"

section \<open>A mission\<close>

text \<open>
  The label \<open>mission_failed\<close>. A released mission makes room for the next one only after the report
  was sent or stored.
\<close>

definition hcics_mission_failed ::
  "'a app_env \<Rightarrow> nat \<Rightarrow> hcics_fault \<Rightarrow> sockaddr_in option \<Rightarrow> rt_err \<Rightarrow>
     ('a app_scheme, rt_err option) state" where
  "hcics_mission_failed env n fault peer result =
     obind (hcics_safe_stop_outputs env n) (\<lambda>_. do {
     hcics_set_state HCICS_STATE_ERROR;
     hcics_report_esp_final env HCICS_REMOTE_ERROR (fault_id fault) peer;
     hcics_release_mission env;
     hcics_set_state HCICS_STATE_IDLE;
     oret result })"

definition hcics_mission_done ::
  "'a app_env \<Rightarrow> nat \<Rightarrow> hcics_fault \<Rightarrow> sockaddr_in option \<Rightarrow> ('a app_scheme, rt_err option) state" where
  "hcics_mission_done env n fault peer =
     obind (hcics_safe_stop_outputs env n) (\<lambda>_. do {
     hcics_set_state HCICS_STATE_IDLE;
     hcics_report_esp_final env HCICS_REMOTE_DONE (fault_id fault) peer;
     hcics_release_mission env;
     oret RT_EOK })"

text \<open>From the reset of the cleaner to the return home; the result of the first part that fails.\<close>

definition hcics_mission_drive ::
  "'a app_env \<Rightarrow> nat \<Rightarrow> hcics_fault \<Rightarrow> ('a app_scheme, rt_err option) state" where
  "hcics_mission_drive env n fault =
     obind (hcics_cleaner_reset env n) (\<lambda>_. do {
     hcics_set_state HCICS_STATE_NAV_TO_FAULT;
     obind (hcics_navigate_to_fault env n fault) (\<lambda>result.
     if result \<noteq> RT_EOK then oret result
     else do {
       hcics_set_state HCICS_STATE_PARKED;
       completed \<leftarrow> hcics_delay_abortable env 500;
       if \<not> completed then oret (- RT_EINTR)
       else do {
         hcics_set_state HCICS_STATE_CLEANING;
         obind (hcics_clean_panel env n) (\<lambda>result.
         if result \<noteq> RT_EOK then oret result
         else do {
           hcics_set_state HCICS_STATE_RETURN_HOME;
           hcics_return_home env n }) } }) })"

definition hcics_run_mission :: "'a app_env \<Rightarrow> nat \<Rightarrow> hcics_msg \<Rightarrow> ('a app_scheme, rt_err option) state" where
  "hcics_run_mission env n msg =
     (if \<not> hcics_protocol_fault_is_valid (msg_fault msg) then oret (- RT_EINVAL)
      else do {
        let fault = msg_fault msg;
        let peer = msg_peer msg;
        modify (\<lambda>s. s\<lparr>ap_abort := False, ap_motion_fault := False, ap_motion_fault_reason := 0\<rparr>);
        hcics_motion_clear_emergency_stop;
        hcics_motion_reset;
        snap \<leftarrow> hcics_motion_get_snapshot;
        if snap_emergency_stop snap then do {
          modify (\<lambda>s. s\<lparr>ap_motion_fault := True, ap_motion_fault_reason := app_fault_reason snap\<rparr>);
          hcics_mission_failed env n fault peer (- RT_ERROR) }
        else
          obind (hcics_mission_drive env n fault) (\<lambda>result.
          if result \<noteq> RT_EOK then hcics_mission_failed env n fault peer result
          else hcics_mission_done env n fault peer) })"

text \<open>One turn of the endless loop; a turn that finds no message does nothing.\<close>

definition hcics_mission_thread :: "'a app_env \<Rightarrow> nat \<Rightarrow> ('a app_scheme, unit option) state" where
  "hcics_mission_thread env n = do {
     r \<leftarrow> rt_mq_recv;
     case r of
       Some (Inr msg) \<Rightarrow>
         if msg_type msg = HCICS_MSG_FAULT
         then obind (hcics_run_mission env n msg) (\<lambda>_. oret ())
         else oret ()
     | _ \<Rightarrow> oret () }"

section \<open>The network thread\<close>

fun app_wifi_loop :: "'a app_env \<Rightarrow> u32 \<Rightarrow> bool \<Rightarrow> nat \<Rightarrow> ('a app_scheme, rt_err option) state" where
  "app_wifi_loop env start_ms connect_requested 0 = ret None"
| "app_wifi_loop env start_ms connect_requested (Suc n) = do {
     now \<leftarrow> now_ms;
     if \<not> now - start_ms < HCICS_WIFI_CONNECT_TIMEOUT_MS then oret (- RT_ETIMEOUT)
     else do {
       ready \<leftarrow> hw_do Wlan_Is_Ready;
       if ready \<noteq> 0 then oret RT_EOK
       else do {
         connected \<leftarrow> hw_do Wlan_Is_Connected;
         connect_requested \<leftarrow> (if connected = 0 \<and> \<not> connect_requested
           then do { _ \<leftarrow> hw_do Wlan_Connect; ret True } else ret connect_requested);
         app_mdelay env HCICS_WIFI_POLL_MS;
         app_wifi_loop env start_ms connect_requested n } } }"

definition hcics_wifi_wait_ready :: "'a app_env \<Rightarrow> nat \<Rightarrow> ('a app_scheme, rt_err option) state" where
  "hcics_wifi_wait_ready env n = do {
     env;
     result \<leftarrow> hw_do (Wlan_Init_Wait HCICS_WIFI_INIT_TIMEOUT_MS);
     if result \<noteq> RT_EOK then oret result
     else do {
       hw_out Wlan_Autoreconnect;
       start_ms \<leftarrow> now_ms;
       app_wifi_loop env start_ms False n } }"

text \<open>\<open>g_hcics.udp_sock = \<dots>\<close> under the lock.\<close>

definition app_set_sock :: "'a app_env \<Rightarrow> int \<Rightarrow> ('a app_scheme, unit) state" where
  "app_set_sock env sock = do {
     app_take env ''hcics_udp'';
     modify (\<lambda>s. s\<lparr>ap_udp_sock := sock\<rparr>);
     app_release ''hcics_udp'' }"

text \<open>The outer loop up to the inner one: the socket that was opened and bound, if any.\<close>

definition app_udp_open :: "'a app_env \<Rightarrow> nat \<Rightarrow> ('a app_scheme, int option option) state" where
  "app_udp_open env n =
     obind (hcics_wifi_wait_ready env n) (\<lambda>result.
     if result \<noteq> RT_EOK then do {
       app_mdelay env HCICS_WIFI_RETRY_DELAY_MS;
       oret None }
     else do {
       sock \<leftarrow> hw_do Sock_Create;
       if sock < 0 then do {
         app_mdelay env HCICS_WIFI_RETRY_DELAY_MS;
         oret None }
       else do {
         hw_out (Sock_Timeout sock);
         bound \<leftarrow> hw_do (Sock_Bind sock);
         if bound < 0 then do {
           app_set_sock env (- 1);
           hw_out (Sock_Close sock);
           app_mdelay env HCICS_WIFI_RETRY_DELAY_MS;
           oret None }
         else do {
           app_set_sock env sock;
           hcics_flush_pending_report env;
           oret (Some sock) } } })"

text \<open>
  What is done with the text of a packet. \<open>fault\<close> is the uninitialised local of the loop; the parser
  writes it before it is read.
\<close>

definition app_udp_text :: "'a app_env \<Rightarrow> string \<Rightarrow> sockaddr_in \<Rightarrow> hcics_fault \<Rightarrow> ('a app_scheme, unit) state" where
  "app_udp_text env text peer fault =
     (let (is_fault, fault) = hcics_protocol_parse_fault_text (Some text) (Some HCICS_UDP_TOKEN) fault
      in if is_fault then do {
           active \<leftarrow> hcics_pending_report_active env;
           if active then hcics_report_esp_reject env HCICS_REMOTE_ERROR (fault_id fault) (Some peer)
           else do {
             result \<leftarrow> hcics_enqueue_fault env fault (Some peer);
             if result = - RT_EBUSY
               then hcics_report_esp_reject env HCICS_REMOTE_ERROR (fault_id fault) (Some peer)
             else if result \<noteq> RT_EOK
               then hcics_report_esp_reject env HCICS_REMOTE_ERROR (fault_id fault) (Some peer)
             else ret () } }
         else if hcics_protocol_parse_stop_text (Some text) (Some HCICS_UDP_TOKEN)
         then hcics_app_stop env 0xDD
         else ret ())"

text \<open>
  One turn of the inner loop: False when the link is lost and the socket has to be opened again.
  \<open>recvfrom\<close> waits at most a second; it fills \<open>buf\<close> with at most 127 bytes.
\<close>

definition app_udp_turn :: "'a app_env \<Rightarrow> int \<Rightarrow> hcics_fault \<Rightarrow> ('a app_scheme, bool) state" where
  "app_udp_turn env sock fault = do {
     ready \<leftarrow> hcics_wifi_link_ready;
     if \<not> ready then ret False
     else do {
       env;
       (len, bytes) \<leftarrow> hw_rx (Sock_Recv sock);
       peer \<leftarrow> gets (\<lambda>s. ap_from s (trace s));
       if len \<le> 0 then do {
         hcics_flush_pending_report env;
         ret True }
       else do {
         let buf = take (min (nat len) 127) bytes;
         if 0 \<in> set buf then ret True
         else do {
           hcics_flush_pending_report env;
           app_udp_text env (map (\<lambda>b. char_of (unat b)) buf) peer fault;
           ret True } } } }"

fun app_udp_loop :: "'a app_env \<Rightarrow> int \<Rightarrow> hcics_fault \<Rightarrow> nat \<Rightarrow> ('a app_scheme, unit option) state" where
  "app_udp_loop env sock fault 0 = ret None"
| "app_udp_loop env sock fault (Suc n) = do {
     go \<leftarrow> app_udp_turn env sock fault;
     if go then app_udp_loop env sock fault n else oret () }"

text \<open>
  One turn of the outer loop; \<open>n\<close> is the fuel of the wait for the network and \<open>packets\<close> that of the
  inner loop, which runs for as long as the link is up.
\<close>

definition hcics_udp_thread ::
  "'a app_env \<Rightarrow> nat \<Rightarrow> nat \<Rightarrow> hcics_fault \<Rightarrow> ('a app_scheme, unit option) state" where
  "hcics_udp_thread env n packets fault =
     obind (app_udp_open env n) (\<lambda>opened.
     case opened of
       None \<Rightarrow> oret ()
     | Some sock \<Rightarrow>
         obind (app_udp_loop env sock fault packets) (\<lambda>_. do {
         app_set_sock env (- 1);
         hw_out (Sock_Close sock);
         app_mdelay env HCICS_WIFI_RETRY_DELAY_MS;
         oret () }))"

section \<open>Initialisation\<close>

definition hcics_open_camera_uart :: "string \<Rightarrow> ('a app_scheme, rt_err \<times> rt_device option) state" where
  "hcics_open_camera_uart uart_name = do {
     uart \<leftarrow> rt_device_find uart_name;
     case uart of
       None \<Rightarrow> ret (- RT_ENOSYS, None)
     | Some dev \<Rightarrow> do {
         result \<leftarrow> rt_device_open dev;
         ret (if result \<noteq> RT_EOK then (result, None) else (RT_EOK, Some dev)) } }"

definition hcics_hw_init :: "('a app_scheme, rt_err) state" where
  "hcics_hw_init = do {
     (result, uart) \<leftarrow> hcics_open_camera_uart HCICS_TRACK_CAMERA_UART_NAME;
     modify (\<lambda>s. s\<lparr>ap_track_uart := uart\<rparr>);
     if result \<noteq> RT_EOK then ret result
     else do {
       (result, clean_uart) \<leftarrow> hcics_open_camera_uart HCICS_CLEAN_CAMERA_UART_NAME;
       modify (\<lambda>s. s\<lparr>ap_clean_uart := clean_uart\<rparr>);
       if result \<noteq> RT_EOK then do {
         (case uart of None \<Rightarrow> ret () | Some dev \<Rightarrow> do { _ \<leftarrow> rt_device_close dev; ret () });
         modify (\<lambda>s. s\<lparr>ap_track_uart := None\<rparr>);
         ret result }
       else ret RT_EOK } }"

fun app_delete_threads :: "(string \<times> int) list \<Rightarrow> ('a app_scheme, unit) state" where
  "app_delete_threads [] = ret ()"
| "app_delete_threads ((name, tid) # tids) = do {
     (if tid \<noteq> 0 then hw_out (Thread_Delete name) else ret ());
     app_delete_threads tids }"

definition app_start_threads :: "('a app_scheme, rt_err) state" where
  "app_start_threads = do {
     control_tid \<leftarrow> hw_do (Thread_Create ''hcics_ctl'');
     mission_tid \<leftarrow> hw_do (Thread_Create ''hcics'');
     udp_tid \<leftarrow> hw_do (Thread_Create ''hcics_udp'');
     track_camera_tid \<leftarrow> hw_do (Thread_Create ''cam_trk'');
     clean_camera_tid \<leftarrow> hw_do (Thread_Create ''cam_cln'');
     if control_tid = 0 \<or> mission_tid = 0 \<or> udp_tid = 0 \<or> track_camera_tid = 0 \<or> clean_camera_tid = 0
     then do {
       app_delete_threads [(''hcics_ctl'', control_tid), (''hcics'', mission_tid),
         (''hcics_udp'', udp_tid), (''cam_trk'', track_camera_tid), (''cam_cln'', clean_camera_tid)];
       ret (- RT_ENOMEM) }
     else do {
       hw_out (Thread_Startup ''hcics_ctl'');
       hw_out (Thread_Startup ''hcics'');
       hw_out (Thread_Startup ''hcics_udp'');
       hw_out (Thread_Startup ''cam_trk'');
       hw_out (Thread_Startup ''cam_cln'');
       ret RT_EOK } }"

text \<open>
  The order of the modules is that of the code. \<open>memset\<close> also clears the names of the queue and of
  the devices of an earlier attempt; the new queue is empty.
\<close>

definition hcics_app_init :: "'a app_env \<Rightarrow> nat \<Rightarrow> ('a app_scheme, rt_err option) state" where
  "hcics_app_init env n = do {
     initialized \<leftarrow> gets ap_initialized;
     if initialized then oret RT_EOK
     else do {
       modify (\<lambda>s. s\<lparr>ap_initialized := False, ap_busy := False, ap_abort := False,
         ap_motion_fault := False, ap_motion_fault_reason := 0, ap_state := HCICS_STATE_IDLE,
         ap_active_fault := \<lparr>fault_id = 0, fault_row = 0, fault_col = 0, fault_severity = 0,
           fault_source = []\<rparr>,
         ap_latest_clean := \<lparr>cam_mode = 0, cam_x = 0, cam_y = 0, cam_width = 0, cam_type = 0,
           cam_tick = 0\<rparr>,
         ap_latest_track := \<lparr>cam_mode = 0, cam_x = 0, cam_y = 0, cam_width = 0, cam_type = 0,
           cam_tick = 0\<rparr>,
         ap_udp_sock := - 1, ap_pending := None, ap_mq := False, ap_track_uart := None,
         ap_clean_uart := None\<rparr>);
       hw_out (Mutex_Init ''hcics_cam'');
       hw_out (Mutex_Init ''hcics_st'');
       hw_out (Mutex_Init ''hcics_udp'');
       created \<leftarrow> hw_do (Mq_Create ''hcics_mq'');
       modify (\<lambda>s. s\<lparr>ap_mq := (created \<noteq> 0), ap_queue := []\<rparr>);
       if created = 0 then oret (- RT_ENOMEM)
       else do {
         result \<leftarrow> hcics_hw_init;
         if result \<noteq> RT_EOK then oret result
         else do {
           result \<leftarrow> hcics_motion_init;
           if result \<noteq> RT_EOK then oret result
           else do {
             result \<leftarrow> hcics_axis_init;
             if result \<noteq> RT_EOK then oret result
             else do {
               result \<leftarrow> hcics_track_init (Some (True, True));
               if result \<noteq> RT_EOK then oret result
               else do {
                 result \<leftarrow> hcics_cleaner_init env None;
                 if result \<noteq> RT_EOK then oret result
                 else
                   obind (hcics_guard_init env n) (\<lambda>result.
                   if result \<noteq> RT_EOK then oret result
                   else do {
                     result \<leftarrow> app_start_threads;
                     if result \<noteq> RT_EOK then oret result
                     else do {
                       modify (\<lambda>s. s\<lparr>ap_initialized := True\<rparr>);
                       oret RT_EOK } }) } } } } } } }"

text \<open>\<open>main\<close>, which the kernel runs as the first thread.\<close>

definition app_main :: "'a app_env \<Rightarrow> nat \<Rightarrow> ('a app_scheme, rt_err option) state" where
  "app_main env n = hcics_app_init env n"

end
