(* ===== verification/HcicsGuardRuns.thy ===== *)
theory HcicsGuardRuns
  imports HcicsGuard
begin

text \<open>
  What the guard is right about: the reference SPADs, the reports it makes of its measurements, the
  stop when the sensor is lost, and the end of every wait.
\<close>

section \<open>The reference SPADs\<close>

text \<open>The SPADs a map enables, and the ones the sensor is to use: the first good ones from \<open>first\<close> on.\<close>

definition spad :: "u8 list \<Rightarrow> nat \<Rightarrow> bool" where
  "spad spad_map i \<longleftrightarrow> bit (spad_map ! (i div 8)) (i mod 8)"

definition first_spads :: "nat \<Rightarrow> nat \<Rightarrow> u8 list \<Rightarrow> nat \<Rightarrow> nat list" where
  "first_spads first count spad_map k = take count (filter (\<lambda>i. first \<le> i \<and> spad spad_map i) [0..<k])"

lemma spad_clear:
  assumes "length m = 6" "i < 48" "j < 48"
  shows "spad (m[i div 8 := m ! (i div 8) AND NOT (push_bit (i mod 8) 1)]) j \<longleftrightarrow> spad m j \<and> j \<noteq> i"
proof -
  have "i div 8 < 6"
    using assms(2) by simp
  moreover have "j = i \<longleftrightarrow> j div 8 = i div 8 \<and> j mod 8 = i mod 8"
    by (metis div_mult_mod_eq)
  ultimately show ?thesis
    using assms(1) by (auto simp: spad_def nth_list_update bit_simps)
qed

lemma spad_test: "m ! (i div 8) AND push_bit (i mod 8) 1 \<noteq> 0 \<longleftrightarrow> spad m i"
  for m :: "u8 list"
  by (simp add: spad_def push_bit_of_1 and_exp_eq_0_iff_not_bit)

lemma first_spads_Suc:
  "first_spads first count m (Suc k) =
     (if first \<le> k \<and> spad m k \<and> length (first_spads first count m k) < count
      then first_spads first count m k @ [k] else first_spads first count m k)"
  by (auto simp: first_spads_def min_def)

lemma spad_fold:
  assumes "length m = 6" "k \<le> 48"
  shows "case foldl (guard_spad_step first count) (m, 0) [0..<k] of (m', e) \<Rightarrow>
    length m' = 6 \<and> unat e = length (first_spads first (unat count) m k) \<and>
    (\<forall>i < 48. spad m' i \<longleftrightarrow> (if i < k then i \<in> set (first_spads first (unat count) m k) else spad m i))"
  using assms(2)
proof (induction k)
  case 0
  then show ?case
    using assms(1) by (simp add: first_spads_def)
next
  case (Suc k)
  let ?L = "first_spads first (unat count) m"
  obtain m' e where f: "foldl (guard_spad_step first count) (m, 0) [0..<k] = (m', e)"
    by fastforce
  have IH: "length m' = 6" "unat e = length (?L k)"
    "\<And>i. i < 48 \<Longrightarrow> spad m' i \<longleftrightarrow> (if i < k then i \<in> set (?L k) else spad m i)"
    using Suc f by auto
  have L: "set (?L k) \<subseteq> {..<k}" "length (?L k) \<le> k" "length (?L k) \<le> unat count"
    using length_filter_le [of "\<lambda>i. first \<le> i \<and> spad m i" "[0..<k]"]
    by (auto simp: first_spads_def dest!: in_set_takeD)
  have full: "e = count \<longleftrightarrow> \<not> length (?L k) < unat count"
    using L(3) IH(2) by (auto simp: word_unat_eq_iff)
  have inc: "unat (e + 1) = length (?L k) + 1"
    using IH(2) L(2) Suc.prems by (simp add: unat_word_ariths)
  have k: "spad m' k = spad m k"
    using IH(3) [of k] Suc.prems by simp
  have test: "m' ! (k div 8) AND 2 ^ (k mod 8) = 0 \<longleftrightarrow> \<not> spad m k"
    using spad_test [of m' k, unfolded push_bit_of_1] k by blast
  have step: "foldl (guard_spad_step first count) (m, 0) [0..<Suc k] =
      (if k < first \<or> \<not> length (?L k) < unat count
       then (m'[k div 8 := m' ! (k div 8) AND NOT (push_bit (k mod 8) 1)], e)
       else if spad m k then (m', e + 1) else (m', e))"
    by (simp add: f guard_spad_step_def Let_def test full push_bit_of_1)
  have notin: "k \<notin> set (?L k)"
    using L(1) by auto
  consider (keep) "first \<le> k" "spad m k" "length (?L k) < unat count"
    | (clear) "k < first \<or> \<not> length (?L k) < unat count"
    | (none) "first \<le> k" "\<not> spad m k" "length (?L k) < unat count"
    by linarith
  then show ?case
  proof cases
    case keep
    then show ?thesis
      using IH inc k unfolding step by (simp add: first_spads_Suc less_Suc_eq)
  next
    case clear
    then have "?L (Suc k) = ?L k"
      by (auto simp: first_spads_Suc)
    with clear show ?thesis
      using IH Suc.prems notin unfolding step by (auto simp: spad_clear [unfolded push_bit_of_1] less_Suc_eq)
  next
    case none
    then show ?thesis
      using IH notin k unfolding step by (auto simp: first_spads_Suc less_Suc_eq)
  qed
qed

text \<open>
  The map of reference SPADs is the right one. The loop over the map the sensor reports keeps
  exactly the first \<open>count\<close> enabled SPADs from the first usable one on, 12 for the aperture type, and
  clears all others; with fewer than \<open>count\<close> enabled ones it keeps those.
\<close>

lemma guard_spad_reference:
  assumes "length m = 6" and "i < 48"
  shows "spad (guard_spad_map aperture count m) i \<longleftrightarrow>
    i \<in> set (take (unat count) (filter (\<lambda>i. (if aperture then 12 else 0) \<le> i \<and> spad m i) [0..<48]))"
  using spad_fold [OF assms(1), of 48 "if aperture then 12 else 0" count] assms(2)
  by (auto simp: guard_spad_map_def first_spads_def split: prod.splits)

lemma guard_spad_reference_example:
  "spad (guard_spad_map True 5 [0xFF, 0xFF, 0xF1, 0, 0, 0]) 16 \<and>
   \<not> spad (guard_spad_map True 5 [0xFF, 0xFF, 0xF1, 0, 0, 0]) 20"
  using guard_spad_reference [of "[0xFF, 0xFF, 0xF1, 0, 0, 0]" 16 True 5]
    guard_spad_reference [of "[0xFF, 0xFF, 0xF1, 0, 0, 0]" 20 True 5]
  by (simp add: spad_def upt_rec)

section \<open>Bus operations and an example\<close>

lemma guard_mdelay_eq: "guard_mdelay env ms = cleaner_mdelay env ms"
  by (simp add: guard_mdelay_def cleaner_mdelay_def)

text \<open>
  The guard thread under any invariant the cleaner keeps: of the guard's own state it must not
  depend on anything.
\<close>

locale guard_keeps = cleaner_keeps env inv c
  for env :: "('a guard_scheme, unit) state" and inv and c +
  assumes inv_own: "inv s \<Longrightarrow> cleaner.truncate t = cleaner.truncate s \<Longrightarrow> guard.more t = guard.more s \<Longrightarrow> inv t"
begin

lemma pres_own:
  "(\<And>s. cleaner.truncate (f s) = cleaner.truncate s) \<Longrightarrow> (\<And>s. guard.more (f s) = guard.more s) \<Longrightarrow>
     preserves inv (modify f)"
  by (rule preserves_modify) (rule inv_own)

lemma pres_transfer: "preserves inv (hw_do (I2c_Transfer b k))" "preserves inv (hw_rx (I2c_Transfer b k))"
  by (intro preserves_hw_do preserves_hw_rx inv_call; simp)+

lemma pres_bus:
  "preserves inv (hcics_guard_write_u8 reg v)" "preserves inv (hcics_guard_read_u8 reg)"
  "preserves inv (hcics_guard_write_u16 reg w)" "preserves inv (hcics_guard_read_u16 reg)"
  "preserves inv (hcics_guard_update_u8 reg cm sm)" "preserves inv (hcics_guard_write_multi reg data)"
  "preserves inv (hcics_guard_read_multi reg len)"
  unfolding hcics_guard_write_u8_def hcics_guard_read_u8_def hcics_guard_write_u16_def
    hcics_guard_read_u16_def hcics_guard_update_u8_def hcics_guard_write_multi_def
    hcics_guard_read_multi_def
  by (intro pres pres_transfer)+

lemma pres_chain: "(\<forall>m \<in> set ms. preserves inv m) \<Longrightarrow> preserves inv (all_ok ms)"
  by (rule preserves_all_ok) blast

lemma pres_tuning: "preserves inv hcics_guard_write_tuning"
proof -
  have "preserves inv (guard_write_all l)" for l
    by (induction l rule: guard_write_all.induct) (auto intro!: pres pres_bus)
  then show ?thesis
    by (simp add: hcics_guard_write_tuning_def)
qed

lemma pres_stop_variable: "preserves inv guard_read_stop_variable"
  unfolding guard_read_stop_variable_def
  by (intro pres pres_bus pres_own) (simp_all add: cleaner.defs)

lemma pres_nap: "preserves inv (guard_mdelay env ms)"
  unfolding guard_mdelay_eq by (rule pres_mdelay)

lemma pres_distance: "preserves inv (hcics_guard_read_distance env n d)"
proof -
  have "preserves inv (guard_wait_loop env reg bits high start n)" for reg bits high start
    by (induction n) (simp_all only: guard_wait_loop.simps, (intro pres pres_bus pres_nap; assumption?)+)
  then show ?thesis
    unfolding hcics_guard_read_distance_def hcics_guard_wait_reg_bits_def
    by (intro pres pres_chain pres_bus) (simp_all add: pres_bus)
qed

lemma pres_publish: "preserves inv (hcics_guard_publish env mm valid stop)"
  unfolding hcics_guard_publish_def hcics_guard_read_contact_def
  by (intro pres pres_interface preserves_hw_do inv_call) simp_all

lemma pres_sample: "preserves inv (hcics_guard_sample_once env n)"
  unfolding hcics_guard_sample_once_def
  by (intro pres pres_distance pres_publish pres_own) (simp_all add: cleaner.defs)

lemma pres_thread: "preserves inv (hcics_guard_thread env n)"
  unfolding hcics_guard_thread_def by (intro pres pres_sample pres_nap)

end

interpretation guard_alone: guard_keeps "ret () :: ('a guard_scheme, unit) state" "cleaner_posed c" c for c
  by unfold_locales (simp add: cleaner_inv_defs cleaner.defs)

interpretation guard_others: guard_keeps "clean_env sched :: ('a guard_scheme, unit) state" "cleaner_posed c" c
  for sched c
  by unfold_locales (simp add: cleaner_inv_defs cleaner.defs)

text \<open>A sensor that answers every transfer and measures 100 mm, and a bus without one.\<close>

definition guard_example :: guard where
  "guard_example = cleaner.extend (cleaner_example\<lparr>
       answer := (\<lambda>tr. case tr of I2c_Transfer b k # _ \<Rightarrow> if k = 0 then 1 else 2 | _ \<Rightarrow> 0),
       rx := (\<lambda>tr. case tr of I2c_Transfer (reg # _) _ # _ \<Rightarrow>
         if reg = 0x13 then [1] else if reg = 0x1E then [0, 100] else [0] | _ \<Rightarrow> [])\<rparr>)
     (guard.fields True True 0 2 True)"

definition deaf_example :: guard where
  "deaf_example = cleaner.extend cleaner_example (guard.fields True True 0 0 True)"

lemma guard_example_posed: "cleaner_posed default_cfg guard_example" "cleaner_posed default_cfg deaf_example"
  using example_posed
  by (simp_all add: cleaner_inv_defs guard_example_def deaf_example_def cleaner.defs)

lemma guard_example_run:
  "run_state (hcics_guard_read_distance (ret ()) 1 HCICS_CLEANER_TOF_INVALID_MM) guard_example =
     (Some (RT_EOK, 100),
      snd (run_state (hcics_guard_read_distance (ret ()) 1 HCICS_CLEANER_TOF_INVALID_MM) guard_example))"
proof (rule prod_eqI)
  show "fst (run_state (hcics_guard_read_distance (ret ()) 1 HCICS_CLEANER_TOF_INVALID_MM) guard_example) =
      fst (Some (RT_EOK, 100),
        snd (run_state (hcics_guard_read_distance (ret ()) 1 HCICS_CLEANER_TOF_INVALID_MM) guard_example))"
    by code_simp
qed simp

section \<open>Reports\<close>

lemma safe_outputs_frame:
  "preserves (\<lambda>t :: 'a guard_scheme. cl_guard t = g \<and> cl_stop_requested t = b \<and> gu_read_errors t = k \<and> answer t = a)
     (hcics_cleaner_safe_outputs (ret ()))"
proof -
  have axis: "preserves (\<lambda>t :: 'a guard_scheme. cl_guard t = g \<and> cl_stop_requested t = b \<and> gu_read_errors t = k \<and> answer t = a)
     hcics_axis_stop"
    by (intro preservesI vc_axis) simp
  show ?thesis
    unfolding hcics_cleaner_safe_outputs_def hcics_cleaner_relay_def hcics_cleaner_apply_pose_def
      cleaner_take_def cleaner_release_def Let_def
    by (intro pres axis preserves_modify preserves_hw_do preserves_hw_out) simp_all
qed

text \<open>The report as it is stored.\<close>

definition stamped :: "u32 \<Rightarrow> hcics_cleaner_guard \<Rightarrow> hcics_cleaner_guard" where
  "stamped now g = (let g = (if gd_tick g = 0 then g\<lparr>gd_tick := now\<rparr> else g) in
     if gd_tof_mm g = HCICS_CLEANER_TOF_INVALID_MM then g\<lparr>gd_tof_valid := False\<rparr> else g)"

lemma update_guard_eq:
  "hcics_cleaner_update_guard env g = do {
     result \<leftarrow> cleaner_ensure_init env;
     if result \<noteq> RT_EOK then ret result
     else do {
       now \<leftarrow> rt_tick_get;
       cleaner_take env;
       modify (\<lambda>s. s\<lparr>cl_guard := stamped now g,
         cl_stop_requested := (if gd_force_stop (stamped now g) then True else cl_stop_requested s)\<rparr>);
       cleaner_release;
       (if gd_force_stop (stamped now g) then do { _ \<leftarrow> hcics_cleaner_safe_outputs env; ret () } else ret ());
       ret RT_EOK } }"
  unfolding hcics_cleaner_update_guard_def stamped_def Let_def ..

lemma vc_update_guard:
  fixes s :: "'a guard_scheme"
  assumes "cleaner_posed c s"
    and "\<And>t. \<lbrakk>cl_guard t = stamped (clock s) g; cl_stop_requested t = (gd_force_stop g \<or> cl_stop_requested s);
      gu_read_errors t = gu_read_errors s; answer t = answer s; cleaner_posed c t; gd_force_stop g \<Longrightarrow> relay_idle c t\<rbrakk> \<Longrightarrow> Q RT_EOK t"
  shows "wp (hcics_cleaner_update_guard (ret ()) g) Q s"
proof -
  have force: "gd_force_stop (stamped now g) = gd_force_stop g" for now
    by (simp add: stamped_def Let_def)
  let ?K = "\<lambda>t. cl_guard t = stamped (clock s) g \<and>
    cl_stop_requested t = (gd_force_stop g \<or> cl_stop_requested s) \<and> gu_read_errors t = gu_read_errors s \<and>
    answer t = answer s"
  have safe: "wp (hcics_cleaner_safe_outputs (ret ())) (\<lambda>_ t. ?K t \<and> relay_idle c t) u"
    if "?K u" "cleaner_posed c u" for u :: "'a guard_scheme"
    using alone.safe_outputs_idle [OF that(2)] vc_preserves [OF safe_outputs_frame that(1), of "\<lambda>_. ?K"]
    by (simp only: wp_conj simp_thms)
  have posed: "cleaner_posed c (s\<lparr>cl_guard := g', cl_stop_requested := b\<rparr>)"
    "cleaner_posed c (s\<lparr>cl_guard := g'\<rparr>)" for g' b
    using assms(1) by (simp_all add: cleaner_inv_defs)
  show ?thesis
    unfolding update_guard_eq cleaner_take_def cleaner_release_def
    by (intro vc alone.posed.vc_ensure_init [of c] wp_conseq [OF safe] assms)
      (auto simp: force posed relay_idle_def)
qed

lemma vc_publish:
  assumes "cleaner_posed c s"
    and "\<And>t. \<lbrakk>cl_guard t = (if valid \<and> mm \<noteq> 0xFFFF
        then \<lparr>gd_tof_mm = mm, gd_tof_valid = True, gd_contact = False, gd_force_stop = stop, gd_tick = clock s\<rparr>
        else \<lparr>gd_tof_mm = 0xFFFF, gd_tof_valid = False, gd_contact = False, gd_force_stop = stop, gd_tick = clock s\<rparr>);
      cl_stop_requested t = (stop \<or> cl_stop_requested s);
      gu_read_errors t = gu_read_errors s; answer t = answer s; cleaner_posed c t; stop \<Longrightarrow> relay_idle c t\<rbrakk> \<Longrightarrow> Q RT_EOK t"
  shows "wp (hcics_guard_publish (ret ()) mm valid stop) Q s"
  unfolding hcics_guard_publish_def hcics_guard_read_contact_def HCICS_GUARD_CONTACT_PIN_def
  by (intro vc vc_update_guard [OF assms(1)] assms(2))
    (auto simp: HCICS_CLEANER_TOF_INVALID_MM_def stamped_def Let_def split: if_splits)

text \<open>What a sample makes of the measurement.\<close>

definition good_sample :: "rt_err \<Rightarrow> u16 \<Rightarrow> bool" where
  "good_sample r mm \<longleftrightarrow> r = RT_EOK \<and> mm \<noteq> 0 \<and> mm \<noteq> 0xFFFF"

lemma sample_outcome:
  assumes "run_state (hcics_guard_read_distance (ret ()) n HCICS_CLEANER_TOF_INVALID_MM) s = (Some (r, mm), s')"
    and "cleaner_posed c s'"
  shows "wp (hcics_guard_sample_once (ret ()) n) (\<lambda>q t. cleaner_posed c t \<and> answer t = answer s' \<and>
    (if good_sample r mm
     then q = Some RT_EOK \<and> gu_read_errors t = 0 \<and> cl_stop_requested t = cl_stop_requested s' \<and>
       cl_guard t = \<lparr>gd_tof_mm = mm, gd_tof_valid = True, gd_contact = False, gd_force_stop = False,
         gd_tick = clock s'\<rparr>
     else q = Some r \<and> unat (gu_read_errors t) = min 255 (unat (gu_read_errors s') + 1) \<and>
       (if unat (gu_read_errors s') < 2
        then cl_guard t = cl_guard s' \<and> cl_stop_requested t = cl_stop_requested s'
        else relay_idle c t \<and> cl_stop_requested t \<and> gd_force_stop (cl_guard t) \<and> \<not> gd_tof_valid (cl_guard t)))) s"
proof -
  define e where "e = (if gu_read_errors s' < 0xFF then gu_read_errors s' + 1 else gu_read_errors s')"
  have e: "unat e = min 255 (unat (gu_read_errors s') + 1)"
    using unat_u8 [of "gu_read_errors s'"]
    by (auto simp: e_def word_less_nat_alt unat_word_ariths simp del: unat_u8)
  then have three: "e \<ge> 3 \<longleftrightarrow> \<not> unat (gu_read_errors s') < 2"
    by (auto simp: word_le_nat_alt)
  have posed: "cleaner_posed c (s'\<lparr>gu_read_errors := k\<rparr>)" for k
    using assms(2) by (simp add: cleaner_inv_defs)
  show ?thesis
    unfolding hcics_guard_sample_once_def obind_def HCICS_GUARD_MAX_READ_ERRORS_def
    apply (rule vc_bind, rule wpI, rule assms(1))
    apply (simp only: option.case prod.case)
    apply (intro vc vc_publish [of c, OF posed])
    apply (auto simp: good_sample_def HCICS_CLEANER_TOF_INVALID_MM_def e three posed simp flip: e_def)
    done
qed

text \<open>
  What the guard reports. A measurement other than 0 and 0xFFFF that was read without an error
  resets the error counter and reaches the cleaner as a valid report. Any other one counts as an
  error, up to 255; the first two leave the last report in force, from the third in a row on the
  cleaner is stopped, with the pump off. A measurement of 0 or 0xFFFF still counts as success for
  the caller, so that the initialisation accepts a sensor that has not delivered a report.
\<close>

lemma guard_sample_outcome:
  assumes "run_state (hcics_guard_read_distance (ret ()) n HCICS_CLEANER_TOF_INVALID_MM) s = (Some (r, mm), s')"
    and "cleaner_posed c s'"
  shows "wp (hcics_guard_sample_once (ret ()) n) (\<lambda>q t.
    if good_sample r mm
    then q = Some RT_EOK \<and> gu_read_errors t = 0 \<and> cl_stop_requested t = cl_stop_requested s' \<and>
      cl_guard t = \<lparr>gd_tof_mm = mm, gd_tof_valid = True, gd_contact = False, gd_force_stop = False,
        gd_tick = clock s'\<rparr>
    else q = Some r \<and> unat (gu_read_errors t) = min 255 (unat (gu_read_errors s') + 1) \<and>
      (if unat (gu_read_errors s') < 2
       then cl_guard t = cl_guard s' \<and> cl_stop_requested t = cl_stop_requested s'
       else relay_idle c t \<and> cl_stop_requested t \<and> gd_force_stop (cl_guard t) \<and> \<not> gd_tof_valid (cl_guard t))) s"
  by (rule wp_conseq [OF sample_outcome [OF assms]]) (simp split: if_splits)

lemma guard_sample_outcome_example:
  "wp (hcics_guard_sample_once (ret ()) 1) (\<lambda>q t. q = Some RT_EOK \<and> gu_read_errors t = 0 \<and>
     gd_tof_mm (cl_guard t) = 100) guard_example"
  by (rule wp_conseq [OF guard_sample_outcome [OF guard_example_run
        preservesD [OF guard_alone.pres_distance guard_example_posed(1)]]])
    (simp add: good_sample_def)

section \<open>A dead sensor\<close>

text \<open>No transfer on the bus succeeds.\<close>

definition bus_dead :: "'a hw_scheme \<Rightarrow> bool" where
  "bus_dead s \<longleftrightarrow> (\<forall>tr b k. answer s (I2c_Transfer b k # tr) \<noteq> 1 \<and> answer s (I2c_Transfer b k # tr) \<noteq> 2)"

lemma dead_write:
  assumes "bus_dead s" "\<And>r tr. r \<noteq> RT_EOK \<Longrightarrow> Q r (s\<lparr>trace := tr\<rparr>)"
  shows "wp (hcics_guard_write_u8 reg v) Q s"
proof -
  have "Q (- RT_EINVAL) s"
    using assms(2) [of "- RT_EINVAL" "trace s"] by simp
  then show ?thesis
    using assms unfolding hcics_guard_write_u8_def hcics_guard_write_multi_def
    by (simp add: wp bus_dead_def)
qed

lemma dead_distance:
  assumes "bus_dead s"
  shows "\<exists>tr. run_state (hcics_guard_read_distance env n d) s = (Some (- RT_ERROR, d), s\<lparr>trace := tr\<rparr>)"
proof -
  have "wp (hcics_guard_read_distance env n d) (\<lambda>r t. r = Some (- RT_ERROR, d) \<and> (\<exists>tr. t = s\<lparr>trace := tr\<rparr>)) s"
    unfolding hcics_guard_read_distance_def all_ok.simps
    by (intro vc dead_write [OF assms]) (auto simp: oret_def wp)
  then show ?thesis
    by (cases "run_state (hcics_guard_read_distance env n d) s") (simp add: wp_def)
qed

text \<open>After \<open>k\<close> failed samples.\<close>

definition blinded :: "hcics_cleaner_config \<Rightarrow> nat \<Rightarrow> 'a guard_scheme \<Rightarrow> bool" where
  "blinded c k s \<longleftrightarrow> cleaner_posed c s \<and> bus_dead s \<and> k \<le> unat (gu_read_errors s) \<and>
     (3 \<le> k \<longrightarrow> relay_idle c s \<and> cl_stop_requested s \<and> gd_force_stop (cl_guard s))"

lemma blinded_turn:
  assumes "blinded c k s" "k \<le> 2"
  shows "wp (hcics_guard_thread (ret ()) n) (\<lambda>r. blinded c (k + 1)) s"
proof -
  obtain tr where d: "run_state (hcics_guard_read_distance (ret ()) n HCICS_CLEANER_TOF_INVALID_MM) s =
      (Some (- RT_ERROR, HCICS_CLEANER_TOF_INVALID_MM), s\<lparr>trace := tr\<rparr>)"
    using dead_distance assms(1) unfolding blinded_def by blast
  have nap: "wp (guard_mdelay (ret ()) HCICS_GUARD_SAMPLE_MS) (\<lambda>_. wp (oret ()) (\<lambda>_. blinded c m)) t"
    if "blinded c m t" for m t
    using that unfolding guard_mdelay_def
    by (intro vc) (simp add: blinded_def bus_dead_def relay_idle_def cleaner_inv_defs)
  show ?thesis
    unfolding hcics_guard_thread_def
  proof (rule vc_obind, rule wp_conseq, rule sample_outcome [OF d, of c])
    show "cleaner_posed c (s\<lparr>trace := tr\<rparr>)"
      using assms(1) by (simp add: blinded_def cleaner_inv_defs)
  qed (use assms in \<open>auto intro!: vc_bind nap simp: good_sample_def blinded_def bus_dead_def split: if_splits\<close>)
qed

text \<open>
  C39: A dead sensor stops the cleaner. When no transfer on the bus succeeds any more, the third turn
  of the guard thread at the latest has the stop of the cleaner requested, with a report in force
  that demands it, and the pump off.
\<close>

theorem guard_dead_sensor_stops:
  assumes "cleaner_posed c s" and "bus_dead s"
  shows "wp (do { _ \<leftarrow> hcics_guard_thread (ret ()) n; _ \<leftarrow> hcics_guard_thread (ret ()) n; hcics_guard_thread (ret ()) n })
    (\<lambda>_ t. relay_idle c t \<and> cl_stop_requested t \<and> gd_force_stop (cl_guard t)) s"
proof -
  have "blinded c 0 s"
    using assms by (simp add: blinded_def)
  then show ?thesis
    by (intro vc wp_conseq [OF blinded_turn [of c 0]] wp_conseq [OF blinded_turn [of c 1]]
        wp_conseq [OF blinded_turn [of c 2]]) (simp_all add: blinded_def)
qed

theorem guard_dead_sensor_stops_witness:
  "wp (do { _ \<leftarrow> hcics_guard_thread (ret ()) 1; _ \<leftarrow> hcics_guard_thread (ret ()) 1; hcics_guard_thread (ret ()) 1 })
    (\<lambda>_ t. cl_stop_requested t) deaf_example"
  by (rule wp_conseq [OF guard_dead_sensor_stops [OF guard_example_posed(2)]])
    (simp_all add: bus_dead_def deaf_example_def cleaner.defs cleaner_example_defs axis.defs)

section \<open>The waits for the sensor end\<close>

lemma timeout_le: "now - start \<le> hcics_guard_timeout_ticks \<longleftrightarrow> unat (now - start) \<le> 80"
  by (simp add: hcics_guard_timeout_ticks_def HCICS_GUARD_I2C_TIMEOUT_MS_def rt_tick_from_millisecond_eq word_le_nat_alt)

lemma returns_option_case:
  "(\<And>x y. returns I (f x y)) \<Longrightarrow> returns I (case p of (x, y) \<Rightarrow> f x y)"
  by (simp split: prod.split)

text \<open>With a deadline of 80 ms and naps of 2 ms, as long as the other threads do not take too long.\<close>

locale guard_timed = guard_keeps env inv c + env_timed env inv h
  for env :: "('a guard_scheme, unit) state" and inv and c and h
begin

lemma vc_bus_read:
  fixes s :: "'a guard_scheme"
  assumes "inv s" "since start lo hi s"
    and "\<And>r t. inv t \<Longrightarrow> since start lo hi t \<Longrightarrow> Q r t"
  shows "wp (hcics_guard_read_u8 reg) Q s"
  unfolding hcics_guard_read_u8_def hcics_guard_read_multi_def
  by (intro vc assms(3)) (use assms(1,2) in \<open>simp_all add: since_def inv_call\<close>)

lemma guard_nap:
  fixes t :: "'a guard_scheme"
  assumes "inv t" "since start lo 80 t"
    and "\<And>u. inv u \<Longrightarrow> since start (lo + 2) 1000000 u \<Longrightarrow> Q () u"
  shows "wp (guard_mdelay env 2) Q t"
  unfolding guard_mdelay_def
  by (rule vc_sleep [OF assms(1,2)]) (use h_le in \<open>auto intro!: assms(3) simp: since_def\<close>)

lemma wait_loop_ends:
  fixes s :: "'a guard_scheme"
  shows "inv s \<Longrightarrow> since start (2 * k) 1000000 s \<Longrightarrow> 41 < k + n \<Longrightarrow> 0 < n \<Longrightarrow>
    wp (guard_wait_loop env reg bits high start n) (\<lambda>r t. r \<noteq> None \<and> inv t) s"
proof (induction n arbitrary: k s)
  case (Suc n)
  note p = Suc.prems(1)
  show ?case
  proof (cases "unat (clock s - start) \<le> 80")
    case True
    then have now: "since start (2 * k) 80 s" and k: "k + 1 \<le> 41"
      using Suc.prems(2) by (auto simp: since_def)
    have IH: "wp (guard_wait_loop env reg bits high start n) (\<lambda>r t. r \<noteq> None \<and> inv t) u"
      if "inv u" "since start (2 * k + 2) 1000000 u" for u :: "'a guard_scheme"
      using Suc.IH [of u "k + 1"] that k Suc.prems(3) by simp
    show ?thesis
      unfolding guard_wait_loop.simps
      by (intro vc vc_bus_read [OF p now] guard_nap [where lo = "2 * k" and start = start] IH)
        (auto simp: p)
  next
    case False
    then show ?thesis
      unfolding guard_wait_loop.simps by (intro vc) (simp_all add: timeout_le p)
  qed
qed simp

lemma spad_loop_ends:
  fixes s :: "'a guard_scheme"
  shows "inv s \<Longrightarrow> since start (2 * k) 80 s \<Longrightarrow> 41 < k + n \<Longrightarrow>
    wp (guard_spad_loop env start n) (\<lambda>r t. r \<noteq> None \<and> inv t) s"
proof (induction n arbitrary: k s)
  case 0
  then show ?case by (simp add: since_def)
next
  case (Suc n)
  note p = Suc.prems(1)
  have IH: "wp (guard_spad_loop env start n) (\<lambda>r t. r \<noteq> None \<and> inv t) u"
    if "inv u" "since start (2 * k + 2) 1000000 u" "clock u - start \<le> hcics_guard_timeout_ticks"
    for u :: "'a guard_scheme"
    using Suc.IH [of u "k + 1"] that Suc.prems(3) by (simp add: timeout_le since_def)
  show ?case
    unfolding guard_spad_loop.simps
    by (intro vc vc_bus_read [OF p Suc.prems(2)] guard_nap [where lo = "2 * k" and start = start] IH)
      (auto simp: p)
qed

lemma returns_wait:
  "42 \<le> n \<Longrightarrow> returns inv (hcics_guard_wait_reg_bits env n reg bits high)"
  unfolding returns_def hcics_guard_wait_reg_bits_def
  by (intro allI impI vc wait_loop_ends [where k = 0]) (simp_all add: since_def)

lemmas chain = pres_chain pres_bus pres_tuning pres_stop_variable pres returns returns_option_case

lemma returns_distance:
  assumes "42 \<le> n"
  shows "returns inv (hcics_guard_read_distance env n d)"
  unfolding hcics_guard_read_distance_def
  by (intro chain returns_wait assms) (simp add: pres_bus)

lemma returns_spad_info:
  assumes "42 \<le> n"
  shows "returns inv (hcics_guard_get_spad_info env n)"
proof -
  have loop: "returns inv (rt_tick_get \<bind> (\<lambda>start. obind (guard_spad_loop env start n) f))"
    if "\<And>x. returns inv (f x)" for f :: "rt_err + u8 \<Rightarrow> ('a guard_scheme, (rt_err + u8 \<times> bool) option) state"
    using that assms unfolding returns_def
    by (auto intro!: vc elim!: wp_conseq wp_conseq [OF spad_loop_ends [where k = 0]] simp: since_def)
  show ?thesis
    unfolding hcics_guard_get_spad_info_def
    by (intro loop chain) (simp_all add: pres_bus)
qed

lemma returns_config_spads:
  assumes "42 \<le> n"
  shows "returns inv (hcics_guard_config_spads env n)"
  unfolding hcics_guard_config_spads_def
  by (intro chain returns_spad_info assms) (simp_all add: pres_bus)

lemma returns_calibration:
  assumes "42 \<le> n"
  shows "returns inv (hcics_guard_ref_calibration env n b)"
  unfolding hcics_guard_ref_calibration_def
  by (intro chain returns_wait assms) (simp_all add: pres_bus)

lemma returns_sensor_init:
  assumes "42 \<le> n"
  shows "returns inv (hcics_guard_sensor_init env n)"
  unfolding hcics_guard_sensor_init_def
  by (intro chain returns_config_spads returns_calibration assms)
    (simp_all add: pres_bus pres_tuning pres_stop_variable)

lemma returns_sample:
  assumes "42 \<le> n"
  shows "returns inv (hcics_guard_sample_once env n)"
  unfolding hcics_guard_sample_once_def
  by (intro chain returns_distance assms pres_publish pres_own) (simp_all add: cleaner.defs)

lemma returns_thread:
  assumes "42 \<le> n"
  shows "returns inv (hcics_guard_thread env n)"
  unfolding hcics_guard_thread_def
  by (intro chain returns_sample assms pres_nap)

lemma returns_init:
  assumes "42 \<le> n"
  shows "returns inv (hcics_guard_init env n)"
  unfolding hcics_guard_init_def
  by (intro chain returns_sample returns_sensor_init assms pres_own preserves_hw_do preserves_hw_out inv_call)
    (simp_all add: cleaner.defs)

end

interpretation timed: guard_timed "clean_env sched :: ('a guard_scheme, unit) state" "cleaner_posed c" c 30000 for sched c
  by unfold_locales (use others_timed.env_lasts in \<open>auto simp: cleaner_inv_defs\<close>)

text \<open>
  C40: The guard always comes back. Every wait for the sensor gives up when its 80 ms are over, so
  that with 42 turns for each, enough for naps of 2 ms, a turn of the guard thread and the
  initialisation of the guard end, whatever the sensor answers and the other threads do.
\<close>

theorem guard_returns:
  fixes s :: "'a guard_scheme"
  assumes "cleaner_posed c s" and "42 \<le> n"
  shows "wp (hcics_guard_thread (clean_env sched) n) (\<lambda>r t. r = Some ()) s \<and>
    wp (hcics_guard_init (clean_env sched) n) (\<lambda>r t. r \<noteq> None) s"
  using timed.returns_thread [OF assms(2), of c sched] timed.returns_init [OF assms(2), of c sched] assms(1)
  by (auto simp: returns_def elim: wp_conseq)

theorem guard_returns_witness:
  "wp (hcics_guard_thread (clean_env (\<lambda>_. [Cl_Time 9])) 42) (\<lambda>r t. r = Some ()) deaf_example"
  by (rule guard_returns [OF guard_example_posed(2), THEN conjunct1]) simp

end
