(* ===== verification/HcicsAppEnv.thy ===== *)
theory HcicsAppEnv
  imports HcicsApp HcicsGuardRuns
begin

text \<open>
  The threads together. \<open>app_keeps\<close> is the interface between the application and the modules below it:
  an invariant that the drive, the tracker, the cleaner and the guard keep, and that depends on the
  application's own state only through the request of a mission and an abort that is set, is kept by every
  function that is not about requests and reports; \<open>app_plans\<close> is for one that also survives planning. \<open>app_others\<close> is what the other threads do meanwhile.
\<close>

section \<open>Invariants across the modules\<close>

text \<open>The request and the report: what decides whether a mission may begin.\<close>

definition app_core :: "'a app_scheme \<Rightarrow> bool \<times> hcics_msg list \<times> (hcics_remote_cmd \<times> u8 \<times> sockaddr_in) option" where
  "app_core s = (ap_busy s, ap_queue s, ap_pending s)"

locale app_keeps =
  drive: motion_client inv m + clean: cleaner_keeps_on env inv c + sensor: guard_keeps env inv c
  for env :: "'a app_env" and inv and m and c +
  assumes track_own: "inv s \<Longrightarrow> motion.truncate t = motion.truncate s \<Longrightarrow> track.more t = track.more s \<Longrightarrow>
      plan_kept s t \<Longrightarrow> inv t"
    and app_own: "inv s \<Longrightarrow> guard.truncate t = guard.truncate s \<Longrightarrow> app_core t = app_core s \<Longrightarrow>
      ap_abort s \<longrightarrow> ap_abort t \<Longrightarrow> inv t"
begin

lemma pres_call:
  "(\<And>p. own_call c p k) \<Longrightarrow> preserves inv (hw_out k)"
  "(\<And>p. own_call c p k) \<Longrightarrow> preserves inv (hw_do k)"
  "(\<And>p. own_call c p k) \<Longrightarrow> preserves inv (hw_rx k)"
  by (auto intro: preserves_hw_out preserves_hw_do preserves_hw_rx clean.inv_call)

lemma pres_own:
  "(\<And>s. guard.truncate (f s) = guard.truncate s) \<Longrightarrow> (\<And>s. app_core (f s) = app_core s) \<Longrightarrow>
     (\<And>s. ap_abort s \<longrightarrow> ap_abort (f s)) \<Longrightarrow> preserves inv (modify f)"
  by (rule preserves_modify) (rule app_own)

lemma pres_track_own:
  "(\<And>s. motion.truncate (f s) = motion.truncate s) \<Longrightarrow> (\<And>s. track.more (f s) = track.more s) \<Longrightarrow>
     (\<And>s. plan_kept s (f s)) \<Longrightarrow> preserves inv (modify f)"
  by (rule preserves_modify) (rule track_own)

lemma pres_sync:
  "preserves inv (app_take env lock)" "preserves inv (app_release lock)" "preserves inv (app_mdelay env ms)"
  using clean.pres_mdelay [of ms] unfolding cleaner_mdelay_def
  by (auto simp: app_take_def app_release_def app_mdelay_def intro!: pres clean.inv_env pres_call)

lemma pres_set_state: "preserves inv (hcics_set_state st)"
  unfolding hcics_set_state_def by (intro pres_own) (simp_all add: guard.defs app_core_def)

lemma pres_latch: "preserves inv (hcics_latch_motion_fault reason)"
  unfolding hcics_latch_motion_fault_def
  by (intro pres pres_own) (simp_all add: guard.defs app_core_def)

lemma pres_snapshot: "preserves inv hcics_motion_get_snapshot"
  unfolding hcics_motion_get_snapshot_def by (intro pres)

lemma pres_set_motor: "preserves inv (hcics_track_set_motor l r)"
  unfolding hcics_track_set_motor_def
  by (intro pres drive.pres_set_target pres_latch pres_snapshot)

end

sublocale app_keeps \<subseteq> motor: motor_guard hcics_track_set_motor inv 150
  by unfold_locales (simp_all add: pres_set_motor track_own clean.inv_call)

context app_keeps begin

lemma pres_update: "preserves inv hcics_motion_update"
  unfolding hcics_motion_update_def by (rule drive.pres_service)

lemma pres_control: "preserves inv (hcics_control_thread env)"
  unfolding hcics_control_thread_def
  by (intro pres motor.pres_tick pres_update pres_snapshot pres_latch pres_sync)

lemma pres_camera: "preserves inv (hcics_app_update_role_camera env target mode)"
  unfolding hcics_app_update_role_camera_def hcics_app_update_camera_def hcics_forward_clean_camera_def
    hcics_track_update_camera_def
  by (intro pres pres_sync pres_own clean.pres_interface motor.pres_lock motor.pres_own)
    (simp_all add: guard.defs app_core_def motion.defs plan_defs)

lemma pres_byte: "preserves inv (app_read_byte d)"
  by (cases d) (auto intro!: pres pres_call)

lemma pres_uart: "preserves inv (hcics_camera_uart_loop env uart mode parser)"
  unfolding hcics_camera_uart_loop_def by (intro pres pres_byte pres_camera pres_sync)

lemma pres_camera_threads:
  "preserves inv (hcics_track_camera_uart_thread env parser)"
  "preserves inv (hcics_clean_camera_uart_thread env parser)"
  unfolding hcics_track_camera_uart_thread_def hcics_clean_camera_uart_thread_def
  by (intro pres pres_uart)+

lemma pres_app_stop: "preserves inv (hcics_app_stop env reason)"
  unfolding hcics_app_stop_def
  by (intro pres pres_own motor.pres_stop clean.pres_interface drive.pres_estop)
    (simp_all add: guard.defs app_core_def)

lemma pres_send: "preserves inv hcics_wifi_link_ready" "preserves inv (hcics_udp_send_report sock cmd p peer)"
  unfolding hcics_wifi_link_ready_def hcics_udp_send_report_def hcics_wifi_link_ready_def
  by (intro pres pres_call; simp)+

text \<open>The parts of a mission.\<close>

lemma pres_recent: "preserves inv (hcics_latest_track_recent env age)"
  unfolding hcics_latest_track_recent_def by (intro pres pres_sync)

lemma pres_wait_camera: "preserves inv (hcics_wait_track_camera env n timeout)"
proof -
  have "preserves inv (app_wait_camera_loop env start timeout n)" for start
    by (induction n) (simp_all only: app_wait_camera_loop.simps, (intro pres pres_recent pres_sync; assumption?)+)
  then show ?thesis
    unfolding hcics_wait_track_camera_def by (intro pres)
qed

lemma pres_halt: "preserves inv app_halt_drive"
  unfolding app_halt_drive_def by (intro pres motor.pres_stop drive.pres_set_direct)

lemma pres_status: "preserves inv hcics_track_is_finished" "preserves inv hcics_track_status"
  unfolding hcics_track_is_finished_def hcics_track_status_def by (intro pres motor.pres_lock)+

lemma pres_follow_loop: "preserves inv (app_follow_loop env start n)"
  by (induction n) (simp_all only: app_follow_loop.simps,
      (intro pres pres_halt pres_status pres_recent pres_sync drive.pres_set_direct; assumption?)+)

lemma pres_delay: "preserves inv (hcics_delay_abortable env ms)"
proof -
  have "preserves inv (app_delay_loop env left)" for left
    by (induction left rule: less_induct) (subst app_delay_loop.simps, intro pres pres_sync; simp)
  then show ?thesis
    by (simp add: hcics_delay_abortable_def)
qed

lemma pres_clean_panel: "preserves inv (hcics_clean_panel env n)"
proof -
  have "preserves inv (app_clean_loop env start n)" for start
    by (induction n) (simp_all only: app_clean_loop.simps,
        (intro pres clean.pres_interface pres_sync; assumption?)+)
  then show ?thesis
    unfolding hcics_clean_panel_def by (intro pres clean.pres_start)
qed

lemma pres_safe_stop: "preserves inv (hcics_safe_stop_outputs env n)"
  unfolding hcics_safe_stop_outputs_def
  by (intro pres motor.pres_stop clean.pres_reset drive.pres_set_direct)

end

text \<open>An invariant that says nothing of the plan is kept by a whole mission up to its report.\<close>

locale app_plans = app_keeps env inv m c for env :: "'a app_env" and inv and m and c +
  assumes plan_own: "inv s \<Longrightarrow> motion.truncate t = motion.truncate s \<Longrightarrow> track.more t = track.more s \<Longrightarrow> inv t"
begin

lemma pres_plan_own:
  "(\<And>s. motion.truncate (f s) = motion.truncate s) \<Longrightarrow> (\<And>s. track.more (f s) = track.more s) \<Longrightarrow>
     preserves inv (modify f)"
  by (rule preserves_modify) (rule plan_own)

lemma pres_add_steps: "preserves inv (track_add_steps n a name)"
  by (induction n) (auto simp: hcics_track_add_step_def motion.defs intro!: pres pres_plan_own)

lemma pres_start_path: "preserves inv (hcics_track_start_path target)"
  unfolding hcics_track_start_path_def hcics_track_motor_ready_def hcics_track_plan_path_def
    hcics_track_build_to_target_def hcics_track_build_return_home_def hcics_track_add_step_def
  by (intro pres motor.pres_lock pres_plan_own pres_add_steps) (simp_all add: motion.defs)

lemma pres_follow: "preserves inv (hcics_follow_track_path env n target)"
  unfolding hcics_follow_track_path_def by (intro pres pres_wait_camera pres_start_path pres_follow_loop)

lemma pres_drive: "preserves inv (hcics_mission_drive env n fault)"
  unfolding hcics_mission_drive_def hcics_navigate_to_fault_def hcics_return_home_def
  by (intro pres clean.pres_reset pres_set_state pres_follow pres_delay pres_clean_panel)

end

section \<open>The other threads\<close>

text \<open>
  A turn of each thread but the mission thread, run without further interference, an interrupt of an
  encoder, and time passing. The locals of a thread, such as the parser of a camera or the socket,
  are arbitrary; a turn may end early, by its fuel.
\<close>

datatype app_event =
    Ap_Control | Ap_Track_Camera hcics_camera_parser | Ap_Clean_Camera hcics_camera_parser
  | Ap_Guard nat | Ap_Cleaner nat | Ap_Udp_Open nat | Ap_Udp_Turn int hcics_fault | Ap_Udp_Close int
  | Ap_Encoder wheel | Ap_Time u32

fun app_do :: "app_event \<Rightarrow> 'a app_env" where
  "app_do Ap_Control = hcics_control_thread (ret ())"
| "app_do (Ap_Track_Camera parser) = do { _ \<leftarrow> hcics_track_camera_uart_thread (ret ()) parser; ret () }"
| "app_do (Ap_Clean_Camera parser) = do { _ \<leftarrow> hcics_clean_camera_uart_thread (ret ()) parser; ret () }"
| "app_do (Ap_Guard n) = do { _ \<leftarrow> hcics_guard_thread (ret ()) n; ret () }"
| "app_do (Ap_Cleaner n) = do { _ \<leftarrow> hcics_cleaner_worker (ret ()) n; ret () }"
| "app_do (Ap_Udp_Open n) = do { _ \<leftarrow> app_udp_open (ret ()) n; ret () }"
| "app_do (Ap_Udp_Turn sock fault) = do { _ \<leftarrow> app_udp_turn (ret ()) sock fault; ret () }"
| "app_do (Ap_Udp_Close sock) = do { app_set_sock (ret ()) (- 1); hw_out (Sock_Close sock) }"
| "app_do (Ap_Encoder w) = hcics_encoder_irq w"
| "app_do (Ap_Time ms) = modify (\<lambda>s. s\<lparr>clock := clock s + ms\<rparr>)"

fun app_dos :: "app_event list \<Rightarrow> 'a app_env" where
  "app_dos [] = ret ()"
| "app_dos (e # es) = do { app_do e; app_dos es }"

text \<open>Any schedule of them, chosen by the history.\<close>

definition app_others :: "(hw_call list \<Rightarrow> app_event list) \<Rightarrow> 'a app_env" where
  "app_others sched = do { tr \<leftarrow> gets trace; app_dos (sched tr) }"

section \<open>Requests and reports\<close>

text \<open>Since \<open>tr0\<close> the report was sent in full.\<close>

definition report_call :: "int \<Rightarrow> hcics_remote_cmd \<Rightarrow> u8 \<Rightarrow> sockaddr_in \<Rightarrow> hw_call" where
  "report_call sock cmd param peer =
     Sock_Send sock (app_report_line cmd param) (sin_family peer) (sin_port peer) (sin_addr peer)"

definition sent_since ::
  "hw_call list \<Rightarrow> hcics_remote_cmd \<Rightarrow> u8 \<Rightarrow> sockaddr_in \<Rightarrow> 'a app_scheme \<Rightarrow> bool" where
  "sent_since tr0 cmd param peer s \<longleftrightarrow> (\<exists>cs cs' sock.
     trace s = cs @ report_call sock cmd param peer # cs' @ tr0 \<and>
     answer s (report_call sock cmd param peer # cs' @ tr0) = int (length (app_report_line cmd param)))"

text \<open>The calls that put nothing out: no PWM, no pin and no motor.\<close>

fun quiet_call :: "hw_call \<Rightarrow> bool" where
  "quiet_call (Pwm_Set _ _ _ _) = False"
| "quiet_call (Pwm_Enable _ _) = False"
| "quiet_call (Pwm_Disable _ _) = False"
| "quiet_call (Pin_Write _ _) = False"
| "quiet_call (Motor_Output _ _) = False"
| "quiet_call _ = True"

lemma quiet_own: "quiet_call k \<Longrightarrow> own_call c p k"
  by (cases k) simp_all

text \<open>
  The functions of the network thread on the request and the report, as what they do to the state:
  sending a report changes nothing, flushing the pending one clears it when it was sent, and a fault
  is accepted when nothing is in the way.
\<close>

lemma report_length: "length (app_report_line cmd param) < 24"
  by (cases cmd) (simp_all add: app_report_line_def dec_u8_def Let_def)

lemma quiet_report [simp]: "quiet_call (report_call sock cmd param peer)"
  by (simp add: report_call_def)

lemma vc_send_report:
  assumes "\<And>b cs. list_all quiet_call cs \<Longrightarrow>
      (b \<Longrightarrow> \<exists>to. peer = Some to \<and> sent_since (trace s) cmd param to (s\<lparr>trace := cs @ trace s\<rparr>)) \<Longrightarrow>
      Q b (s\<lparr>trace := cs @ trace s\<rparr>)"
  shows "wp (hcics_udp_send_report sock cmd param peer) Q s"
proof (cases peer)
  case None
  then show ?thesis
    using assms [of "[]" False] by (simp add: hcics_udp_send_report_def wp)
next
  case (Some to)
  let ?k = "report_call sock cmd param to"
  have "Q False s" "Q False (s\<lparr>trace := Wlan_Is_Ready # trace s\<rparr>)"
    using assms [of "[]" False] assms [of "[Wlan_Is_Ready]" False] by simp_all
  moreover have "Q (answer s (?k # Wlan_Is_Ready # trace s) = int (length (app_report_line cmd param)))
      (s\<lparr>trace := [?k, Wlan_Is_Ready] @ trace s\<rparr>)"
  proof (rule assms)
    assume "answer s (?k # Wlan_Is_Ready # trace s) = int (length (app_report_line cmd param))"
    then have "sent_since (trace s) cmd param to (s\<lparr>trace := [?k, Wlan_Is_Ready] @ trace s\<rparr>)"
      unfolding sent_since_def
      by (intro exI [of _ "[]"] exI [of _ "[Wlan_Is_Ready]"] exI [of _ sock]) simp
    then show "\<exists>to. peer = Some to \<and> sent_since (trace s) cmd param to (s\<lparr>trace := [?k, Wlan_Is_Ready] @ trace s\<rparr>)"
      using Some by blast
  qed simp
  ultimately show ?thesis
    using report_length [of cmd param] Some
    by (simp add: hcics_udp_send_report_def hcics_wifi_link_ready_def report_call_def wp Let_def)
qed

lemma same_peer_refl [simp]: "hcics_same_peer (Some p) (Some p)"
  by simp

lemma sent_since_simps:
  "sent_since tr0 cmd param to s \<Longrightarrow> answer t = answer s \<Longrightarrow> trace t = cs @ trace s \<Longrightarrow> sent_since tr0 cmd param to t"
  "sent_since (ds @ tr0) cmd param to s \<Longrightarrow> sent_since tr0 cmd param to s"
  unfolding sent_since_def by (metis append.assoc append_Cons)+

lemma vc_flush:
  fixes s :: "'a app_scheme"
  assumes keep: "\<And>cs. list_all quiet_call cs \<Longrightarrow> Q () (s\<lparr>trace := cs @ trace s\<rparr>)"
    and clear: "\<And>cs cmd param peer. list_all quiet_call cs \<Longrightarrow> ap_pending s = Some (cmd, param, peer) \<Longrightarrow>
      sent_since (trace s) cmd param peer (s\<lparr>trace := cs @ trace s\<rparr>) \<Longrightarrow>
      Q () (s\<lparr>ap_pending := None, trace := cs @ trace s\<rparr>)"
  shows "wp (hcics_flush_pending_report (ret ())) Q s"
proof -
  let ?t = "Mutex_Take ''hcics_udp''" and ?r = "Mutex_Release ''hcics_udp''"
  have keeps: "Q () (s\<lparr>trace := ?r # ?t # trace s\<rparr>)" "Q () (s\<lparr>trace := ?r # Wlan_Is_Ready # ?t # trace s\<rparr>)"
    using keep [of "[?r, ?t]"] keep [of "[?r, Wlan_Is_Ready, ?t]"] by simp_all
  let ?s = "s\<lparr>trace := ?r # Wlan_Is_Ready # ?t # trace s\<rparr>"
  have send: "wp (hcics_udp_send_report sock cmd param (Some peer))
      (\<lambda>sent. wp (if sent then hcics_clear_pending_report_if_current (ret ()) cmd param (Some peer) else ret ()) Q) ?s"
    if p: "ap_pending s = Some (cmd, param, peer)" for sock cmd param peer
  proof (rule vc_send_report)
    fix b cs
    assume q: "list_all quiet_call cs"
      and sent: "b \<Longrightarrow> \<exists>to. Some peer = Some to \<and> sent_since (trace ?s) cmd param to (?s\<lparr>trace := cs @ trace ?s\<rparr>)"
    have kept: "Q () (s\<lparr>trace := cs @ ?r # Wlan_Is_Ready # ?t # trace s\<rparr>)"
      using keep [of "cs @ [?r, Wlan_Is_Ready, ?t]"] q by simp
    have cleared: "Q () (s\<lparr>ap_pending := None, trace := ?r # ?t # cs @ ?r # Wlan_Is_Ready # ?t # trace s\<rparr>)" if b
      using clear [of "?r # ?t # cs @ [?r, Wlan_Is_Ready, ?t]" cmd param peer] q p
        sent_since_simps(2) [of "[?r, Wlan_Is_Ready, ?t]" "trace s", OF sent_since_simps(1)
          [of _ cmd param peer "?s\<lparr>trace := cs @ trace ?s\<rparr>" "s\<lparr>trace := (?r # ?t # cs @ [?r, Wlan_Is_Ready, ?t]) @ trace s\<rparr>" "[?r, ?t]"]]
        sent [OF that] by simp
    show "wp (if b then hcics_clear_pending_report_if_current (ret ()) cmd param (Some peer) else ret ()) Q
        (?s\<lparr>trace := cs @ trace ?s\<rparr>)"
      using kept cleared p
      by (simp add: hcics_clear_pending_report_if_current_def app_take_def app_release_def wp)
  qed
  show ?thesis
    unfolding hcics_flush_pending_report_def app_take_def app_release_def
    using keeps send by (auto simp: wp hcics_wifi_link_ready_def split: option.splits)
qed

text \<open>Accepting a fault: everything that is in the way, and the state when nothing is.\<close>

definition request_for :: "hcics_fault \<Rightarrow> sockaddr_in option \<Rightarrow> hcics_msg" where
  "request_for fault peer = \<lparr>msg_type = HCICS_MSG_FAULT, msg_fault = fault, msg_peer = peer\<rparr>"

lemma vc_enqueue:
  fixes s :: "'a app_scheme"
  assumes refused: "\<And>r cs. list_all quiet_call cs \<Longrightarrow> r \<noteq> RT_EOK \<Longrightarrow>
      \<not> ap_mq s \<or> \<not> hcics_protocol_fault_is_valid fault \<or> ap_busy s \<or> ap_pending s \<noteq> None \<Longrightarrow>
      Q r (s\<lparr>trace := cs @ trace s\<rparr>)"
    and failed: "\<And>r cs. list_all quiet_call cs \<Longrightarrow> r \<noteq> RT_EOK \<Longrightarrow> \<not> ap_busy s \<Longrightarrow>
      Q r (s\<lparr>ap_active_fault := fault, ap_busy := False, trace := cs @ trace s\<rparr>)"
    and accepted: "\<And>cs. list_all quiet_call cs \<Longrightarrow> ap_mq s \<Longrightarrow> \<not> ap_busy s \<Longrightarrow> ap_pending s = None \<Longrightarrow>
      hcics_protocol_fault_is_valid fault \<Longrightarrow>
      Q RT_EOK (s\<lparr>ap_busy := True, ap_active_fault := fault, trace := cs @ trace s,
        ap_queue := ap_queue s @ [request_for fault peer]\<rparr>)"
  shows "wp (hcics_enqueue_fault (ret ()) fault peer) Q s"
proof -
  let ?t = "Mutex_Take ''hcics_udp''" and ?r = "Mutex_Release ''hcics_udp''"
  let ?ts = "Mutex_Take ''hcics_st''" and ?rs = "Mutex_Release ''hcics_st''"
  have "\<not> ap_mq s \<or> \<not> hcics_protocol_fault_is_valid fault \<Longrightarrow> Q (- RT_EINVAL) s"
    using refused [of "[]" "- RT_EINVAL"] by (auto simp: rt_err_defs)
  moreover have "ap_pending s \<noteq> None \<Longrightarrow> Q (- RT_EBUSY) (s\<lparr>trace := ?r # ?t # trace s\<rparr>)"
    using refused [of "[?r, ?t]" "- RT_EBUSY"] by (simp add: rt_err_defs)
  moreover have "ap_busy s \<Longrightarrow> Q (- RT_EBUSY) (s\<lparr>trace := ?rs # ?ts # ?r # ?t # trace s\<rparr>)"
    using refused [of "[?rs, ?ts, ?r, ?t]" "- RT_EBUSY"] by (simp add: rt_err_defs)
  moreover note accepted [of "[Mq_Send 1, ?rs, ?r, ?t, ?ts, ?r, ?t]"]
    failed [of "[?rs, ?ts, Mq_Send 1, ?rs, ?r, ?t, ?ts, ?r, ?t]"]
  ultimately show ?thesis
    by (cases "ap_pending s") (auto simp: hcics_enqueue_fault_def hcics_pending_report_active_def hcics_reserve_mission_def
        hcics_release_mission_def rt_mq_send_def app_take_def app_release_def wp request_for_def)
qed

text \<open>
  An invariant that also allows for a fault that is accepted and a report that was sent is kept by
  all other threads.
\<close>

locale app_request = app_keeps "ret ()" inv m c
  for inv :: "'a app_scheme \<Rightarrow> bool" and m and c +
  assumes cleared: "inv s \<Longrightarrow> ap_pending s = Some (cmd, param, peer) \<Longrightarrow> list_all quiet_call cs \<Longrightarrow>
      sent_since (trace s) cmd param peer (s\<lparr>trace := cs @ trace s\<rparr>) \<Longrightarrow>
      inv (s\<lparr>ap_pending := None, trace := cs @ trace s\<rparr>)"
    and accepted: "inv s \<Longrightarrow> \<not> ap_busy s \<Longrightarrow> ap_pending s = None \<Longrightarrow> list_all quiet_call cs \<Longrightarrow>
      hcics_protocol_fault_is_valid fault \<Longrightarrow>
      inv (s\<lparr>ap_busy := True, ap_active_fault := fault, trace := cs @ trace s,
        ap_queue := ap_queue s @ [request_for fault (Some peer)]\<rparr>)"
begin

lemma inv_quiet: "inv s \<Longrightarrow> list_all quiet_call cs \<Longrightarrow> inv (s\<lparr>trace := cs @ trace s\<rparr>)"
  by (rule clean.inv_calls) (auto simp: list_all_iff quiet_own)

lemma inv_released:
  "inv s \<Longrightarrow> \<not> ap_busy s \<Longrightarrow> list_all quiet_call cs \<Longrightarrow>
     inv (s\<lparr>ap_active_fault := fault, ap_busy := False, trace := cs @ trace s\<rparr>)"
  using app_own [OF inv_quiet, of s cs "s\<lparr>ap_active_fault := fault, ap_busy := False, trace := cs @ trace s\<rparr>"]
  by (simp add: guard.defs app_core_def)

lemma pres_flush: "preserves inv (hcics_flush_pending_report (ret ()))"
  by (intro preservesI vc_flush inv_quiet cleared)

lemma pres_enqueue: "preserves inv (hcics_enqueue_fault (ret ()) fault (Some peer))"
  by (intro preservesI vc_enqueue inv_quiet inv_released accepted)

lemma pres_pending: "preserves inv (hcics_pending_report_active (ret ()))"
  unfolding hcics_pending_report_active_def by (intro pres pres_sync)

lemma pres_reject: "preserves inv (hcics_report_esp_reject (ret ()) cmd param peer)"
  unfolding hcics_report_esp_reject_def by (intro pres pres_sync pres_send)

lemma pres_udp_text: "preserves inv (app_udp_text (ret ()) text peer fault)"
  unfolding app_udp_text_def
  by (intro pres pres_pending pres_reject pres_enqueue pres_app_stop)

lemma pres_udp_turn: "preserves inv (app_udp_turn (ret ()) sock fault)"
  unfolding app_udp_turn_def
  by (intro pres pres_send pres_flush pres_udp_text pres_call) simp

lemma pres_set_sock: "preserves inv (app_set_sock (ret ()) sock)"
  unfolding app_set_sock_def
  by (intro pres pres_sync pres_own) (simp_all add: guard.defs app_core_def)

lemma pres_udp_open: "preserves inv (app_udp_open (ret ()) n)"
proof -
  have "preserves inv (app_wifi_loop (ret ()) start req n)" for start req
    by (induction n arbitrary: req)
      (simp_all only: app_wifi_loop.simps, (intro pres pres_sync pres_call; (assumption | simp)?)+)
  then show ?thesis
    unfolding app_udp_open_def hcics_wifi_wait_ready_def
    by (intro pres pres_sync pres_set_sock pres_flush pres_call) simp_all
qed

lemma pres_do: "preserves inv (app_do e)"
proof (cases e)
  case (Ap_Time ms)
  then show ?thesis
    by (simp add: preserves_modify clean.inv_clock)
qed (auto intro!: pres pres_control pres_camera_threads sensor.pres_thread clean.pres_worker
      pres_udp_open pres_udp_turn pres_set_sock pres_call drive.dev.pres_irq)

lemma pres_others: "preserves inv (app_others sched)"
proof -
  have "preserves inv (app_dos es)" for es
    by (induction es) (auto intro!: pres pres_do)
  then show ?thesis
    unfolding app_others_def by (intro pres)
qed

end

sublocale app_request \<subseteq> sys: app_keeps "app_others sched" inv m c for sched
  by unfold_locales (fact pres_others clean.inv_cfg clean.inv_calls clean.inv_off clean.inv_clock
      clean.inv_pose clean.inv_state clean.inv_cycle clean.inv_camera clean.inv_guard clean.inv_stop
      clean.inv_done clean.inv_start clean.inv_start_failed clean.inv_reset clean.inv_on
      sensor.inv_own track_own app_own)+

text \<open>And one that says nothing of the plan by the mission among the other threads.\<close>

locale app_mission = app_request inv m c + app_plans "ret ()" inv m c for inv :: "'a app_scheme \<Rightarrow> bool" and m and c

sublocale app_mission \<subseteq> sys: app_plans "app_others sched" inv m c for sched
  by unfold_locales (rule plan_own)

end
