(* ===== verification/HcicsAppMissions.thy ===== *)
theory HcicsAppMissions
  imports HcicsAppEnv
begin

text \<open>
  The missions of the application, interleaved with all the other threads: at most one at a time, and
  every accepted fault is answered. \<open>app_view\<close> is the interface: a predicate of what decides about a
  mission is an invariant across the modules.
\<close>

section \<open>Views\<close>

text \<open>The modules below are initialised and in range.\<close>

definition app_ready :: "hcics_cleaner_config \<Rightarrow> 'a app_scheme \<Rightarrow> bool" where
  "app_ready c s \<longleftrightarrow> cleaner_posed c s \<and> mo_initialized s \<and> speeds_ok s"

lemma app_enc [simp]:
  fixes s :: "'a app_scheme"
  shows "app_core (enc_update w f s) = app_core s" "cleaner_posed c (enc_update w f s) = cleaner_posed c s"
    "speeds_ok (enc_update w f s) = speeds_ok s" "ap_abort (enc_update w f s) = ap_abort s" "trace (enc_update w f s) = trace s"
    "answer (enc_update w f s) = answer s"
  by (cases w; simp add: app_core_def cleaner_inv_defs speeds_ok_def)+

lemma same_motion:
  fixes s t :: "'a app_scheme"
  assumes "encoder.truncate t = encoder.truncate s" "motion.more t = motion.more s"
  shows "app_core t = app_core s" "cleaner_posed c t = cleaner_posed c s" "trace t = trace s" "answer t = answer s"
    "ap_abort t = ap_abort s" "ax_tx_pin t = ax_tx_pin s"
  using assms by (cases s; cases t; simp add: encoder.defs app_core_def cleaner_inv_defs)+

lemma same_track:
  fixes s t :: "'a app_scheme"
  assumes "motion.truncate t = motion.truncate s" "track.more t = track.more s"
  shows "app_core t = app_core s" "cleaner_posed c t = cleaner_posed c s" "speeds_ok t = speeds_ok s"
    "mo_emergency_stop t = mo_emergency_stop s" "mo_initialized t = mo_initialized s" "trace t = trace s" "answer t = answer s"
    "ap_abort t = ap_abort s" "ax_tx_pin t = ax_tx_pin s"
  using assms by (cases s; cases t; simp add: motion.defs app_core_def cleaner_inv_defs speeds_ok_def)+

lemma same_guard:
  fixes s t :: "'a app_scheme"
  assumes "cleaner.truncate t = cleaner.truncate s" "guard.more t = guard.more s"
  shows "app_core t = app_core s" "cleaner_posed c t = cleaner_posed c s" "speeds_ok t = speeds_ok s"
    "mo_emergency_stop t = mo_emergency_stop s" "mo_initialized t = mo_initialized s" "trace t = trace s" "answer t = answer s"
    "ap_abort t = ap_abort s" "ax_tx_pin t = ax_tx_pin s"
  using assms by (cases s; cases t; simp add: cleaner.defs app_core_def cleaner_inv_defs speeds_ok_def)+

lemma same_app:
  fixes s t :: "'a app_scheme"
  assumes "guard.truncate t = guard.truncate s"
  shows "cleaner_posed c t = cleaner_posed c s" "speeds_ok t = speeds_ok s"
    "mo_emergency_stop t = mo_emergency_stop s" "mo_initialized t = mo_initialized s" "trace t = trace s" "answer t = answer s"
    "ax_tx_pin t = ax_tx_pin s"
  using assms by (cases s; cases t; simp add: guard.defs cleaner_inv_defs speeds_ok_def)+

text \<open>
  A view of the requests: a predicate of what decides about missions, of what the boundary answers and
  of a trace that grows. With the modules ready it is an invariant across them.
\<close>

locale app_view =
  fixes K :: "'a app_scheme \<Rightarrow> bool"
  assumes frame: "K s \<Longrightarrow> app_core t = app_core s \<Longrightarrow> ap_abort s \<longrightarrow> ap_abort t \<Longrightarrow>
      answer t = answer s \<Longrightarrow> trace t = cs @ trace s \<Longrightarrow> K t"
    and clears: "K s \<Longrightarrow> ap_pending s = Some (cmd, param, peer) \<Longrightarrow>
      sent_since (trace s) cmd param peer (s\<lparr>trace := cs @ trace s\<rparr>) \<Longrightarrow>
      K (s\<lparr>ap_pending := None, trace := cs @ trace s\<rparr>)"
    and accepts: "K s \<Longrightarrow> \<not> ap_busy s \<Longrightarrow> ap_pending s = None \<Longrightarrow> hcics_protocol_fault_is_valid fault \<Longrightarrow>
      K (s\<lparr>ap_busy := True, ap_active_fault := fault, trace := cs @ trace s,
        ap_queue := ap_queue s @ [request_for fault (Some peer)]\<rparr>)"
begin

lemma step:
  "app_ready c s \<and> K s \<Longrightarrow> cleaner_posed c t \<Longrightarrow> speeds_ok t \<Longrightarrow> app_core t = app_core s \<Longrightarrow>
     mo_initialized s \<longrightarrow> mo_initialized t \<Longrightarrow> ap_abort s \<longrightarrow> ap_abort t \<Longrightarrow> answer t = answer s \<Longrightarrow>
     trace t = cs @ trace s \<Longrightarrow> app_ready c t \<and> K t"
  by (simp add: app_ready_def) (blast intro: frame)

lemmas step_none = step [where cs = "[]", simplified]
lemmas step_one = step [where cs = "[k]" for k, simplified]

end

lemmas view_simps = app_ready_def cleaner_inv_defs speeds_ok_def app_core_def

sublocale app_view \<subseteq> app_mission "\<lambda>s. app_ready c s \<and> K s" 250 c for c
proof (unfold_locales, goal_cases)
  case (8 s t)
  note same = same_motion [OF 8(2,3)]
  show ?case
    by (rule step_none [OF 8(1)]) (use same 8 in \<open>auto simp only: app_ready_def\<close>)
next
  case (26 s t)
  note same = same_guard [OF 26(2,3)]
  show ?case
    by (rule step_none [OF 26(1)]) (use same 26 in \<open>auto simp only: app_ready_def\<close>)
next
  case (27 s t)
  note same = same_track [OF 27(2,3)]
  show ?case
    by (rule step_none [OF 27(1)]) (use same 27 in \<open>auto simp only: app_ready_def\<close>)
next
  case (31 s t)
  note same = same_track [OF 31(2,3)]
  show ?case
    by (rule step_none [OF 31(1)]) (use same 31 in \<open>auto simp only: app_ready_def\<close>)
next
  case (28 s t)
  note same = same_app [OF 28(2)]
  show ?case
    by (rule step_none [OF 28(1)]) (use same 28 in \<open>auto simp only: app_ready_def\<close>)
next
  case (29 s cmd param peer cs)
  then show ?case
    by (simp add: clears app_ready_def cleaner_inv_defs speeds_ok_def)
next
  case (30 s cs fault peer)
  then show ?case
    by (simp add: accepts app_ready_def cleaner_inv_defs speeds_ok_def)
next
  case (12 s cs)
  then show ?case
    by - (rule step [of c s], simp_all add: view_simps)
next
  case (6 s w f)
  then show ?case
    by - (rule step_none [of c s], simp_all add: app_ready_def)
qed (((rule step_none, assumption); (simp add: view_simps; fail)) |
     ((rule step_one, assumption); (simp add: view_simps; fail)) |
     (rule preserves_ret) | (simp add: view_simps; fail))+

section \<open>Missions\<close>

text \<open>
  A fault is waiting for the mission thread; its mission runs, since the trace \<open>tr0\<close>; its report was
  stored or sent.
\<close>

definition app_waiting :: "hcics_msg \<Rightarrow> 'a app_scheme \<Rightarrow> bool" where
  "app_waiting msg s \<longleftrightarrow> ap_busy s \<and> ap_queue s = [msg] \<and> ap_pending s = None"

definition app_running :: "hw_call list \<Rightarrow> 'a app_scheme \<Rightarrow> bool" where
  "app_running tr0 s \<longleftrightarrow> ap_busy s \<and> ap_queue s = [] \<and> ap_pending s = None \<and> (\<exists>cs. trace s = cs @ tr0)"

definition delivered ::
  "hw_call list \<Rightarrow> hcics_remote_cmd \<Rightarrow> u8 \<Rightarrow> sockaddr_in option \<Rightarrow> 'a app_scheme \<Rightarrow> bool" where
  "delivered tr0 cmd param peer s \<longleftrightarrow>
     (\<forall>to. peer = Some to \<longrightarrow> ap_pending s = Some (cmd, param, to) \<or> sent_since tr0 cmd param to s)"

definition app_reported ::
  "hw_call list \<Rightarrow> hcics_remote_cmd \<Rightarrow> u8 \<Rightarrow> sockaddr_in option \<Rightarrow> 'a app_scheme \<Rightarrow> bool" where
  "app_reported tr0 cmd param peer s \<longleftrightarrow>
     ap_busy s \<and> ap_queue s = [] \<and> (\<exists>cs. trace s = cs @ tr0) \<and> delivered tr0 cmd param peer s"

text \<open>Between two missions: no fault is accepted, or exactly one, which is valid, and no report is pending.\<close>

definition app_between :: "'a app_scheme \<Rightarrow> bool" where
  "app_between s \<longleftrightarrow> (if ap_busy s
     then ap_pending s = None \<and> (\<exists>msg. ap_queue s = [msg] \<and> hcics_protocol_fault_is_valid (msg_fault msg))
     else ap_queue s = [])"

lemmas mission_defs = app_waiting_def app_running_def app_reported_def app_between_def delivered_def app_core_def

interpretation waiting: app_view "app_waiting msg" for msg
  by unfold_locales (auto simp: mission_defs)

interpretation running: app_view "app_running tr0" for tr0
  by unfold_locales (auto simp: mission_defs)

interpretation reported: app_view "app_reported tr0 cmd param peer" for tr0 cmd param peer
proof (unfold_locales, goal_cases)
  case (1 s t cs)
  then show ?case
    by (auto simp: mission_defs intro: sent_since_simps(1))
next
  case (2 s cmd' param' peer' cs)
  let ?t = "s\<lparr>ap_pending := None, trace := cs @ trace s\<rparr>"
  have "sent_since tr0 cmd' param' peer' (s\<lparr>trace := cs @ trace s\<rparr>)"
    using 2 sent_since_simps(2) by (auto simp: app_reported_def)
  then have "sent_since tr0 cmd' param' peer' ?t"
    by (rule sent_since_simps(1) [where cs = "[]"]) simp_all
  moreover have "sent_since tr0 cmd param to s \<Longrightarrow> sent_since tr0 cmd param to ?t" for to
    by (erule sent_since_simps(1) [where cs = cs]) simp_all
  ultimately show ?case
    using 2 by (auto simp: mission_defs)
qed (simp add: mission_defs)

interpretation between: app_view app_between
  by unfold_locales (auto simp: mission_defs request_for_def split: if_splits)

lemma app_ready_simps [simp]:
  "app_ready c (s\<lparr>trace := tr\<rparr>) = app_ready c s" "app_ready c (s\<lparr>ap_busy := b\<rparr>) = app_ready c s"
  "app_ready c (s\<lparr>ap_pending := x\<rparr>) = app_ready c s" "app_ready c (s\<lparr>ap_queue := q\<rparr>) = app_ready c s"
  "app_ready c (s\<lparr>ap_state := st\<rparr>) = app_ready c s"
  by (simp_all add: app_ready_def cleaner_inv_defs speeds_ok_def)

lemma vc_report_final:
  fixes s :: "'a app_scheme"
  assumes "app_ready c s \<and> app_running tr0 s"
    and "\<And>t. app_ready c t \<and> app_reported tr0 cmd param peer t \<Longrightarrow> Q () t"
  shows "wp (hcics_report_esp_final (app_others sched) cmd param peer) Q s"
proof (cases peer)
  case None
  then show ?thesis
    using assms by (simp add: hcics_report_esp_final_def wp mission_defs)
next
  case (Some to)
  have sent: "Q () (t\<lparr>trace := cs @ trace t\<rparr>)"
    if "app_ready c t \<and> app_running tr0 t" "sent_since (trace t) cmd param to (t\<lparr>trace := cs @ trace t\<rparr>)" for t :: "'a app_scheme" and cs
    using that sent_since_simps(2) Some by (intro assms(2)) (auto simp: mission_defs)
  have store: "wp (hcics_store_pending_report_locked cmd param peer)
      (\<lambda>_ t. app_ready c t \<and> app_reported tr0 cmd param peer t) t"
    if "app_ready c t \<and> app_running tr0 t" for t :: "'a app_scheme"
    using that Some by (simp add: hcics_store_pending_report_locked_def wp mission_defs)
  have some: "peer \<noteq> None"
    by (simp add: Some)
  show ?thesis
    unfolding hcics_report_esp_final_def if_not_P [OF some]
  proof (intro vc vc_preserves [OF running.sys.pres_sync(1) [of c tr0] assms(1)]
      vc_preserves [OF running.sys.pres_sync(2) [of c tr0]], assumption, rule vc_send_report)
    fix t :: "'a app_scheme" and b :: bool and cs
    assume t: "app_ready c t \<and> app_running tr0 t" and "list_all quiet_call cs"
      and b: "b \<Longrightarrow> \<exists>to. peer = Some to \<and> sent_since (trace t) cmd param to (t\<lparr>trace := cs @ trace t\<rparr>)"
    have u: "app_ready c (t\<lparr>trace := cs @ trace t\<rparr>) \<and> app_running tr0 (t\<lparr>trace := cs @ trace t\<rparr>)"
      using t by (auto simp: mission_defs)
    show "wp (if b then ret () else do {
        app_take (app_others sched) ''hcics_udp'';
        _ \<leftarrow> hcics_store_pending_report_locked cmd param peer;
        app_release ''hcics_udp'' }) Q (t\<lparr>trace := cs @ trace t\<rparr>)"
      using sent [OF t] b Some
      by (intro vc vc_preserves [OF running.sys.pres_sync(1) [of c tr0] u] wp_conseq [OF store]
          vc_preserves [OF reported.sys.pres_sync(2) [of c tr0 cmd param peer]]) (auto intro: assms(2))
  qed
qed

lemma vc_release_mission:
  fixes s :: "'a app_scheme"
  assumes "app_ready c s \<and> app_reported tr0 cmd param peer s"
    and "\<And>t. \<lbrakk>app_ready c t; \<not> ap_busy t; ap_queue t = []; delivered tr0 cmd param peer t\<rbrakk> \<Longrightarrow> Q () t"
  shows "wp (hcics_release_mission (app_others sched)) Q s"
proof -
  have "Q () (t\<lparr>ap_busy := False, trace := k # trace t\<rparr>)"
    if "app_ready c t \<and> app_reported tr0 cmd param peer t" for t :: "'a app_scheme" and k
    using that sent_since_simps(1) [of tr0 cmd param _ t "t\<lparr>ap_busy := False, trace := k # trace t\<rparr>" "[k]"]
    by (intro assms(2)) (auto simp: mission_defs)
  then show ?thesis
    unfolding hcics_release_mission_def app_release_def
    by (intro vc vc_preserves [OF reported.sys.pres_sync(1) [of c tr0 cmd param peer] assms(1)]) auto
qed

text \<open>The end of a mission: the outputs are stopped, and the report comes before the release.\<close>

definition ended :: "hcics_cleaner_config \<Rightarrow> hw_call list \<Rightarrow> hcics_fault \<Rightarrow> sockaddr_in option \<Rightarrow>
    rt_err \<Rightarrow> 'a app_scheme \<Rightarrow> bool" where
  "ended c tr0 fault peer result s \<longleftrightarrow> app_ready c s \<and> \<not> ap_busy s \<and> ap_queue s = [] \<and>
     delivered tr0 (if result = RT_EOK then HCICS_REMOTE_DONE else HCICS_REMOTE_ERROR) (fault_id fault) peer s"

lemma ended_state [simp]: "ended c tr0 fault peer result (s\<lparr>ap_state := st\<rparr>) = ended c tr0 fault peer result s"
  by (auto simp: ended_def delivered_def sent_since_def)

lemma running_state [simp]: "app_running tr0 (s\<lparr>ap_state := st\<rparr>) = app_running tr0 s"
  by (simp add: mission_defs)

lemma mission_failed_ends:
  fixes s :: "'a app_scheme"
  assumes "app_ready c s \<and> app_running tr0 s" and "result \<noteq> RT_EOK"
  shows "wp (hcics_mission_failed (app_others sched) n fault peer result)
    (\<lambda>q t. q \<noteq> None \<longrightarrow> q = Some result \<and> ended c tr0 fault peer result t) s"
  unfolding hcics_mission_failed_def hcics_set_state_def
  by (intro vc vc_preserves [OF running.sys.pres_safe_stop [of c tr0] assms(1)]
      vc_report_final [of c _ tr0] vc_release_mission [of c _ tr0 HCICS_REMOTE_ERROR "fault_id fault" peer];
      (assumption | simp add: assms(2))?)
    (simp add: ended_def assms(2))

lemma mission_done_ends:
  fixes s :: "'a app_scheme"
  assumes "app_ready c s \<and> app_running tr0 s"
  shows "wp (hcics_mission_done (app_others sched) n fault peer)
    (\<lambda>q t. q \<noteq> None \<longrightarrow> q = Some RT_EOK \<and> ended c tr0 fault peer RT_EOK t) s"
  unfolding hcics_mission_done_def hcics_set_state_def
  by (intro vc vc_preserves [OF running.sys.pres_safe_stop [of c tr0] assms(1)]
      vc_report_final [of c _ tr0] vc_release_mission [of c _ tr0 HCICS_REMOTE_DONE "fault_id fault" peer];
      (assumption | simp)?)
    (simp add: ended_def)

context app_view begin

lemma pres_clear: "preserves (\<lambda>s. app_ready c s \<and> K s) hcics_motion_clear_emergency_stop"
  unfolding hcics_motion_clear_emergency_stop_def
proof (intro pres drive.pres_ensure preserves_modify)
  fix s :: "'a app_scheme"
  assume s: "app_ready c s \<and> K s"
  show "app_ready c (s\<lparr>mo_emergency_stop := False, mo_stop_reason := 0\<rparr>) \<and>
      K (s\<lparr>mo_emergency_stop := False, mo_stop_reason := 0\<rparr>)"
    by (rule step_none [OF s]) (use s in \<open>simp_all add: view_simps\<close>)
qed

lemma pres_flags:
  "preserves (\<lambda>s. app_ready c s \<and> K s)
     (modify (\<lambda>s. s\<lparr>ap_motion_fault := b, ap_motion_fault_reason := r\<rparr>))"
  by (rule pres_own) (simp_all add: guard.defs app_core_def)

end

lemma running_flags:
  "preserves (\<lambda>s. app_ready c s \<and> app_running tr0 s)
     (modify (\<lambda>s. s\<lparr>ap_abort := a, ap_motion_fault := b, ap_motion_fault_reason := r\<rparr>))"
  by (rule preserves_modify) (auto simp: view_simps mission_defs)

lemma mission_ends:
  fixes s :: "'a app_scheme"
  assumes "app_ready c s \<and> app_running (trace s) s" and "hcics_protocol_fault_is_valid (msg_fault msg)"
  shows "wp (hcics_run_mission (app_others sched) n msg)
    (\<lambda>q t. \<forall>result. q = Some result \<longrightarrow> ended c (trace s) (msg_fault msg) (msg_peer msg) result t) s"
proof -
  let ?Q = "\<lambda>q t. \<forall>result. q = Some result \<longrightarrow> ended c (trace s) (msg_fault msg) (msg_peer msg) result t"
  have failed: "wp (hcics_mission_failed (app_others sched) n (msg_fault msg) (msg_peer msg) r) ?Q t"
    if "app_ready c t \<and> app_running (trace s) t" "r \<noteq> RT_EOK" for t :: "'a app_scheme" and r
    by (rule wp_conseq [OF mission_failed_ends [OF that]]) auto
  have success: "wp (hcics_mission_done (app_others sched) n (msg_fault msg) (msg_peer msg)) ?Q t"
    if "app_ready c t \<and> app_running (trace s) t" for t :: "'a app_scheme"
    by (rule wp_conseq [OF mission_done_ends [OF that]]) auto
  show ?thesis
    unfolding hcics_run_mission_def
    by (intro vc vc_preserves [OF running_flags [of c "trace s"] assms(1)]
        vc_preserves [OF running.pres_clear [of c "trace s"]]
        vc_preserves [OF running.drive.pres_reset [of c "trace s"]]
        vc_preserves [OF running.pres_snapshot [of c "trace s"]]
        vc_preserves [OF running.pres_flags [of c "trace s"]]
        vc_preserves [OF running.sys.pres_drive [of c "trace s"]] failed success)
      (use assms(2) in auto)
qed

text \<open>
  The life of the application after its initialisation: turns of the other threads, in any order, and
  turns of the mission thread that are interleaved with them.
\<close>

inductive app_steps :: "'a app_scheme \<Rightarrow> 'a app_scheme \<Rightarrow> bool" where
  app_start: "app_steps s s"
| app_other: "app_steps s t \<Longrightarrow> run_state (app_others sched) t = (r, u) \<Longrightarrow> app_steps s u"
| app_mission: "app_steps s t \<Longrightarrow> run_state (hcics_mission_thread (app_others sched) n) t = (Some r, u) \<Longrightarrow>
    app_steps s u"

section \<open>An example\<close>

text \<open>A mission for the fault has just been taken from the queue.\<close>

definition sender_example :: sockaddr_in where
  "sender_example = \<lparr>sin_family = 2, sin_port = 6208, sin_addr = 1\<rparr>"

definition app_example :: app where
  "app_example = guard.extend deaf_example (app.fields True True False False 0 HCICS_STATE_IDLE fault_example
     (tr_camera track_example) (tr_camera track_example) 1 None True None None []
     (\<lambda>_. sender_example))"

lemmas app_example_defs = app_example_def app.defs guard.defs deaf_example_def cleaner_example_defs

lemma app_example_posed: "cleaner_posed default_cfg app_example"
  using guard_example_posed(2) by (simp add: cleaner_inv_defs app_example_def guard.defs)

lemma app_example_ready: "app_ready default_cfg app_example"
  using app_example_posed by (simp add: app_ready_def speeds_ok_def) (simp add: app_example_defs)

lemma fault_example_valid: "hcics_protocol_fault_is_valid fault_example"
  by code_simp

section \<open>Whole lives\<close>

lemma mission_between:
  fixes s :: "'a app_scheme"
  assumes "app_ready c s \<and> app_between s"
  shows "wp (hcics_mission_thread (app_others sched) n) (\<lambda>r t. r \<noteq> None \<longrightarrow> app_ready c t \<and> app_between t) s"
proof (cases "ap_queue s")
  case Nil
  then show ?thesis
    using assms by (simp add: hcics_mission_thread_def rt_mq_recv_def wp oret_def)
next
  case (Cons msg rest)
  then have q: "ap_queue s = [msg]" "ap_busy s" "ap_pending s = None" "hcics_protocol_fault_is_valid (msg_fault msg)"
    using assms by (auto simp: app_between_def split: if_splits)
  let ?s = "s\<lparr>trace := Mq_Recv # trace s, ap_queue := []\<rparr>"
  have "app_ready c ?s \<and> app_running (trace ?s) ?s"
    using assms q by (simp add: mission_defs)
  from mission_ends [OF this q(4)]
  have "wp (hcics_run_mission (app_others sched) n msg) (\<lambda>r t. r \<noteq> None \<longrightarrow> app_ready c t \<and> app_between t) ?s"
    by (rule wp_conseq) (auto simp: ended_def app_between_def)
  then have "wp (obind (hcics_run_mission (app_others sched) n msg) (\<lambda>_. oret ()))
      (\<lambda>r t. r \<noteq> None \<longrightarrow> app_ready c t \<and> app_between t) ?s"
    by (intro vc) (auto elim!: wp_conseq simp: oret_def wp split: option.split)
  moreover have "app_ready c (s\<lparr>trace := Mq_Recv # trace s\<rparr>) \<and> app_between (s\<lparr>trace := Mq_Recv # trace s\<rparr>)"
    using assms by (simp add: app_between_def)
  ultimately show ?thesis
    using assms q by (cases "msg_type msg") (simp add: hcics_mission_thread_def rt_mq_recv_def wp oret_def)
qed

text \<open>
  C4: One mission at a time. Whatever the threads do and in whatever order, there is at most one
  request: while none is accepted the queue is empty, and an accepted one is valid, alone in the
  queue and finds no pending report. So the mission thread never takes a message it refuses, which
  would leave the application busy for good.
\<close>

theorem app_one_mission:
  assumes "app_steps s t" and "app_ready c s" and "app_between s"
  shows "app_ready c t \<and> app_between t"
  using assms
proof (induction rule: app_steps.induct)
  case (app_other s t sched r u)
  then show ?case
    using preservesD [OF between.pres_others, of c t sched] by simp
next
  case (app_mission s t sched n r u)
  then show ?case
    using mission_between [of c t sched n] by (simp add: wp_def)
qed simp

theorem app_one_mission_witness:
  "let s = app_example\<lparr>ap_queue := [request_for fault_example None]\<rparr>
   in app_between (snd (run_state (app_others (\<lambda>_. [Ap_Time 5, Ap_Control])) s))"
proof -
  let ?s = "app_example\<lparr>ap_queue := [request_for fault_example None]\<rparr>"
  let ?t = "snd (run_state (app_others (\<lambda>_. [Ap_Time 5, Ap_Control])) ?s)"
  have "app_steps ?s ?t"
    by (rule app_other [OF app_start]) (rule prod.collapse [symmetric])
  moreover have "app_ready default_cfg ?s" "app_between ?s"
    using app_example_ready fault_example_valid
    by (simp_all add: app_between_def request_for_def) (simp_all add: app_example_defs)
  ultimately show ?thesis
    unfolding Let_def by (blast dest: app_one_mission)
qed

text \<open>
  C1: Every accepted fault is answered. When a mission ends, whether it succeeded or failed at any
  point, and whatever the other threads did meanwhile, the application is free for the next fault,
  and the sender has been sent the report, in full, or the report is stored until it can be sent;
  it names the fault, and says DONE exactly when the mission succeeded.
\<close>

theorem app_mission_reported:
  fixes s :: "'a app_scheme"
  assumes "app_ready c s" and "ap_busy s" and "ap_queue s = []" and "ap_pending s = None"
    and "hcics_protocol_fault_is_valid (msg_fault msg)"
  shows "wp (hcics_run_mission (app_others sched) n msg) (\<lambda>q t. \<forall>result. q = Some result \<longrightarrow>
    \<not> ap_busy t \<and> ap_queue t = [] \<and>
    delivered (trace s) (if result = RT_EOK then HCICS_REMOTE_DONE else HCICS_REMOTE_ERROR)
      (fault_id (msg_fault msg)) (msg_peer msg) t) s"
  by (rule wp_conseq [OF mission_ends [of c s msg sched n]]) (use assms in \<open>auto simp: ended_def mission_defs\<close>)

theorem app_mission_reported_witness:
  "wp (hcics_run_mission (app_others (\<lambda>_. [Ap_Control])) 9 (request_for fault_example (Some sender_example)))
     (\<lambda>q t. q = Some RT_EOK \<longrightarrow> ap_pending t = Some (HCICS_REMOTE_DONE, 6, sender_example) \<or>
        sent_since [Pin_Write HCICS_CLEANER_RELAY_PIN PIN_HIGH] HCICS_REMOTE_DONE 6 sender_example t) app_example"
proof (rule wp_conseq [OF app_mission_reported [OF app_example_ready]])
  show "ap_busy app_example" "ap_queue app_example = []" "ap_pending app_example = None"
    by (simp_all add: app_example_defs)
  show "hcics_protocol_fault_is_valid (msg_fault (request_for fault_example (Some sender_example)))"
    by (simp add: request_for_def fault_example_valid)
qed (auto simp: delivered_def request_for_def fault_example_def app_example_defs)

end
