(* ===== verification/HcicsAppRuns.thy ===== *)
theory HcicsAppRuns
  imports HcicsAppMissions
begin

text \<open>
  Aborting and stopping: an aborted mission fails, a stop command stops every module, the vehicle stands
  still after it whatever the threads do, and every packet of the network is handled.
\<close>

section \<open>Aborting\<close>

lemma motion_more_enc [simp]: "motion.more (enc_update w f s) = motion.more s"
  by (cases w) simp_all

interpretation motion_frame: motion_client "\<lambda>s. speeds_ok s \<and> motion.more s = v" 250 for v
  by unfold_locales (auto simp: speeds_ok_def)

text \<open>The motor callback of the application leaves the tracker alone, so the tracker's theorems apply to it.\<close>

interpretation motion_rest: motion_keeps "\<lambda>s. motion.more s = v" 250 for v
  by unfold_locales auto

lemma same_view: "motion.more t = motion.more s \<Longrightarrow> track_view t = track_view s"
  for s t :: "'a track_scheme"
  by (cases s; cases t; simp add: track_view_def)

interpretation app_motor: track_motor hcics_track_set_motor
proof
  fix l r and s :: "'a app_scheme"
  have "wp (hcics_track_set_motor l r) (\<lambda>_ t. track_view t = track_view s) s"
    unfolding hcics_track_set_motor_def hcics_motion_get_snapshot_def hcics_latch_motion_fault_def
    by (intro vc vc_preserves [OF motion_rest.pres_set_target [of "motion.more s"]])
      (auto dest: same_view simp: track_view_def)
  then show "track_view (snd (run_state (hcics_track_set_motor l r) s)) = track_view s"
    by (simp add: wp_run)
qed

interpretation ready: app_view "\<lambda>_. True"
  by unfold_locales simp_all

interpretation aborted: app_view ap_abort
  by unfold_locales simp_all

lemma same_abort:
  fixes s t :: "'a app_scheme"
  shows "motion.more t = motion.more s \<Longrightarrow> ap_abort t = ap_abort s"
  by (cases s; cases t; simp)

text \<open>Every part of a mission that succeeds has looked at the flag since anything could set it.\<close>

lemma no_abort_direct:
  fixes s :: "'a app_scheme"
  assumes "app_ready c s" "\<not> ap_abort s" "\<And>t. \<not> ap_abort t \<Longrightarrow> Q t"
  shows "wp (hcics_motion_set_target_direct l r) (\<lambda>_. Q) s"
  by (rule vc_preserves [OF motion_frame.pres_set_direct [of "motion.more s"]])
    (use assms same_abort in \<open>auto simp: app_ready_def\<close>)

lemma vc_finished:
  assumes "\<And>b cs. list_all quiet_call cs \<Longrightarrow> Q b (s\<lparr>trace := cs @ trace s\<rparr>)"
  shows "wp hcics_track_is_finished Q s"
  using assms [of "[]"] assms [of "[Mutex_Release ''htrk'', Mutex_Take ''htrk'']"]
  by (simp add: hcics_track_is_finished_def wp)

lemma no_abort_follow:
  fixes s :: "'a app_scheme"
  shows "app_ready c s \<Longrightarrow>
    wp (app_follow_loop (app_others sched) start n) (\<lambda>r t. r = Some RT_EOK \<longrightarrow> \<not> ap_abort t) s"
proof (induction n arbitrary: s)
  case (Suc n)
  show ?case
    unfolding app_follow_loop.simps
    apply (intro vc vc_preserves [OF ready.sys.pres_halt [of c]] vc_finished no_abort_direct
      vc_preserves [OF ready.sys.pres_status(2) [of c]] vc_preserves [OF ready.sys.pres_recent [of c]]
      vc_preserves [OF ready.sys.pres_sync(3) [of c]] Suc.IH)
    apply (use Suc.prems in auto)
    done
qed (simp add: wp)



section \<open>Standing still\<close>

text \<open>The calls that do not drive a wheel.\<close>

fun motor_still :: "hw_call \<Rightarrow> bool" where
  "motor_still (Pwm_Set name _ _ pulse) \<longleftrightarrow> (name = HCICS_MOTION_PWM_DEVICE_NAME \<longrightarrow> pulse = 0)"
| "motor_still (Pin_Write p v) \<longleftrightarrow> (p \<in> motion_pins \<longrightarrow> v = PIN_LOW)"
| "motor_still (Motor_Output l r) \<longleftrightarrow> l = 0 \<and> r = 0"
| "motor_still _ \<longleftrightarrow> True"

text \<open>The cleaner is wired to other pins and another PWM device than the motors.\<close>

definition wired_apart :: "hcics_cleaner_config \<Rightarrow> 'a app_scheme \<Rightarrow> bool" where
  "wired_apart c s \<longleftrightarrow> cleaner_pwm_name c \<noteq> HCICS_MOTION_PWM_DEVICE_NAME \<and>
     cfg_relay_pin c \<notin> motion_pins \<and> ax_tx_pin s \<notin> motion_pins"

definition standing :: "hcics_cleaner_config \<Rightarrow> hw_call list \<Rightarrow> 'a app_scheme \<Rightarrow> bool" where
  "standing c tr0 s \<longleftrightarrow> cleaner_posed c s \<and> wired_apart c s \<and> mo_emergency_stop s \<and>
     extends motor_still tr0 (trace s)"

lemma own_still: "own_call c p k \<Longrightarrow> p \<notin> motion_pins \<Longrightarrow> cleaner_pwm_name c \<noteq> HCICS_MOTION_PWM_DEVICE_NAME \<Longrightarrow>
    motor_still k"
  by (cases k) auto

lemma motion_still: "motion_call 0 k \<Longrightarrow> motor_still k"
  using unsigned_eq_0_iff uint_ge_0 by (cases k) (auto intro: antisym)

lemma quiet_still: "quiet_call k \<Longrightarrow> motor_still k"
  by (cases k) simp_all

lemma standing_step:
  "standing c tr0 s \<Longrightarrow> cleaner_posed c t \<Longrightarrow> ax_tx_pin t = ax_tx_pin s \<Longrightarrow>
     mo_emergency_stop s \<longrightarrow> mo_emergency_stop t \<Longrightarrow> trace t = cs @ trace s \<Longrightarrow> list_all motor_still cs \<Longrightarrow>
     standing c tr0 t"
  by (auto simp: standing_def wired_apart_def intro: extends_append)

lemmas standing_none = standing_step [where cs = "[]", simplified]
lemmas standing_one = standing_step [where cs = "[k]" for k, simplified]

lemmas standing_simps = standing_def wired_apart_def cleaner_inv_defs

lemma app_enc_stand [simp]:
  fixes s :: "'a app_scheme"
  shows "ax_tx_pin (enc_update w f s) = ax_tx_pin s"
  by (cases w) simp_all

interpretation stand: app_mission "standing c tr0" 0 c for c tr0
proof (unfold_locales, goal_cases)
  case (3 k s)
  then show ?case
    by - (rule standing_one [of c tr0 s], auto simp: standing_simps intro: motion_still)
next
  case (6 s w f)
  then show ?case
    by - (rule standing_none [of c tr0 s], simp_all, simp add: standing_def)
next
  case (7 k s)
  then show ?case
    by - (rule standing_one [of c tr0 s], auto simp: standing_simps intro: motion_still device_call_motion)
next
  case (8 s t)
  note same = same_motion [OF 8(2,3)]
  show ?case
    by (rule standing_none [OF 8(1)]) (use same 8 in \<open>auto simp only: standing_def\<close>)
next
  case (12 s cs)
  then show ?case
    by - (rule standing_step [of c tr0 s], auto simp: standing_simps list_all_iff intro: own_still)
next
  case (26 s t)
  note same = same_guard [OF 26(2,3)]
  show ?case
    by (rule standing_none [OF 26(1)]) (use same 26 in \<open>auto simp only: standing_def\<close>)
next
  case (27 s t)
  note same = same_track [OF 27(2,3)]
  show ?case
    by (rule standing_none [OF 27(1)]) (use same 27 in \<open>auto simp only: standing_def\<close>)
next
  case (31 s t)
  note same = same_track [OF 31(2,3)]
  show ?case
    by (rule standing_none [OF 31(1)]) (use same 31 in \<open>auto simp only: standing_def\<close>)
next
  case (28 s t)
  note same = same_app [OF 28(2)]
  show ?case
    by (rule standing_none [OF 28(1)]) (use same 28 in \<open>auto simp only: standing_def\<close>)
next
  case (29 s cmd param peer cs)
  then show ?case
    by - (rule standing_step [of c tr0 s], auto simp: standing_simps list_all_iff intro: quiet_still)
next
  case (30 s cs fault peer)
  then show ?case
    by - (rule standing_step [of c tr0 s], auto simp: standing_simps list_all_iff intro: quiet_still)
qed (((rule standing_none, assumption); (simp add: standing_simps; fail)) |
     ((rule standing_one, assumption); (simp add: standing_simps; fail)) |
     (rule preserves_ret) | (simp add: standing_simps; fail))+

text \<open>The calls of the motors leave the relay alone, when the wiring is apart.\<close>

lemma relay_motion: "motion_call m k \<Longrightarrow> pin \<notin> motion_pins \<Longrightarrow> write_to pin k = None"
  by (cases k) auto

definition stopped_app :: "hcics_cleaner_config \<Rightarrow> 'a app_scheme \<Rightarrow> bool" where
  "stopped_app c s \<longleftrightarrow> ap_abort s \<and> \<not> tr_running s \<and> cl_stop_requested s \<and>
     cl_state s = HCICS_CLEANER_STATE_STOPPED \<and> relay_idle c s \<and> cfg_relay_pin c \<notin> motion_pins \<and> speeds_ok s"

lemma same_stopped:
  fixes s t :: "'a app_scheme"
  assumes "encoder.truncate t = encoder.truncate s" "motion.more t = motion.more s" "speeds_ok s \<longrightarrow> speeds_ok t"
  shows "stopped_app c s \<Longrightarrow> stopped_app c t"
  using assms by (cases s; cases t; simp add: encoder.defs stopped_app_def cleaner_inv_defs speeds_ok_def)

lemma stopped_enc [simp]:
  fixes s :: "'a app_scheme"
  shows "stopped_app c (enc_update w f s) = stopped_app c s"
  by (cases w) (simp_all add: stopped_app_def cleaner_inv_defs speeds_ok_def)

interpretation halted_drive: motion_client "stopped_app c" 250 for c
proof (unfold_locales, goal_cases)
  case (3 k s)
  then show ?case
    by (simp add: stopped_app_def cleaner_inv_defs speeds_ok_def relay_motion)
next
  case (7 k s)
  then show ?case
    using relay_motion [OF device_call_motion, of k "cfg_relay_pin c"]
    by (simp add: stopped_app_def cleaner_inv_defs speeds_ok_def)
next
  case (8 s t)
  then show ?case
    using same_stopped by blast
next
  case (6 s w f)
  then show ?case
    by simp
qed (simp_all add: stopped_app_def cleaner_inv_defs speeds_ok_def)

lemma safe_outputs_stopped:
  "preserves (\<lambda>t :: 'a app_scheme. ap_abort t \<and> \<not> tr_running t \<and> cl_stop_requested t \<and>
       cl_state t = HCICS_CLEANER_STATE_STOPPED \<and> speeds_ok t) (hcics_cleaner_safe_outputs (ret ()))"
  "preserves (\<lambda>t :: 'a app_scheme. ap_abort t \<and> \<not> tr_running t \<and> cl_stop_requested t \<and>
       cl_state t = HCICS_CLEANER_STATE_STOPPED \<and> speeds_ok t) hcics_axis_stop"
proof -
  show axis: "preserves (\<lambda>t :: 'a app_scheme. ap_abort t \<and> \<not> tr_running t \<and> cl_stop_requested t \<and>
       cl_state t = HCICS_CLEANER_STATE_STOPPED \<and> speeds_ok t) hcics_axis_stop"
    by (intro preservesI vc_axis) (simp add: speeds_ok_def)
  show "preserves (\<lambda>t :: 'a app_scheme. ap_abort t \<and> \<not> tr_running t \<and> cl_stop_requested t \<and>
       cl_state t = HCICS_CLEANER_STATE_STOPPED \<and> speeds_ok t) (hcics_cleaner_safe_outputs (ret ()))"
    unfolding hcics_cleaner_safe_outputs_def hcics_cleaner_relay_def hcics_cleaner_apply_pose_def
      cleaner_take_def cleaner_release_def Let_def
    by (intro pres axis preserves_modify preserves_hw_do preserves_hw_out) (simp_all add: speeds_ok_def)
qed

lemma vc_cleaner_stopped:
  fixes s :: "'a app_scheme"
  assumes "app_ready c s" "ap_abort s" "\<not> tr_running s" "cfg_relay_pin c \<notin> motion_pins"
    and "\<And>t. stopped_app c t \<Longrightarrow> Q () t"
  shows "wp (hcics_cleaner_emergency_stop (ret ())) Q s"
proof -
  let ?F = "\<lambda>t :: 'a app_scheme. ap_abort t \<and> \<not> tr_running t \<and> cl_stop_requested t \<and>
    cl_state t = HCICS_CLEANER_STATE_STOPPED \<and> speeds_ok t"
  have safe: "wp (hcics_cleaner_safe_outputs (ret ())) (\<lambda>_ t. ?F t \<and> relay_idle c t) u"
    if "?F u" "cleaner_posed c u" for u :: "'a app_scheme"
    using alone.safe_outputs_idle [OF that(2)] vc_preserves [OF safe_outputs_stopped(1) that(1), of "\<lambda>_. ?F"]
    by (simp only: wp_conj simp_thms)
  have axis: "wp hcics_axis_stop (\<lambda>_ t. ?F t \<and> relay_idle c t) u" if "?F u \<and> relay_idle c u" for u :: "'a app_scheme"
    using vc_preserves [OF alone.idle.pres_axis(1) [of c], of u "\<lambda>_. relay_idle c"]
      vc_preserves [OF safe_outputs_stopped(2), of u "\<lambda>_. ?F"] that
    by (simp only: wp_conj simp_thms)
  show ?thesis
    unfolding hcics_cleaner_emergency_stop_def hcics_axis_emergency_stop_def cleaner_take_def cleaner_release_def
    by (intro vc alone.posed.vc_ensure_init [of c] wp_conseq [OF safe] wp_conseq [OF axis] assms(5))
      (use assms(1-4) in \<open>auto simp: view_simps stopped_app_def\<close>)
qed

lemma vc_track_stopped:
  fixes s :: "'a app_scheme"
  assumes "app_ready c s \<and> ap_abort s" "tr_initialized s"
    and "\<And>t. app_ready c t \<Longrightarrow> ap_abort t \<Longrightarrow> \<not> tr_running t \<Longrightarrow> Q () t"
  shows "wp (hcics_track_stop hcics_track_set_motor) Q s"
proof -
  have "wp (hcics_track_stop hcics_track_set_motor) (\<lambda>_ t. \<not> tr_running t) s"
    unfolding hcics_track_stop_def
    by (intro vc app_motor.vc_motion_set) (use assms(2) in \<open>auto simp: track_view_def\<close>)
  moreover have "wp (hcics_track_stop hcics_track_set_motor) (\<lambda>_ t. app_ready c t \<and> ap_abort t) s"
    by (rule vc_preserves [OF aborted.motor.pres_stop assms(1)])
  ultimately show ?thesis
    using assms(3) by (simp add: wp_run)
qed

lemma vc_motion_stopped:
  fixes s :: "'a app_scheme"
  assumes "stopped_app c s" "mo_initialized s" "\<And>t. stopped_app c t \<Longrightarrow> mo_emergency_stop t \<Longrightarrow> Q () t"
  shows "wp (hcics_motion_emergency_stop reason) Q s"
proof -
  have "wp (hcics_motion_emergency_stop reason) (\<lambda>_ t. mo_emergency_stop t) s"
    unfolding hcics_motion_emergency_stop_def hcics_motion_ensure_init_def
    by (intro vc vc_preserves [OF hold.pres_output [of 0 0 "trace s"]]) (use assms(2) in \<open>auto simp: held_def\<close>)
  moreover have "wp (hcics_motion_emergency_stop reason) (\<lambda>_. stopped_app c) s"
    by (rule vc_preserves [OF halted_drive.pres_estop assms(1)])
  ultimately show ?thesis
    using assms(3) by (simp add: wp_run)
qed

lemma vc_cleaner_stops:
  fixes s :: "'a app_scheme"
  assumes "app_ready c s" "ap_abort s" "\<not> tr_running s" "cfg_relay_pin c \<notin> motion_pins"
    and "\<And>t. stopped_app c t \<Longrightarrow> app_ready c t \<Longrightarrow> Q () t"
  shows "wp (hcics_cleaner_emergency_stop (ret ())) Q s"
proof -
  have "wp (hcics_cleaner_emergency_stop (ret ())) (\<lambda>_. stopped_app c) s"
    by (rule vc_cleaner_stopped [OF assms(1-4)])
  moreover have "wp (hcics_cleaner_emergency_stop (ret ())) (\<lambda>_ t. app_ready c t \<and> True) s"
    by (rule vc_preserves [OF ready.clean.pres_interface(3)]) (use assms(1) in auto)
  ultimately show ?thesis
    using assms(5) by (simp add: wp_run)
qed

text \<open>
  C7: A stop command stops everything. It sets the abort flag, ends the path, tells the cleaner to
  stop, with the pump off, by its flag and by the last level written to its relay, and latches the
  emergency stop of the drive.
\<close>

theorem app_stop_outcome:
  fixes s :: "'a app_scheme"
  assumes "app_ready c s" and "tr_initialized s" and "cfg_relay_pin c \<notin> motion_pins"
  shows "wp (hcics_app_stop (ret ()) reason) (\<lambda>_ t.
    ap_abort t \<and> \<not> tr_running t \<and> mo_emergency_stop t \<and>
    cl_stop_requested t \<and> cl_state t = HCICS_CLEANER_STATE_STOPPED \<and>
    \<not> cl_relay_on t \<and> pin_state (cfg_relay_pin c) (trace t) = Some (cfg_relay_off_level c)) s"
  unfolding hcics_app_stop_def
  by (intro vc vc_track_stopped [of c] vc_cleaner_stops [of c] vc_motion_stopped [of c])
    (use assms in \<open>auto simp: view_simps stopped_app_def\<close>)

lemma app_wiring:
  "cfg_relay_pin default_cfg \<notin> motion_pins" "wired_apart default_cfg app_example"
  by (simp_all add: wired_apart_def app_example_defs hcics_cleaner_get_default_config_def
      HCICS_CLEANER_PWM_DEVICE_NAME_def) code_simp+

theorem app_stop_outcome_witness:
  "wp (hcics_app_stop (ret ()) 0xDD) (\<lambda>_ t. mo_emergency_stop t \<and> \<not> cl_relay_on t) app_example"
  by (rule wp_conseq [OF app_stop_outcome [OF app_example_ready _ app_wiring(1)]])
    (simp_all add: app_example_defs)

lemma standing_core [simp]:
  "standing c tr0 (s\<lparr>ap_busy := b\<rparr>) = standing c tr0 s" "standing c tr0 (s\<lparr>ap_pending := x\<rparr>) = standing c tr0 s"
  by (simp_all add: standing_simps)

lemma stand_report:
  "preserves (standing c tr0) (hcics_report_esp_final (app_others sched) cmd param peer)"
  "preserves (standing c tr0) (hcics_release_mission (app_others sched))"
  unfolding hcics_report_esp_final_def hcics_release_mission_def hcics_store_pending_report_locked_def
  by (intro pres stand.sys.pres_sync stand.pres_send preserves_modify; simp)+

lemma stand_mission:
  "preserves (standing c tr0) (hcics_mission_failed (app_others sched) n fault peer result)"
  "preserves (standing c tr0) (hcics_mission_done (app_others sched) n fault peer)"
  unfolding hcics_mission_failed_def hcics_mission_done_def
  by (intro pres stand.sys.pres_safe_stop stand.sys.pres_set_state stand_report)+

definition stands_since :: "'a app_scheme \<Rightarrow> 'a app_scheme \<Rightarrow> bool" where
  "stands_since s t \<longleftrightarrow> mo_emergency_stop t \<and> extends motor_still (trace s) (trace t)"

text \<open>
  C6: The vehicle stands still after a stop. Once the emergency stop is latched, no thread, in any
  interleaving, and no part of a running mission up to its report unlatches it or drives a wheel: the
  tracker goes on ticking and the mission thread on giving commands, but every PWM pulse for a motor
  is 0, every motor pin goes low and a motor callback gets 0.
\<close>

theorem app_stop_holds:
  fixes s :: "'a app_scheme"
  assumes "cleaner_posed c s" and "wired_apart c s" and "mo_emergency_stop s"
  shows "wp (app_others sched) (\<lambda>_. stands_since s) s \<and>
    wp (hcics_mission_drive (app_others sched) n fault) (\<lambda>_. stands_since s) s \<and>
    wp (hcics_mission_failed (app_others sched) n fault peer result) (\<lambda>_. stands_since s) s \<and>
    wp (hcics_mission_done (app_others sched) n fault peer) (\<lambda>_. stands_since s) s"
proof -
  have s: "standing c (trace s) s"
    using assms by (simp add: standing_def)
  have "standing c (trace s) t \<Longrightarrow> stands_since s t" for t
    by (simp add: standing_def stands_since_def)
  then show ?thesis
    by (intro conjI vc_preserves [OF stand.pres_others s] vc_preserves [OF stand.sys.pres_drive s]
        vc_preserves [OF stand_mission(1) s] vc_preserves [OF stand_mission(2) s])
qed

theorem app_stop_holds_witness:
  "wp (hcics_mission_drive (app_others (\<lambda>_. [Ap_Control, Ap_Encoder Left_Wheel])) 99 fault_example)
     (\<lambda>_ t. mo_emergency_stop t) (app_example\<lparr>mo_emergency_stop := True\<rparr>)"
proof (rule wp_conseq [OF app_stop_holds [THEN conjunct2, THEN conjunct1]])
  show "cleaner_posed default_cfg (app_example\<lparr>mo_emergency_stop := True\<rparr>)"
    "wired_apart default_cfg (app_example\<lparr>mo_emergency_stop := True\<rparr>)"
    using app_example_posed app_wiring(2) by (simp_all add: wired_apart_def cleaner_inv_defs)
qed (simp_all add: stands_since_def)

section \<open>Packets\<close>

text \<open>
  A packet that is a valid fault for this vehicle; the request was taken; it was refused, with an
  ERROR report to the sender when the network is there.
\<close>

definition fault_command :: "string \<Rightarrow> hcics_fault \<Rightarrow> bool" where
  "fault_command text f \<longleftrightarrow>
     is_fault_text HCICS_UDP_TOKEN f text \<and> hcics_protocol_fault_is_valid f \<and> fault_source f = ''udp''"

definition taken :: "hcics_fault \<Rightarrow> sockaddr_in \<Rightarrow> 'a app_scheme \<Rightarrow> 'a app_scheme \<Rightarrow> bool" where
  "taken f peer s t \<longleftrightarrow> ap_busy t \<and> ap_active_fault t = f \<and>
     ap_queue t = ap_queue s @ [request_for f (Some peer)] \<and> ap_pending t = None"

definition refused :: "hcics_fault \<Rightarrow> sockaddr_in \<Rightarrow> 'a app_scheme \<Rightarrow> 'a app_scheme \<Rightarrow> bool" where
  "refused f peer s t \<longleftrightarrow> app_core t = app_core s \<and> (\<exists>cs. trace t = cs @ trace s \<and>
     (ap_udp_sock s \<ge> 0 \<and> (\<forall>tr. answer s (Wlan_Is_Ready # tr) \<noteq> 0) \<longrightarrow>
      report_call (ap_udp_sock s) HCICS_REMOTE_ERROR (fault_id f) peer \<in> set cs))"

lemma vc_refuse:
  assumes "app_core u = app_core s" "trace u = ds @ trace s" "ap_udp_sock u = ap_udp_sock s" "answer u = answer s"
    and "\<And>t. refused f peer s t \<Longrightarrow> Q () t"
  shows "wp (hcics_report_esp_reject (ret ()) HCICS_REMOTE_ERROR (fault_id f) (Some peer)) Q u"
proof -
  let ?k = "report_call (ap_udp_sock s) HCICS_REMOTE_ERROR (fault_id f) peer"
  have refused: "Q () (u\<lparr>trace := cs @ trace u\<rparr>)"
    if "ap_udp_sock s \<ge> 0 \<and> (\<forall>tr. answer s (Wlan_Is_Ready # tr) \<noteq> 0) \<longrightarrow> ?k \<in> set cs" for cs
    by (rule assms(5)) (use that assms(1-4) in \<open>auto simp: refused_def app_core_def intro!: exI [of _ "cs @ ds"]\<close>)
  let ?t = "Mutex_Take ''hcics_udp''" and ?r = "Mutex_Release ''hcics_udp''"
  show ?thesis
    using refused [of "[?r, ?t]"] refused [of "[Wlan_Is_Ready, ?r, ?t]"] refused [of "[?k, Wlan_Is_Ready, ?r, ?t]"]
      report_length [of HCICS_REMOTE_ERROR "fault_id f"] assms(3,4)
    by (auto simp: hcics_report_esp_reject_def hcics_udp_send_report_def hcics_wifi_link_ready_def
        app_take_def app_release_def report_call_def wp Let_def)
qed

lemma udp_token: "hcics_token_is_usable (Some HCICS_UDP_TOKEN)" "NUL \<notin> set HCICS_UDP_TOKEN"
  by code_simp+

lemma fault_command_parse:
  "NUL \<notin> set text \<Longrightarrow>
     hcics_protocol_parse_fault_text (Some text) (Some HCICS_UDP_TOKEN) f0 = (True, f) \<longleftrightarrow> fault_command text f"
  by (simp add: fault_command_def parse_fault_text_iff udp_token)

text \<open>
  C9: Every packet is handled. A valid fault command is taken, so that the one request in the queue
  names the fault and its sender, or refused, always so when a mission is on or a report still
  pending; then nothing changes and the sender is told, over the current socket. A stop command
  stops the application with the reason \<open>0xDD\<close>. Any other packet changes nothing.
\<close>

theorem app_packet_outcome:
  fixes s :: "'a app_scheme"
  assumes "NUL \<notin> set text"
  shows "(fault_command text f \<longrightarrow> wp (app_udp_text (ret ()) text peer f0) (\<lambda>_ t.
      refused f peer s t \<or> taken f peer s t \<and> ap_mq s \<and> \<not> ap_busy s \<and> ap_pending s = None) s) \<and>
    ((\<nexists>f. fault_command text f) \<longrightarrow> run_state (app_udp_text (ret ()) text peer f0) s =
      (if hcics_protocol_parse_stop_text (Some text) (Some HCICS_UDP_TOKEN)
       then run_state (hcics_app_stop (ret ()) 0xDD) s else ((), s)))"
proof (intro conjI impI)
  assume "fault_command text f"
  then have f: "hcics_protocol_parse_fault_text (Some text) (Some HCICS_UDP_TOKEN) f0 = (True, f)"
    by (simp add: fault_command_parse assms)
  show "wp (app_udp_text (ret ()) text peer f0) (\<lambda>_ t.
      refused f peer s t \<or> taken f peer s t \<and> ap_mq s \<and> \<not> ap_busy s \<and> ap_pending s = None) s"
    unfolding app_udp_text_def f Let_def prod.case if_True hcics_pending_report_active_def app_take_def app_release_def
    by (intro vc vc_enqueue; (rule vc_refuse [where s = s])?)
      (auto simp: app_core_def taken_def rt_err_defs)
next
  assume none: "\<nexists>f. fault_command text f"
  obtain b f' where parse: "hcics_protocol_parse_fault_text (Some text) (Some HCICS_UDP_TOKEN) f0 = (b, f')"
    by fastforce
  with none fault_command_parse [OF assms, of f0 f'] have "b = False"
    by (cases b) auto
  with parse show "run_state (app_udp_text (ret ()) text peer f0) s =
      (if hcics_protocol_parse_stop_text (Some text) (Some HCICS_UDP_TOKEN)
       then run_state (hcics_app_stop (ret ()) 0xDD) s else ((), s))"
    by (simp add: app_udp_text_def)
qed

lemma fault_example_command: "fault_command (fault_text HCICS_UDP_TOKEN fault_example) fault_example"
proof -
  have "hcics_protocol_parse_fault_text (Some (fault_text HCICS_UDP_TOKEN fault_example)) (Some HCICS_UDP_TOKEN)
      hcics_fault_defaults = (True, fault_example)"
    by code_simp
  moreover have "NUL \<notin> set (fault_text HCICS_UDP_TOKEN fault_example)"
    by code_simp
  ultimately show ?thesis
    using fault_command_parse by blast
qed

theorem app_packet_outcome_witness:
  "wp (app_udp_text (ret ()) (fault_text HCICS_UDP_TOKEN fault_example) sender_example fault_example)
     (\<lambda>_ t. refused fault_example sender_example app_example t) app_example"
proof -
  have "NUL \<notin> set (fault_text HCICS_UDP_TOKEN fault_example)"
    by code_simp
  from app_packet_outcome [OF this, THEN conjunct1, THEN mp, OF fault_example_command]
  show ?thesis
    by (rule wp_conseq) (simp add: app_example_defs)
qed

end
