(* ===== verification/HcicsAppTime.thy ===== *)
theory HcicsAppTime
  imports HcicsAppRuns
begin

text \<open>
  Every mission ends. \<open>app_timed\<close> is the interface: an invariant across the modules, and other threads
  that do not keep the mission thread waiting for too long; then each of its waiting loops meets its
  deadline. It is interpreted on the threads with short turns, in any schedule.
\<close>

section \<open>Waiting in a mission\<close>

locale app_timed = app_plans env inv m c + env_timed env inv h
  for env :: "'a app_env" and inv and m and c and h

sublocale app_timed \<subseteq> waits: cleaner_waits env inv c h
  by unfold_locales

context app_timed begin

lemma lasts_call: "(\<And>p. own_call c p k) \<Longrightarrow> lasts inv 0 (hw_out k)"
  by (rule lasts_hw) (rule clean.inv_call)

lemma lasts_sync: "lasts inv h (app_take env lock)" "lasts inv 0 (app_release lock)"
  unfolding app_take_def app_release_def
  by (rule lasts_le, (rule lasts env_lasts lasts_call | (simp; fail))+)+

lemma lasts_recent: "lasts inv h (hcics_latest_track_recent env age)"
  unfolding hcics_latest_track_recent_def Let_def
  by (rule lasts_le, (rule lasts lasts_sync | (simp; fail))+)

lemma lasts_status: "lasts inv 0 hcics_track_is_finished" "lasts inv 0 hcics_track_status"
  unfolding hcics_track_is_finished_def hcics_track_status_def
  by (rule lasts_le, (rule lasts lasts_call | (simp; fail))+)+

lemma lasts_cleaner_status: "lasts inv h (hcics_cleaner_get_status env)"
proof -
  have "lasts inv 0 (cleaner_ensure_init env)"
    unfolding lasts_def by (intro allI impI clean.vc_ensure_init) simp_all
  then show ?thesis
    unfolding hcics_cleaner_get_status_def
    by (intro lasts_le [OF lasts_bind]) (rule lasts_le, (rule lasts waits.lasts_snapshot | (simp; fail))+)+
qed

lemmas vc_app_retry = vc_again [folded app_mdelay_def]
lemmas vc_app_doze = vc_sleep [folded app_mdelay_def]

lemma wait_camera_loop_returns:
  "due inv start timeout n s \<Longrightarrow>
     wp (app_wait_camera_loop env start timeout n) (\<lambda>r t. r \<noteq> None \<and> inv t) s"
proof (induction n arbitrary: s)
  case (Suc n)
  note step = vc lasts_recent [THEN vc_brief] vc_app_retry [OF Suc.prems] Suc.IH due_timely [OF Suc.prems, simplified]
  show ?case
    unfolding app_wait_camera_loop.simps
    by (assumption | rule step | (insert Suc.prems h_le, simp add: due_def timely_def HCICS_TRACK_POLL_MS_def; fail))+
qed (simp add: due_def)

lemma clean_loop_returns:
  "due inv start HCICS_CLEAN_TIMEOUT_MS n s \<Longrightarrow>
     wp (app_clean_loop env start n) (\<lambda>r t. r \<noteq> None \<and> inv t) s"
proof (induction n arbitrary: s)
  case (Suc n)
  note step = vc lasts_cleaner_status [THEN vc_brief] vc_app_retry [OF Suc.prems] Suc.IH due_timely [OF Suc.prems, simplified]
    vc_preserves [OF clean.pres_interface(3)]
  show ?case
    unfolding app_clean_loop.simps
    by (assumption | rule step | (insert Suc.prems h_le, simp add: due_def timely_def HCICS_CLEAN_POLL_MS_def; fail))+
qed (simp add: due_def)

text \<open>The drive reads the clock first and may wait for a lock before it looks at the deadline.\<close>

lemma follow_loop_returns:
  "due inv start HCICS_TRACK_NAV_TIMEOUT_MS n s \<Longrightarrow>
     wp (app_follow_loop env start n) (\<lambda>r t. r \<noteq> None \<and> inv t) s"
proof (induction n arbitrary: s)
  case (Suc n)
  let ?e = "unat (clock s - start)"
  note timely = due_timely [OF Suc.prems, simplified]
  have s: "inv s" "since start ?e ?e s" "?e \<le> 1000000000"
    using timely by (simp_all add: timely_def since_def)
  have again: "wp (app_mdelay env HCICS_TRACK_POLL_MS) Q t"
    if "inv t" "since start ?e (?e + h) t" "\<not> clock s - start \<ge> HCICS_TRACK_NAV_TIMEOUT_MS"
      "\<And>u. due inv start HCICS_TRACK_NAV_TIMEOUT_MS n u \<Longrightarrow> Q () u" for t Q
  proof (rule vc_app_doze [OF that(1,2)])
    note e = due_elapsed(3) [OF Suc.prems that(3) timely]
    show "?e + h \<le> 1000000000" "unat HCICS_TRACK_POLL_MS \<le> 1000"
      using e h_le by (simp_all add: HCICS_TRACK_POLL_MS_def)
    show "Q () u" if "inv u"
      "since start (?e + unat HCICS_TRACK_POLL_MS) (?e + h + unat HCICS_TRACK_POLL_MS + h) u" for u
      by (intro \<open>\<And>u. due inv start HCICS_TRACK_NAV_TIMEOUT_MS n u \<Longrightarrow> Q () u\<close>
          due_again [OF Suc.prems timely \<open>\<not> clock s - start \<ge> HCICS_TRACK_NAV_TIMEOUT_MS\<close> that(1)])
        (use that(2) e h_le in \<open>simp add: since_def HCICS_TRACK_POLL_MS_def\<close>)
  qed
  have look: "wp (if b then hcics_latest_track_recent env age else ret True) Q t"
    if "inv t" "since start ?e ?e t" "\<And>r u. inv u \<Longrightarrow> since start ?e (?e + h) u \<Longrightarrow> Q r u" for b age t Q
    by (intro vc vc_lasts [OF lasts_recent that(1,2)] that(3)) (use that s(3) h_le in \<open>auto simp: since_def\<close>)
  have status: "wp m Q t"
    if "lasts inv 0 m" "inv t" "since start ?e ?e t" "\<And>r u. inv u \<Longrightarrow> since start ?e ?e u \<Longrightarrow> Q r u"
    for m :: "('a app_scheme, 'x) state" and Q t
    by (rule vc_lasts [OF that(1-3)]) (use that(4) s(3) in simp_all)
  show ?case
    unfolding app_follow_loop.simps
    by (assumption | rule look status [OF lasts_status(1) s(1,2)] status [OF lasts_status(2)] vc
        vc_preserves [OF pres_halt] vc_preserves [OF drive.pres_set_direct] again Suc.IH | (simp add: s(1); fail))+
qed (simp add: due_def)

lemma returns_wait_camera: "6001 \<le> n \<Longrightarrow> returns inv (hcics_wait_track_camera env n HCICS_TRACK_WAIT_CAMERA_MS)"
  unfolding returns_def hcics_wait_track_camera_def
  by (intro allI impI vc wait_camera_loop_returns due_now) (simp_all add: HCICS_TRACK_WAIT_CAMERA_MS_def)

lemma returns_follow_loop: "6001 \<le> n \<Longrightarrow>
    returns inv (now_ms \<bind> (\<lambda>start. app_follow_loop env start n))"
  unfolding returns_def
  by (intro allI impI vc follow_loop_returns due_now) (simp_all add: HCICS_TRACK_NAV_TIMEOUT_MS_def)

lemma returns_clean_loop: "6001 \<le> n \<Longrightarrow>
    returns inv (now_ms \<bind> (\<lambda>start. app_clean_loop env start n))"
  unfolding returns_def
  by (intro allI impI vc clean_loop_returns due_now) (simp_all add: HCICS_CLEAN_TIMEOUT_MS_def)

lemma returns_follow: "6001 \<le> n \<Longrightarrow> returns inv (hcics_follow_track_path env n target)"
  unfolding hcics_follow_track_path_def
  by (intro returns_follow_loop returns returns_wait_camera pres_start_path)

lemma returns_drive: "6001 \<le> n \<Longrightarrow> returns inv (hcics_mission_drive env n fault)"
  unfolding hcics_mission_drive_def hcics_navigate_to_fault_def hcics_return_home_def hcics_clean_panel_def Let_def
  by (intro returns_clean_loop returns returns_follow waits.returns_reset pres_set_state pres_delay clean.pres_start)
    simp_all

lemma returns_safe_stop: "6001 \<le> n \<Longrightarrow> returns inv (hcics_safe_stop_outputs env n)"
  unfolding hcics_safe_stop_outputs_def
  by (intro returns motor.pres_stop waits.returns_reset drive.pres_set_direct) simp_all

end

section \<open>The control thread takes no time\<close>

lemma clock_enc [simp]: "clock (enc_update w f s) = clock s"
  by (cases w) simp_all

lemma same_clock: "encoder.truncate t = encoder.truncate s \<Longrightarrow> clock t = clock s"
  for s t :: "'a motion_scheme"
  by (cases s; cases t; simp add: encoder.defs)

lemma same_tracked: "motion.truncate t = motion.truncate s \<Longrightarrow> speeds_ok t = speeds_ok s \<and> clock t = clock s"
  for s t :: "'a track_scheme"
  by (cases s; cases t; simp add: motion.defs speeds_ok_def)

interpretation frozen: motion_client "\<lambda>s. speeds_ok s \<and> clock s = now" 250 for now
  by unfold_locales (auto simp: speeds_ok_def dest: same_clock)

interpretation frozen_motor: motor_guard hcics_track_set_motor "\<lambda>s :: 'a app_scheme. speeds_ok s \<and> clock s = now" 150 for now
proof (unfold_locales, goal_cases)
  case (1 l r)
  show ?case
    unfolding hcics_track_set_motor_def hcics_latch_motion_fault_def hcics_motion_get_snapshot_def
    by (intro pres frozen.pres_set_target preserves_modify) (auto simp: speeds_ok_def)
next
  case (2 s t)
  then show ?case
    using same_tracked by blast
qed (simp_all add: speeds_ok_def)

lemma lasts_frozen:
  assumes "preserves (app_ready c) m" "\<And>now. preserves (\<lambda>s :: 'a app_scheme. speeds_ok s \<and> clock s = now) m"
  shows "lasts (app_ready c) 0 (m :: ('a app_scheme, 'b) state)"
  unfolding lasts_def
proof (intro allI impI)
  fix s :: "'a app_scheme"
  assume s: "app_ready c s"
  show "wp m (\<lambda>_ t. app_ready c t \<and> unat (clock t - clock s) \<le> 0) s"
    using preservesD [OF assms(1) s] preservesD [OF assms(2) [of "clock s"], of s] s
    by (simp add: wp_run app_ready_def)
qed

text \<open>Nothing else runs meanwhile: a turn of another thread, up to the point where it sleeps.\<close>

lemma ready_true: "(\<lambda>s. app_ready c s \<and> True) = app_ready c"
  by simp

interpretation turn: app_plans "ret ()" "app_ready c" 250 c for c
  using ready.app_plans_axioms by (simp only: ready_true)

interpretation turn: app_timed "ret ()" "app_ready c" 250 c 0 for c
  by unfold_locales (simp_all add: lasts_ret view_simps)

lemma lasts_posed:
  assumes "preserves (app_ready c) m" "lasts (cleaner_posed c) d m"
  shows "lasts (app_ready c) d (m :: ('a app_scheme, 'b) state)"
  unfolding lasts_def
proof (intro allI impI)
  fix s :: "'a app_scheme"
  assume "app_ready c s"
  then show "wp m (\<lambda>_ t. app_ready c t \<and> unat (clock t - clock s) \<le> d) s"
    using assms preservesD [OF assms(1), of s] by (simp add: lasts_def wp_run app_ready_def)
qed

lemma lasts_control: "lasts (app_ready c) 5 (hcics_control_thread (ret ()) :: ('a app_scheme, unit) state)"
proof -
  have nap: "lasts (app_ready c) 5 (app_mdelay (ret ()) HCICS_CONTROL_PERIOD_MS :: ('a app_scheme, unit) state)"
    using turn.lasts_nap [of 5 c] by (simp add: app_mdelay_def HCICS_CONTROL_PERIOD_MS_def)
  have latch: "lasts (app_ready c) 0 (hcics_latch_motion_fault r :: ('a app_scheme, unit) state)" for r
    unfolding hcics_latch_motion_fault_def
    by (rule lasts_le, (rule lasts lasts_modify | (simp add: view_simps; fail))+)
  have tick: "lasts (app_ready c) 0 (hcics_track_tick hcics_track_set_motor now :: ('a app_scheme, unit) state)" for now
    by (intro lasts_frozen frozen_motor.pres_tick turn.motor.pres_tick)
  have update: "lasts (app_ready c) 0 (hcics_motion_update :: ('a app_scheme, rt_err) state)"
    unfolding hcics_motion_update_def
    by (intro lasts_frozen frozen.pres_service turn.drive.pres_service)
  have snapshot: "lasts (app_ready c) 0 (hcics_motion_get_snapshot :: ('a app_scheme, hcics_motion_snapshot) state)"
    unfolding hcics_motion_get_snapshot_def by (rule lasts_le, (rule lasts | simp)+)
  show ?thesis
    unfolding hcics_control_thread_def
    by (rule lasts_le, (rule lasts tick update snapshot latch nap | (simp; fail))+)
qed

lemma lasts_irq: "lasts (app_ready c) 0 (hcics_encoder_irq w :: ('a app_scheme, unit) state)"
  by (intro lasts_frozen frozen.dev.pres_irq turn.drive.dev.pres_irq)

lemma lasts_camera:
  "lasts (app_ready c) 0 (hcics_app_update_role_camera (ret ()) target mode :: ('a app_scheme, unit) state)"
proof -
  have clean: "lasts (app_ready c) 0 (hcics_cleaner_update_camera_target (ret ()) t :: ('a app_scheme, rt_err) state)" for t
    by (rule lasts_posed [OF turn.clean.pres_interface(1) lasts_interface(1)])
  have track: "lasts (app_ready c) 0 (hcics_track_update_camera t :: ('a app_scheme, unit) state)" for t
    unfolding hcics_track_update_camera_def
    by (rule lasts_le, (rule lasts turn.lasts_call lasts_modify | (simp add: view_simps; fail))+)
  show ?thesis
    unfolding hcics_app_update_role_camera_def hcics_app_update_camera_def hcics_forward_clean_camera_def
    by (rule lasts_le, (rule lasts turn.lasts_sync clean track lasts_modify | (simp add: view_simps; fail))+)
qed

lemma lasts_case_prod: "(\<And>x y. lasts I d (f x y)) \<Longrightarrow> lasts I d (case p of (x, y) \<Rightarrow> f x y)"
  by (cases p) simp

lemma lasts_rx: "(\<And>p. own_call c p k) \<Longrightarrow> lasts (app_ready c) 0 (hw_rx k :: ('a app_scheme, int \<times> u8 list) state)"
  "(\<And>p. own_call c p k) \<Longrightarrow> lasts (app_ready c) 0 (hw_do k :: ('a app_scheme, int) state)"
  by (simp_all add: lasts_def wp turn.clean.inv_call)

lemma lasts_uart:
  "lasts (app_ready c) 10 (hcics_camera_uart_loop (ret ()) uart mode parser :: ('a app_scheme, hcics_camera_parser option) state)"
proof -
  have byte: "lasts (app_ready c) 0 (app_read_byte d :: ('a app_scheme, int \<times> u8) state)" for d
    by (cases d) (simp_all, (rule lasts_le, (rule lasts lasts_rx lasts_case_prod | (simp; fail))+)+)
  have nap: "lasts (app_ready c) 10 (app_mdelay (ret ()) 10 :: ('a app_scheme, unit) state)"
    using turn.lasts_nap [of 10 c] by (simp add: app_mdelay_def)
  show ?thesis
    unfolding hcics_camera_uart_loop_def
    by (rule lasts_le, (rule lasts lasts_case_prod byte nap lasts_camera | (simp; fail))+)
qed

lemma lasts_stop: "lasts (app_ready c) 0 (hcics_app_stop (ret ()) reason :: ('a app_scheme, unit) state)"
proof -
  have track: "lasts (app_ready c) 0 (hcics_track_stop hcics_track_set_motor :: ('a app_scheme, unit) state)"
    by (intro lasts_frozen frozen_motor.pres_stop turn.motor.pres_stop)
  have clean: "lasts (app_ready c) 0 (hcics_cleaner_emergency_stop (ret ()) :: ('a app_scheme, unit) state)"
    by (rule lasts_posed [OF turn.clean.pres_interface(3) lasts_interface(4)])
  have drive: "lasts (app_ready c) 0 (hcics_motion_emergency_stop reason :: ('a app_scheme, unit) state)"
    by (intro lasts_frozen frozen.pres_estop turn.drive.pres_estop)
  show ?thesis
    unfolding hcics_app_stop_def
    by (rule lasts_le, (rule lasts track clean drive lasts_modify | (simp add: view_simps; fail))+)
qed

lemmas lasts_net = lasts lasts_case_prod lasts_rx lasts_modify turn.lasts_sync turn.lasts_call

lemma lasts_link: "lasts (app_ready c) 0 (hcics_wifi_link_ready :: ('a app_scheme, bool) state)"
  unfolding hcics_wifi_link_ready_def by (rule lasts_le, (rule lasts_net | (simp; fail))+)

lemma lasts_send: "lasts (app_ready c) 0 (hcics_udp_send_report sock cmd param peer :: ('a app_scheme, bool) state)"
  unfolding hcics_udp_send_report_def by (rule lasts_le, (rule lasts_net lasts_link | (simp; fail))+)

lemma lasts_flush: "lasts (app_ready c) 0 (hcics_flush_pending_report (ret ()) :: ('a app_scheme, unit) state)"
  unfolding hcics_flush_pending_report_def hcics_clear_pending_report_if_current_def
  by (rule lasts_le, (rule lasts_net lasts_link lasts_send |
        (simp add: view_simps split: option.split prod.split; fail))+)

lemma lasts_text: "lasts (app_ready c) 0 (app_udp_text (ret ()) text peer fault :: ('a app_scheme, unit) state)"
  unfolding app_udp_text_def hcics_pending_report_active_def hcics_report_esp_reject_def hcics_enqueue_fault_def
    hcics_reserve_mission_def hcics_release_mission_def rt_mq_send_def
  by (rule lasts_le, (rule lasts_net lasts_send lasts_stop | (simp add: view_simps; fail))+)

lemma lasts_packet: "lasts (app_ready c) 0 (app_udp_turn (ret ()) sock fault :: ('a app_scheme, bool) state)"
  unfolding app_udp_turn_def
  by (rule lasts_le, (rule lasts_net lasts_link lasts_flush lasts_text | (simp; fail))+)

text \<open>
  The threads whose turns are short: all but the worker of the cleaner, the guard, which wait for their
  hardware, and the opening of the socket, which waits for the network.
\<close>

fun quick_event :: "app_event \<Rightarrow> bool" where
  "quick_event (Ap_Guard _) \<longleftrightarrow> False"
| "quick_event (Ap_Cleaner _) \<longleftrightarrow> False"
| "quick_event (Ap_Udp_Open _) \<longleftrightarrow> False"
| "quick_event (Ap_Time ms) \<longleftrightarrow> ms \<le> 300"
| "quick_event _ \<longleftrightarrow> True"

lemma lasts_quick:
  assumes "quick_event e" shows "lasts (app_ready c) 300 (app_do e :: ('a app_scheme, unit) state)"
proof (cases e)
  case (Ap_Time ms)
  then show ?thesis
    using assms by (simp add: lasts_def wp view_simps word_le_nat_alt)
next
  case (Ap_Udp_Close sock)
  then show ?thesis
    by (simp add: app_set_sock_def)
      (rule lasts_le, (rule lasts_net | (simp add: view_simps; fail))+)
qed (use assms in \<open>simp_all add: hcics_track_camera_uart_thread_def hcics_clean_camera_uart_thread_def\<close>,
  (rule lasts_le, (rule lasts_net lasts_control lasts_uart lasts_packet lasts_irq | (simp; fail))+)+)

lemma lasts_quicks:
  assumes "list_all quick_event es"
  shows "lasts (app_ready c) (300 * length es) (app_dos es :: ('a app_scheme, unit) state)"
  using assms
proof (induction es)
  case (Cons e es)
  with lasts_bind [OF lasts_quick [of e c] Cons.IH] show ?case
    by simp
qed (simp add: lasts_ret)

text \<open>At most a hundred short turns, chosen by any schedule.\<close>

definition brisk :: "(hw_call list \<Rightarrow> app_event list) \<Rightarrow> hw_call list \<Rightarrow> app_event list" where
  "brisk sched tr = take 100 (filter quick_event (sched tr))"

lemma lasts_brisk: "lasts (app_ready c) 30000 (app_others (brisk sched) :: ('a app_scheme, unit) state)"
proof -
  have "list_all quick_event (brisk sched tr)" for tr
    by (auto simp: brisk_def list_all_iff dest: in_set_takeD)
  then have "lasts (app_ready c) 30000 (app_dos (brisk sched tr) :: ('a app_scheme, unit) state)" for tr
    by (intro lasts_le [OF lasts_quicks]) (simp_all add: brisk_def)
  from lasts_bind [OF lasts_gets this] show ?thesis
    by (simp add: app_others_def)
qed

lemma app_timedI:
  assumes "lasts (app_ready c) h (app_others sched :: ('a app_scheme, unit) state)" "h \<le> 30000"
  shows "app_timed (app_others sched :: ('a app_scheme, unit) state) (app_ready c) 250 c h"
proof -
  have "app_plans (app_others sched :: ('a app_scheme, unit) state) (app_ready c) 250 c"
    using ready.sys.app_plans_axioms [of sched c] by (simp only: ready_true)
  moreover have "env_timed (app_others sched :: ('a app_scheme, unit) state) (app_ready c) h"
    using assms by unfold_locales (simp_all add: view_simps)
  ultimately show ?thesis
    by (rule app_timed.intro)
qed

interpretation brisk: app_timed "app_others (brisk sched)" "app_ready c" 250 c 30000 for sched c
  by (rule app_timedI [OF lasts_brisk]) simp

section \<open>Every mission ends\<close>

lemma ready_reports:
  "preserves (app_ready c) (hcics_report_esp_final (app_others sched) cmd param peer)"
  "preserves (app_ready c) (hcics_release_mission (app_others sched))"
  unfolding hcics_report_esp_final_def hcics_release_mission_def hcics_store_pending_report_locked_def
  by (intro pres ready.sys.pres_sync [unfolded ready_true] turn.pres_send preserves_modify; simp)+

lemma app_returns_mission:
  assumes "lasts (app_ready c) h (app_others sched :: ('a app_scheme, unit) state)" and "h \<le> 30000" and "6001 \<le> n"
  shows "returns (app_ready c) (hcics_run_mission (app_others sched :: ('a app_scheme, unit) state) n msg)"
proof -
  note timed = app_timedI [OF assms(1,2)]
  note stop = app_timed.returns_safe_stop [OF timed assms(3)]
  have report: "returns (app_ready c) (hcics_mission_failed (app_others sched :: ('a app_scheme, unit) state) n fault peer r)"
    "returns (app_ready c) (hcics_mission_done (app_others sched :: ('a app_scheme, unit) state) n fault peer)" for fault peer r
    unfolding hcics_mission_failed_def hcics_mission_done_def
    by (intro returns stop ready_reports ready.sys.pres_set_state [unfolded ready_true])+
  have flags: "preserves (app_ready c) (modify (\<lambda>s :: 'a app_scheme.
      s\<lparr>ap_abort := a, ap_motion_fault := b, ap_motion_fault_reason := v\<rparr>))"
    "preserves (app_ready c) (modify (\<lambda>s :: 'a app_scheme. s\<lparr>ap_motion_fault := b, ap_motion_fault_reason := v\<rparr>))" for a b v
    by (rule preserves_modify; simp add: view_simps)+
  show ?thesis
    unfolding hcics_run_mission_def Let_def
    by (intro returns report flags app_timed.returns_drive [OF timed assms(3)] ready.pres_clear [unfolded ready_true]
        turn.drive.pres_reset turn.pres_snapshot)
qed

text \<open>
  C2: Every mission ends. As long as no turn of the other threads keeps the mission thread from running for
  more than 30 seconds, a mission comes to its end, and with it the turn of the mission thread,
  whatever the other threads do and whatever the hardware answers: at most 6001 turns of 20 ms fit into the
  120 seconds of a drive, the longest deadline.
\<close>

theorem app_mission_returns:
  fixes s :: "'a app_scheme"
  assumes "app_ready c s" and "lasts (app_ready c) 30000 (app_others sched :: 'a app_env)" and "6001 \<le> n"
  shows "wp (hcics_run_mission (app_others sched) n msg) (\<lambda>q t. q \<noteq> None) s \<and>
    wp (hcics_mission_thread (app_others sched) n) (\<lambda>r t. r = Some ()) s"
proof -
  note mission = app_returns_mission [OF assms(2) order_refl assms(3)]
  have "preserves (app_ready c) (rt_mq_recv :: ('a app_scheme, (rt_err + hcics_msg) option) state)"
    unfolding rt_mq_recv_def
    by (rule preservesI) (auto simp: wp split: list.split)
  then have "returns (app_ready c) (hcics_mission_thread (app_others sched :: 'a app_env) n)"
    unfolding hcics_mission_thread_def
    by (rule returns_bind) (auto intro!: returns mission split: option.split sum.split)
  with mission [of msg] assms(1) show ?thesis
    by (auto simp: returns_def elim: wp_conseq)
qed

theorem app_mission_returns_witness:
  "wp (hcics_mission_thread (app_others (brisk (\<lambda>_. [Ap_Control, Ap_Encoder Left_Wheel, Ap_Time 9]))) 6001)
     (\<lambda>r t. r = Some ()) (app_example\<lparr>ap_queue := [request_for fault_example (Some sender_example)]\<rparr>)"
  by (rule app_mission_returns [where c = default_cfg, OF _ lasts_brisk, THEN conjunct2]) (simp_all add: app_example_ready)

end
