(* ===== verification/HcicsAppBoot.thy ===== *)
theory HcicsAppBoot
  imports HcicsAppRuns
begin

text \<open>
  From power on to the start of the threads: the initialisation of the application runs through the
  initialisation of every module, and when it succeeds it has established what the theorems about the
  running system assume.
\<close>

section \<open>Powering on\<close>

text \<open>No mission, no request, no report; the queue is there.\<close>

definition app_quiet :: "'a app_scheme \<Rightarrow> bool" where
  "app_quiet s \<longleftrightarrow> ap_mq s \<and> \<not> ap_busy s \<and> \<not> ap_abort s \<and> ap_pending s = None \<and> ap_queue s = []"

text \<open>Static data that has not been touched: no module is initialised, and the drive stands.\<close>

definition app_fresh :: "'a app_scheme \<Rightarrow> bool" where
  "app_fresh s \<longleftrightarrow> \<not> ap_initialized s \<and> \<not> ax_initialized s \<and> \<not> tr_initialized s \<and> \<not> cl_initialized s \<and> speeds_ok s"

text \<open>The stages of the initialisation: before the axis, before the cleaner, and when all is up.\<close>

definition boot_drive :: "'a app_scheme \<Rightarrow> bool" where
  "boot_drive s \<longleftrightarrow> app_quiet s \<and> \<not> ax_initialized s \<and> \<not> tr_initialized s \<and> \<not> cl_initialized s \<and> speeds_ok s"

definition boot_axis :: "'a app_scheme \<Rightarrow> bool" where
  "boot_axis s \<longleftrightarrow> app_quiet s \<and> \<not> tr_initialized s \<and> \<not> cl_initialized s \<and> speeds_ok s \<and> mo_initialized s"

definition app_up :: "'a app_scheme \<Rightarrow> bool" where
  "app_up s \<longleftrightarrow> app_quiet s \<and> app_ready default_cfg s \<and> tr_initialized s \<and> ax_tx_pin s = HCICS_AXIS_SOFT_TX_PIN"

lemmas boot_defs = app_quiet_def boot_drive_def boot_axis_def

lemma enc_boot [simp]:
  fixes s :: "'a app_scheme"
  shows "boot_drive (enc_update w f s) = boot_drive s"
  by (cases w) (simp_all add: boot_defs speeds_ok_def)

lemma same_boot:
  fixes s t :: "'a app_scheme"
  assumes "encoder.truncate t = encoder.truncate s" "motion.more t = motion.more s" "speeds_ok s \<longrightarrow> speeds_ok t"
  shows "boot_drive s \<Longrightarrow> boot_drive t"
  using assms by (cases s; cases t; simp add: encoder.defs boot_defs speeds_ok_def)

interpretation booting: motion_client boot_drive 250
proof (unfold_locales, goal_cases)
  case (8 s t)
  then show ?case
    using same_boot by blast
next
  case (6 s w f)
  then show ?case
    by simp
qed (simp_all add: boot_defs speeds_ok_def)

interpretation initialised: motion_keeps mo_initialized 250
  by unfold_locales (auto simp: motion_enc_simps)

lemma vc_motion_init:
  fixes s :: "'a app_scheme"
  assumes "boot_drive s" "\<And>r t. boot_drive t \<Longrightarrow> r = RT_EOK \<longrightarrow> mo_initialized t \<Longrightarrow> Q r t"
  shows "wp hcics_motion_init Q s"
proof -
  have "wp hcics_motion_init (\<lambda>_ t. boot_drive t) s"
    by (rule vc_preserves [OF booting.pres_init assms(1)])
  moreover have "wp hcics_motion_init (\<lambda>r t. r = RT_EOK \<longrightarrow> mo_initialized t) s"
    unfolding hcics_motion_init_def
    by (intro vc vc_preserves [OF initialised.pres_output] vc_any [of _ hcics_motion_gpio_init] vc_any [of _ hcics_motion_find_pwm]
        vc_any [of _ "hcics_motion_open_encoder n last" for n last] vc_any [of _ hcics_motion_refresh_output_mode]) (simp_all add: rt_err_defs)
  ultimately show ?thesis
    using assms(2) by (simp add: wp_run)
qed

lemma vc_axis_init:
  fixes s :: "'a app_scheme"
  assumes "\<not> ax_initialized s"
    and "\<And>r t. axis.more t = axis.more s \<Longrightarrow>
      (r = RT_EOK \<Longrightarrow> ax_initialized t \<and> ax_ready t \<and> ax_tx_pin t = HCICS_AXIS_SOFT_TX_PIN) \<Longrightarrow> Q r t"
  shows "wp hcics_axis_init Q s"
  unfolding wp_run
  by (rule assms(2)) (auto simp: hcics_axis_init_def axis_run run_rt_thread_mdelay assms(1) split: if_splits)

lemma boot_axis_more: "axis.more t = axis.more s \<Longrightarrow> boot_axis t = boot_axis s"
  for s t :: "'a app_scheme"
  by (cases s; cases t; simp add: boot_axis_def app_quiet_def speeds_ok_def)

text \<open>The axis is on its pin.\<close>

definition axis_up :: "'a app_scheme \<Rightarrow> bool" where
  "axis_up s \<longleftrightarrow> ax_initialized s \<and> ax_ready s \<and> ax_tx_pin s = HCICS_AXIS_SOFT_TX_PIN"

lemma vc_axis_boot:
  fixes s :: "'a app_scheme"
  assumes "boot_drive s" "mo_initialized s" "\<And>r t. r = RT_EOK \<longrightarrow> boot_axis t \<and> axis_up t \<Longrightarrow> Q r t"
  shows "wp hcics_axis_init Q s"
proof (rule vc_axis_init)
  have "boot_axis s"
    using assms(1,2) by (simp add: boot_defs)
  then show "Q r t" if "axis.more t = axis.more s"
    "r = RT_EOK \<Longrightarrow> ax_initialized t \<and> ax_ready t \<and> ax_tx_pin t = HCICS_AXIS_SOFT_TX_PIN" for r t
    using that boot_axis_more assms(3) by (auto simp: axis_up_def)
qed (use assms(1) in \<open>simp add: boot_drive_def\<close>)

text \<open>The axis is up before the cleaner is; its second initialisation has no effect.\<close>

definition boot_cleaner :: "'a app_scheme \<Rightarrow> bool" where
  "boot_cleaner s \<longleftrightarrow> app_quiet s \<and> \<not> cl_initialized s \<and> speeds_ok s \<and> mo_initialized s \<and> tr_initialized s \<and>
     axis_up s"

lemma vc_track_init:
  fixes s :: "'a app_scheme"
  assumes "boot_axis s" "axis_up s"
    and "\<And>r t. r = RT_EOK \<longrightarrow> boot_cleaner t \<Longrightarrow> Q r t"
  shows "wp (hcics_track_init (Some (True, True))) Q s"
  unfolding hcics_track_init_def
  by (intro vc; (rule assms(3))?; use assms(1,2) in \<open>auto simp: boot_cleaner_def axis_up_def boot_defs speeds_ok_def\<close>)

lemma default_pins: "HCICS_AXIS_SOFT_TX_PIN \<noteq> cfg_relay_pin default_cfg" "HCICS_AXIS_SOFT_TX_PIN \<notin> motion_pins"
  by code_simp+

lemma default_pose: "pose_ok default_cfg (cfg_y_safe_ns default_cfg) (cfg_z_retract_ns default_cfg)"
  using default_ok by (simp add: pose_ok_def cfg_ok_def)

lemma same_up:
  fixes s t :: "'a app_scheme"
  assumes "cleaner.truncate t = cleaner.truncate s" "guard.more t = guard.more s"
  shows "app_up t = app_up s"
  using assms by (cases s; cases t; simp add: cleaner.defs app_up_def app_quiet_def view_simps)

interpretation up: guard_timed "ret () :: ('a app_scheme, unit) state" app_up default_cfg 0
proof (unfold_locales, goal_cases)
  case 1
  show ?case
    by (rule preserves_ret)
next
  case (12 s t)
  then show ?case
    using same_up by blast
qed (simp_all add: app_up_def app_quiet_def view_simps default_pins lasts_ret)

text \<open>The cleaner is configured, but not initialised yet.\<close>

definition boot_pose :: "'a app_scheme \<Rightarrow> bool" where
  "boot_pose s \<longleftrightarrow> boot_cleaner s \<and> cl_config s = default_cfg \<and> pose_ok default_cfg (cl_y_pulse_ns s) (cl_z_pulse_ns s)"

lemma enc_pose [simp]:
  fixes s :: "'a app_scheme"
  shows "boot_pose (enc_update w f s) = boot_pose s"
  by (cases w) (simp_all add: boot_pose_def boot_cleaner_def axis_up_def app_quiet_def speeds_ok_def)

lemma pose_trace [simp]: "boot_pose (s\<lparr>trace := tr\<rparr>) = boot_pose s"
  by (simp add: boot_pose_def boot_cleaner_def axis_up_def app_quiet_def speeds_ok_def)

interpretation finding: encoder_client boot_pose
  by unfold_locales simp_all

lemma vc_axis_again: "boot_pose s \<Longrightarrow> Q RT_EOK s \<Longrightarrow> wp hcics_axis_init Q s"
  by (simp add: hcics_axis_init_def boot_pose_def boot_cleaner_def axis_up_def wp)

lemma vc_cleaner_init:
  fixes s :: "'a app_scheme"
  assumes "boot_cleaner s" "\<And>r t. r = RT_EOK \<longrightarrow> app_up t \<Longrightarrow> Q r t"
  shows "wp (hcics_cleaner_init (ret ()) None) Q s"
proof -
  have cfg: "hcics_cleaner_sanitize_config (case None of None \<Rightarrow> default_cfg | Some c \<Rightarrow> c) = default_cfg"
    by (simp add: sanitize_id default_ok)
  have up: "app_up (t\<lparr>cl_pwm := b, cl_initialized := True\<rparr>)" if "boot_pose t" for t :: "'a app_scheme" and b
    using that default_ok default_pins
    by (simp add: boot_pose_def boot_cleaner_def axis_up_def app_up_def app_quiet_def view_simps)
  have started: "app_up (t\<lparr>trace := Thread_Startup n # k # trace t\<rparr>)"
    if "app_up t" "\<And>p. own_call default_cfg p k" for t :: "'a app_scheme" and n k
    using up.inv_calls [OF that(1), of "[Thread_Startup n, k]"] that(2) by simp
  show ?thesis
    unfolding hcics_cleaner_init_def cfg Let_def
  proof (intro vc vc_axis_again vc_preserves [OF finding.pres_find] vc_preserves [OF up.pres_safe_outputs] assms(2), goal_cases)
  qed (use assms(1) default_pose in \<open>auto simp: up started boot_cleaner_def axis_up_def app_quiet_def speeds_ok_def boot_pose_def\<close>)
qed

lemma pres_hw_init: "preserves boot_drive hcics_hw_init"
  unfolding hcics_hw_init_def hcics_open_camera_uart_def
  by (intro pres booting.dev.pres_find booting.dev.pres_open booting.dev.pres_close preserves_modify)
    (simp_all add: boot_defs speeds_ok_def)

lemma pres_start_threads: "preserves app_up app_start_threads"
proof -
  have delete: "preserves app_up (app_delete_threads tids)" for tids
    by (induction tids) (auto intro!: pres preserves_hw_out up.inv_call)
  show ?thesis
    unfolding app_start_threads_def
    by (intro pres delete preserves_hw_do preserves_hw_out up.inv_call) simp_all
qed

lemma vc_returns: "returns I m \<Longrightarrow> I s \<Longrightarrow> (\<And>r t. r \<noteq> None \<Longrightarrow> I t \<Longrightarrow> Q r t) \<Longrightarrow> wp m Q s"
  unfolding returns_def by (drule spec, drule (1) mp, erule wp_conseq) blast

lemma enc_fresh [simp]:
  fixes s :: "'a app_scheme"
  shows "app_fresh (enc_update w f s) = app_fresh s"
  by (cases w) (simp_all add: app_fresh_def speeds_ok_def)

lemma fresh_trace [simp]: "app_fresh (s\<lparr>trace := tr\<rparr>) = app_fresh s"
  by (simp add: app_fresh_def speeds_ok_def)

interpretation registering: encoder_client app_fresh
  by unfold_locales simp_all

lemma pres_auto_init: "preserves app_fresh hcics_encoder_auto_init"
  unfolding hcics_encoder_auto_init_def hcics_encoder_init_def
  by (intro pres registering.each.pres_register_one preserves_modify) (simp add: app_fresh_def speeds_ok_def)

lemma init_up:
  fixes s :: "'a app_scheme"
  assumes "app_fresh s" and "42 \<le> n"
  shows "wp (hcics_app_init (ret ()) n) (\<lambda>r t. r \<noteq> None \<and> (r = Some RT_EOK \<longrightarrow> app_up t)) s"
  unfolding hcics_app_init_def
  by (intro vc vc_preserves [OF pres_hw_init] vc_motion_init vc_axis_boot vc_track_init vc_cleaner_init
      vc_returns [OF up.returns_init [OF assms(2)]] vc_preserves [OF pres_start_threads];
      use assms(1) in \<open>simp add: app_fresh_def boot_drive_def app_quiet_def speeds_ok_def rt_err_defs\<close>;
      simp add: app_up_def app_quiet_def view_simps)

lemma up_ready:
  "app_up t \<Longrightarrow> app_ready default_cfg t \<and> app_between t \<and> wired_apart default_cfg t \<and> tr_initialized t \<and> ap_mq t \<and>
    \<not> ap_busy t \<and> \<not> ap_abort t \<and> ap_pending t = None"
  using app_wiring default_pins by (simp add: app_up_def app_quiet_def app_between_def wired_apart_def)

text \<open>
  C5: A successful start puts everything in order. Powered on with no module initialised, the
  registration of the encoders and the initialisation in \<open>main\<close> come to an end, and when \<open>main\<close> reports
  success the cleaner is configured, with its pose in range, and the drive and the tracker are initialised, the queue
  exists, no request or report is there and nothing is aborted, and the pins and the PWM devices of the
  cleaner and the drive are different. So every hypothesis about the state that the other properties
  of the application have holds.
\<close>

theorem app_init_ready:
  fixes s :: "'a app_scheme"
  assumes "app_fresh s" and "42 \<le> n"
  shows "wp (do { _ \<leftarrow> hcics_encoder_auto_init; app_main (ret ()) n }) (\<lambda>r t. r \<noteq> None \<and> (r = Some RT_EOK \<longrightarrow>
    app_ready default_cfg t \<and> app_between t \<and> wired_apart default_cfg t \<and> tr_initialized t \<and> ap_mq t \<and>
    \<not> ap_busy t \<and> \<not> ap_abort t \<and> ap_pending t = None)) s"
  unfolding app_main_def
  by (intro vc vc_preserves [OF pres_auto_init assms(1)], erule wp_conseq [OF init_up [OF _ assms(2)]])
    (use up_ready in blast)

theorem app_init_ready_witness:
  "wp (do { _ \<leftarrow> hcics_encoder_auto_init; app_main (ret ()) 42 })
     (\<lambda>r t. r = Some RT_EOK \<longrightarrow> app_between t \<and> wired_apart default_cfg t)
     (app_example\<lparr>ap_initialized := False, ax_initialized := False, tr_initialized := False, cl_initialized := False\<rparr>)"
  by (rule wp_conseq [OF app_init_ready])
    (use app_example_ready in \<open>simp_all add: app_fresh_def app_ready_def speeds_ok_def\<close>)

end
