(* ===== verification/HcicsAppPhases.thy ===== *)
theory HcicsAppPhases
  imports HcicsAppRuns
begin

text \<open>
  What the success of a part of a mission means, while all other threads run: the vehicle is at the
  panel of the fault, the cleaning was done, the vehicle is home. \<open>plan_view\<close> is the interface: what
  is known of the plan, and of having followed it, is kept by all threads.
\<close>

section \<open>The plan among the threads\<close>

lemma plan_motion:
  fixes s t :: "'a app_scheme"
  shows "motion.more t = motion.more s \<Longrightarrow> plan_kept s t"
  by (cases s; cases t; simp add: plan_defs)

lemma plan_track:
  fixes s t :: "'a app_scheme"
  shows "cleaner.truncate t = cleaner.truncate s \<Longrightarrow> plan_kept s t"
    "guard.truncate t = guard.truncate s \<Longrightarrow> plan_kept s t"
  by (cases s; cases t; simp add: cleaner.defs guard.defs plan_defs)+

lemma plan_enc [simp]: "plan_kept s (enc_update w f s)" for s :: "'a app_scheme"
  by (cases w) (simp_all add: plan_defs)

locale plan_view =
  fixes K :: "'a app_scheme \<Rightarrow> bool"
  assumes kept: "K s \<Longrightarrow> plan_kept s t \<Longrightarrow> K t"
begin

lemma step:
  "app_ready c s \<and> K s \<Longrightarrow> cleaner_posed c t \<Longrightarrow> speeds_ok t \<Longrightarrow> mo_initialized s \<longrightarrow> mo_initialized t \<Longrightarrow>
     plan_kept s t \<Longrightarrow> app_ready c t \<and> K t"
  by (simp add: app_ready_def) (blast intro: kept)

end

sublocale plan_view \<subseteq> app_request "\<lambda>s. app_ready c s \<and> K s" 250 c for c
proof (unfold_locales, goal_cases)
  case (8 s t)
  note same = same_motion [OF 8(2,3)] plan_motion [OF 8(3)]
  show ?case
    by (rule step [OF 8(1)]) (use same 8 in \<open>auto simp only: app_ready_def\<close>)
next
  case (26 s t)
  note same = same_guard [OF 26(2,3)] plan_track(1) [OF 26(2)]
  show ?case
    by (rule step [OF 26(1)]) (use same 26 in \<open>auto simp only: app_ready_def\<close>)
next
  case (27 s t)
  note same = same_track [OF 27(2,3)]
  show ?case
    by (rule step [OF 27(1)]) (use same 27 in \<open>auto simp only: app_ready_def\<close>)
next
  case (28 s t)
  note same = same_app [OF 28(2)] plan_track(2) [OF 28(2)]
  show ?case
    by (rule step [OF 28(1)]) (use same 28 in \<open>auto simp only: app_ready_def\<close>)
next
  case (6 s w f)
  then show ?case
    by - (rule step [of c s], simp_all add: app_ready_def)
qed (((rule step, assumption); (simp add: view_simps plan_defs; fail)) |
     (rule preserves_ret) | (simp add: view_simps plan_defs; fail))+

interpretation following: plan_view "\<lambda>s. track_plan s = v \<and> on_plan s" for v
  by unfold_locales (simp add: plan_kept_def)

interpretation parked: plan_view "\<lambda>s. track_plan s = v \<and> at_goal s" for v
  by unfold_locales (simp add: plan_kept_def)

section \<open>Driving\<close>

lemma start_to_panel:
  assumes "1 \<le> n" "n \<le> 9" "hcics_track_target_to_grid n = Some (row, col)"
  shows "wp (hcics_track_start_path n) (\<lambda>r t. r = RT_EOK \<longrightarrow> tr_path t \<and> \<not> tr_finished t \<and>
    planned t = to_target (unat row) (unat col) \<and> path_destination (tr_planned_path t) = n) s"
  unfolding hcics_track_start_path_def hcics_track_motor_ready_def
  by (intro vc vc_plan_to_target [OF assms(1,2)]) (use assms(3) in \<open>auto simp: planned_def\<close>)

lemma start_to_home:
  assumes "tr_current_location s = n" "n \<le> 9" "hcics_track_target_to_grid n = Some (row, col)"
  shows "wp (hcics_track_start_path HCICS_TRACK_TARGET_HOME) (\<lambda>r t. r = RT_EOK \<longrightarrow> tr_path t \<and> \<not> tr_finished t \<and>
    planned t = to_home (unat row) (unat col) \<and> path_destination (tr_planned_path t) = HCICS_TRACK_TARGET_HOME) s"
  unfolding hcics_track_start_path_def hcics_track_motor_ready_def
  by (intro vc vc_plan_path)
    (use assms in \<open>auto simp: track_grid_defs plan_of_def planned_def plan_ok_def split: option.splits\<close>)

text \<open>A path that is reported as followed to its end.\<close>

definition arrived :: "hcics_track_path \<times> hcics_track_step list \<Rightarrow> 'a app_scheme \<Rightarrow> bool" where
  "arrived v s \<longleftrightarrow> track_plan s = v \<and> on_plan s \<and> tr_finished s"

lemma same_arrived:
  fixes s t :: "'a app_scheme"
  shows "motion.more t = motion.more s \<Longrightarrow> arrived v t = arrived v s"
  by (cases s; cases t; simp add: arrived_def plan_defs)

lemma vc_is_finished:
  assumes "\<And>b cs. (b \<Longrightarrow> tr_finished s) \<Longrightarrow> Q b (s\<lparr>trace := cs @ trace s\<rparr>)"
  shows "wp hcics_track_is_finished Q s"
  using assms [of False "[]"] assms [of "tr_finished s" "[Mutex_Release ''htrk'', Mutex_Take ''htrk'']"]
  by (simp add: hcics_track_is_finished_def wp)

lemma arrived_direct:
  fixes s :: "'a app_scheme"
  assumes "app_ready c s" "arrived v s" "\<And>t. arrived v t \<Longrightarrow> app_ready c t \<Longrightarrow> Q t"
  shows "wp (hcics_motion_set_target_direct l r) (\<lambda>_. Q) s"
proof -
  have "wp (hcics_motion_set_target_direct l r) (\<lambda>_. arrived v) s"
  proof (rule vc_preserves [OF motion_frame.pres_set_direct [of "motion.more s"]])
    show "speeds_ok s \<and> motion.more s = motion.more s"
      using assms(1) by (simp add: app_ready_def)
    fix t :: "'a app_scheme"
    assume "speeds_ok t \<and> motion.more t = motion.more s"
    then show "arrived v t"
      using assms(2) same_arrived [of t s v] by blast
  qed
  moreover have "wp (hcics_motion_set_target_direct l r) (\<lambda>_. app_ready c) s"
    by (rule vc_preserves [OF ready.drive.pres_set_direct [of c]]) (use assms in auto)
  ultimately show ?thesis
    using assms(3) by (simp add: wp_run)
qed

lemma follow_arrives:
  fixes s :: "'a app_scheme"
  shows "app_ready c s \<and> track_plan s = v \<and> on_plan s \<Longrightarrow>
    wp (app_follow_loop (app_others sched) start n) (\<lambda>r t. r = Some RT_EOK \<longrightarrow> app_ready c t \<and> arrived v t) s"
proof (induction n arbitrary: s)
  case (Suc n)
  show ?case
    unfolding app_follow_loop.simps
    apply (intro vc vc_preserves [OF following.sys.pres_halt [of c v]] vc_is_finished arrived_direct [of c _ v]
      vc_preserves [OF following.sys.pres_status(2) [of c v]] vc_preserves [OF following.sys.pres_recent [of c v]]
      vc_preserves [OF following.sys.pres_sync(3) [of c v]] Suc.IH)
    apply (use Suc.prems in \<open>auto simp: arrived_def plan_defs\<close>)
    done
qed (simp add: wp)

lemma track_plan_planned:
  fixes s t :: "'a track_scheme"
  shows "track_plan t = track_plan s \<Longrightarrow> planned t = planned s"
  by (simp add: track_plan_def planned_def)

lemma follow_path_arrives:
  fixes s :: "'a app_scheme"
  assumes "app_ready c s \<and> P s"
    and wait: "preserves (\<lambda>s. app_ready c s \<and> P s) (hcics_wait_track_camera (app_others sched) k HCICS_TRACK_WAIT_CAMERA_MS)"
    and start: "\<And>u. P u \<Longrightarrow> wp (hcics_track_start_path n) (\<lambda>r t. r = RT_EOK \<longrightarrow> tr_path t \<and> \<not> tr_finished t \<and>
      planned t = acts \<and> path_destination (tr_planned_path t) = n) u"
  shows "wp (hcics_follow_track_path (app_others sched) k n) (\<lambda>r t. r = Some RT_EOK \<longrightarrow>
    app_ready c t \<and> tr_finished t \<and> at_goal t \<and> tr_current_location t = n \<and> planned t = acts) s"
proof -
  have started: "wp (hcics_track_start_path n) (\<lambda>r t. app_ready c t \<and> (r = RT_EOK \<longrightarrow> tr_path t \<and> \<not> tr_finished t \<and>
      planned t = acts \<and> path_destination (tr_planned_path t) = n)) u" if "app_ready c u \<and> P u" for u :: "'a app_scheme"
    using start [of u] vc_preserves [OF ready.sys.pres_start_path [of c], of u "\<lambda>_ t. app_ready c t"] that
    by (simp add: wp_run)
  have loop: "wp (app_follow_loop (app_others sched) start k) (\<lambda>r t. r = Some RT_EOK \<longrightarrow>
      app_ready c t \<and> tr_finished t \<and> at_goal t \<and> tr_current_location t = n \<and> planned t = acts) u"
    if "app_ready c u" "tr_path u \<and> \<not> tr_finished u \<and> planned u = acts \<and> path_destination (tr_planned_path u) = n"
    for u :: "'a app_scheme" and start
  proof (rule wp_conseq [OF follow_arrives [of c u "track_plan u"]])
    show "app_ready c u \<and> track_plan u = track_plan u \<and> on_plan u"
      using that by (simp add: on_plan_def)
    fix r and t :: "'a app_scheme"
    assume "r = Some RT_EOK \<longrightarrow> app_ready c t \<and> arrived (track_plan u) t"
    then show "r = Some RT_EOK \<longrightarrow>
        app_ready c t \<and> tr_finished t \<and> at_goal t \<and> tr_current_location t = n \<and> planned t = acts"
      using that track_plan_planned [of t u] by (auto simp: arrived_def plan_defs)
  qed
  show ?thesis
    unfolding hcics_follow_track_path_def
    by (intro vc vc_preserves [OF wait assms(1)] wp_conseq [OF started] loop) auto
qed

section \<open>Cleaning\<close>

lemma vc_status:
  fixes s :: "'a app_scheme"
  assumes "app_ready c s"
    and "\<And>r t. app_ready c t \<Longrightarrow> (\<And>e. r = Inl e \<Longrightarrow> e \<noteq> RT_EOK) \<Longrightarrow>
      (\<And>st. r = Inr st \<Longrightarrow> cs_state st = cl_state t \<and> cs_last_result st = cl_last_result t) \<Longrightarrow> Q r t"
  shows "wp (hcics_cleaner_get_status (app_others sched)) Q s"
  unfolding hcics_cleaner_get_status_def cleaner_snapshot_def cleaner_take_def cleaner_release_def
  by (intro vc vc_preserves [OF ready.sys.clean.pres_ensure_init [of c]] vc_preserves [OF ready.pres_others [of c]] assms(2))
    (use assms(1) in \<open>auto simp: view_simps\<close>)

lemma clean_done:
  fixes s :: "'a app_scheme"
  shows "app_ready c s \<Longrightarrow> wp (app_clean_loop (app_others sched) start n)
    (\<lambda>r t. r = Some RT_EOK \<longrightarrow> cl_state t = HCICS_CLEANER_STATE_DONE \<and> cl_last_result t = RT_EOK) s"
proof (induction n arbitrary: s)
  case (Suc n)
  show ?case
    unfolding app_clean_loop.simps
    by (intro vc vc_any [where m = "hcics_cleaner_emergency_stop env" for env] vc_status [of c]
        vc_preserves [OF ready.sys.pres_sync(3) [of c]] Suc.IH)
      (use Suc.prems in auto)
qed (simp add: wp)

section \<open>A successful mission\<close>

text \<open>The panel of a fault the vehicle is sent to, as the tracker and as the protocol see it.\<close>

lemma fault_target:
  assumes "hcics_fault_to_track_target fault \<noteq> HCICS_TRACK_TARGET_HOME"
  shows "hcics_fault_to_track_target fault = fault_id fault" "1 \<le> fault_id fault" "fault_id fault \<le> 9"
    "hcics_track_target_to_grid (fault_id fault) = Some (fault_row fault, fault_col fault)"
proof -
  show n: "hcics_fault_to_track_target fault = fault_id fault" "1 \<le> fault_id fault" "fault_id fault \<le> 9"
    using assms by (simp_all add: hcics_fault_to_track_target_def track_grid_defs split: if_splits)
  have valid: "hcics_protocol_fault_is_valid fault"
    using assms by (simp add: hcics_fault_to_track_target_def split: if_splits)
  obtain row col where g: "hcics_track_target_to_grid (fault_id fault) = Some (row, col)"
    using grid_of_target [OF n(2,3)] by auto
  then show "hcics_track_target_to_grid (fault_id fault) = Some (fault_row fault, fault_col fault)"
    using fault_grid_agrees [OF g n(2,3)] valid by (simp add: hcics_protocol_fault_is_valid_def)
qed

lemma navigate_arrives:
  fixes s :: "'a app_scheme"
  assumes "app_ready c s"
  shows "wp (hcics_navigate_to_fault (app_others sched) k fault) (\<lambda>r t. r = Some RT_EOK \<longrightarrow> app_ready c t \<and>
    hcics_fault_to_track_target fault \<noteq> HCICS_TRACK_TARGET_HOME \<and> tr_finished t \<and> at_goal t \<and>
    tr_current_location t = fault_id fault \<and>
    planned t = to_target (unat (fault_row fault)) (unat (fault_col fault))) s"
proof (cases "hcics_fault_to_track_target fault = HCICS_TRACK_TARGET_HOME")
  case True
  then show ?thesis
    unfolding hcics_navigate_to_fault_def by (intro vc) simp_all
next
  case False
  note f = fault_target [OF False]
  show ?thesis
    unfolding hcics_navigate_to_fault_def f(1)
    by (intro vc wp_conseq [OF follow_path_arrives [where P = "\<lambda>_. True",
          OF _ ready.sys.pres_wait_camera start_to_panel [OF f(2-4)]]]) (use assms False f(1) in auto)
qed

lemma home_arrives:
  fixes s :: "'a app_scheme"
  assumes "app_ready c s" "at_goal s" "tr_current_location s = fault_id fault"
    and "hcics_fault_to_track_target fault \<noteq> HCICS_TRACK_TARGET_HOME"
  shows "wp (hcics_return_home (app_others sched) k) (\<lambda>r t. r = Some RT_EOK \<longrightarrow> tr_finished t \<and>
    tr_current_location t = HCICS_TRACK_TARGET_HOME \<and>
    planned t = to_home (unat (fault_row fault)) (unat (fault_col fault))) s"
proof -
  note f = fault_target [OF assms(4)]
  have start: "wp (hcics_track_start_path HCICS_TRACK_TARGET_HOME) (\<lambda>r t. r = RT_EOK \<longrightarrow> tr_path t \<and> \<not> tr_finished t \<and>
      planned t = to_home (unat (fault_row fault)) (unat (fault_col fault)) \<and>
      path_destination (tr_planned_path t) = HCICS_TRACK_TARGET_HOME) u"
    if "track_plan u = track_plan s \<and> at_goal u" for u :: "'a app_scheme"
    by (rule start_to_home [OF _ f(3,4)]) (use that assms(2,3) in \<open>auto simp: plan_defs\<close>)
  show ?thesis
    unfolding hcics_return_home_def
    by (rule wp_conseq [OF follow_path_arrives [OF _ parked.sys.pres_wait_camera [of c "track_plan s"] start]])
      (use assms in auto)
qed

lemma fault_walks:
  assumes "hcics_fault_to_track_target fault \<noteq> HCICS_TRACK_TARGET_HOME"
  shows "walk dock (to_target (unat (fault_row fault)) (unat (fault_col fault))) =
      (uint (fault_row fault), uint (fault_col fault), East)"
    "walk (uint (fault_row fault), uint (fault_col fault), East)
      (to_home (unat (fault_row fault)) (unat (fault_col fault))) = (0, 1, South)"
  using grid_nonzero [OF fault_target(4) [OF assms]]
    walk_to_target [of "unat (fault_col fault)" "unat (fault_row fault)"]
    walk_to_home [of "unat (fault_col fault)" "unat (fault_row fault)"] by simp_all

text \<open>The second half of a mission, from the panel.\<close>

definition returned :: "hcics_fault \<Rightarrow> 'a app_scheme \<Rightarrow> bool" where
  "returned fault s \<longleftrightarrow> tr_finished s \<and> tr_current_location s = HCICS_TRACK_TARGET_HOME \<and>
     walk (uint (fault_row fault), uint (fault_col fault), East) (planned s) = (0, 1, South)"

lemma parked_returns:
  fixes s :: "'a app_scheme"
  assumes "app_ready c s" "at_goal s" "tr_current_location s = fault_id fault"
    and target: "hcics_fault_to_track_target fault \<noteq> HCICS_TRACK_TARGET_HOME"
  shows "wp (do {
      hcics_set_state HCICS_STATE_PARKED;
      completed \<leftarrow> hcics_delay_abortable (app_others sched) 500;
      if \<not> completed then oret (- RT_EINTR)
      else do {
        hcics_set_state HCICS_STATE_CLEANING;
        obind (hcics_clean_panel (app_others sched) n) (\<lambda>result.
        if result \<noteq> RT_EOK then oret result
        else do {
          hcics_set_state HCICS_STATE_RETURN_HOME;
          hcics_return_home (app_others sched) n }) } }) (\<lambda>r t. r = Some RT_EOK \<longrightarrow> returned fault t) s"
proof -
  have home: "wp (hcics_return_home (app_others sched) n) (\<lambda>r t. r = Some RT_EOK \<longrightarrow> returned fault t) t"
    if "app_ready c t \<and> track_plan t = track_plan s \<and> at_goal t" for t :: "'a app_scheme"
    by (rule wp_conseq [OF home_arrives [of c t fault]])
      (use that assms(2,3) target fault_walks [OF target] in \<open>auto simp: plan_defs returned_def\<close>)
  show ?thesis
    by (intro vc vc_preserves [OF parked.sys.pres_set_state [of c "track_plan s"]]
        vc_preserves [OF parked.sys.pres_delay [of c "track_plan s"]]
        vc_preserves [OF parked.sys.pres_clean_panel [of c "track_plan s"]] home) (use assms in auto)
qed



end
