(* ===== verification/RtThread.thy ===== *)
theory RtThread
  imports HcicsPrelude "HOL-Library.While_Combinator"
begin

text \<open>
  What the objects for the communication of threads share, \<open>src/rt-thread/src/ipc.c\<close> and \<open>thread.c\<close>:
  threads that wait in a list, and how they are suspended, resumed and run into a timeout. An object
  together with the threads that use it is a system whose steps are labelled. A thread is at one of the points
  where interrupts are enabled; a step runs it to its next such point.
\<close>

section \<open>Threads\<close>

text \<open>
  Of \<open>struct rt_thread\<close>: \<open>error\<close>, \<open>current_priority\<close>, whether \<open>stat\<close> is suspended, and whether
  \<open>thread_timer\<close> runs. Where the thread is in the code, with its local variables, is a value of \<open>'pc\<close>.
\<close>

record 'pc rt_thread =
  th_pc :: 'pc
  th_error :: rt_err
  th_priority :: u8
  th_suspended :: bool
  th_timer :: bool

datatype rt_ipc_flag = RT_IPC_FLAG_FIFO | RT_IPC_FLAG_PRIO

text \<open>The place in a list of threads where \<open>_ipc_list_suspend\<close> puts one.\<close>

definition ipc_list_insert :: "rt_ipc_flag \<Rightarrow> (nat \<Rightarrow> u8) \<Rightarrow> nat \<Rightarrow> nat list \<Rightarrow> nat list" where
  "ipc_list_insert flag prio t list =
     (case flag of
        RT_IPC_FLAG_FIFO \<Rightarrow> list @ [t]
      | RT_IPC_FLAG_PRIO \<Rightarrow> takeWhile (\<lambda>n. \<not> prio t < prio n) list @ t # dropWhile (\<lambda>n. \<not> prio t < prio n) list)"

text \<open>A thread that was let go with an error.\<close>

definition dismissed :: "'pc rt_thread \<Rightarrow> 'pc rt_thread" where
  "dismissed th = th\<lparr>th_error := - RT_ERROR, th_suspended := False, th_timer := False\<rparr>"

lemma insert_props:
  "set (ipc_list_insert flag prio t ts) = insert t (set ts)"
  "distinct (ipc_list_insert flag prio t ts) \<longleftrightarrow> t \<notin> set ts \<and> distinct ts"
proof -
  let ?P = "\<lambda>n. \<not> prio t < prio n"
  have ts: "takeWhile ?P ts @ dropWhile ?P ts = ts"
    by simp
  have "set (takeWhile ?P ts) \<union> set (dropWhile ?P ts) = set ts"
    by (metis ts set_append)
  then show "set (ipc_list_insert flag prio t ts) = insert t (set ts)"
    by (cases flag) (auto simp: ipc_list_insert_def)
  have "distinct (xs @ t # ys) \<longleftrightarrow> t \<notin> set (xs @ ys) \<and> distinct (xs @ ys)" for xs ys
    by auto
  from this [of "takeWhile ?P ts" "dropWhile ?P ts", unfolded ts]
  show "distinct (ipc_list_insert flag prio t ts) \<longleftrightarrow> t \<notin> set ts \<and> distinct ts"
    by (cases flag) (auto simp only: ipc_list_insert_def rt_ipc_flag.case distinct_append distinct.simps list.set)
qed

lemma insert_sorted_prio:
  assumes "sorted_wrt (\<lambda>a b. prio a \<le> prio b) ts"
  shows "sorted_wrt (\<lambda>a b. prio a \<le> prio b) (ipc_list_insert RT_IPC_FLAG_PRIO prio t ts)"
proof -
  let ?P = "\<lambda>n. \<not> prio t < prio n"
  let ?xs = "takeWhile ?P ts" and ?ys = "dropWhile ?P ts"
  have "sorted_wrt (\<lambda>a b. prio a \<le> prio b) (?xs @ ?ys)"
    using assms by simp
  then have s: "sorted_wrt (\<lambda>a b. prio a \<le> prio b) ?xs" "sorted_wrt (\<lambda>a b. prio a \<le> prio b) ?ys"
    "\<And>a b. a \<in> set ?xs \<Longrightarrow> b \<in> set ?ys \<Longrightarrow> prio a \<le> prio b"
    unfolding sorted_wrt_append by blast+
  have le: "prio a \<le> prio t" if "a \<in> set ?xs" for a
    using set_takeWhileD [OF that] by (simp add: not_less)
  have ge: "prio t \<le> prio b" if "b \<in> set ?ys" for b
  proof -
    have "?ys \<noteq> []"
      using that by (metis empty_iff list.set(1))
    then obtain y ys where ys: "?ys = y # ys"
      by (meson list.exhaust)
    then have "prio t < prio y"
      using hd_dropWhile [of ?P ts] by simp
    moreover have "prio y \<le> prio b"
      using that s(2) ys by auto
    ultimately show ?thesis
      by simp
  qed
  show ?thesis
    using s le ge by (auto simp: ipc_list_insert_def sorted_wrt_append)
qed

section \<open>Runs\<close>

inductive labelled_runs :: "('s \<Rightarrow> 'l \<Rightarrow> 's \<Rightarrow> bool) \<Rightarrow> 's \<Rightarrow> 'l list \<Rightarrow> 's \<Rightarrow> bool" for step where
  runs_nil: "labelled_runs step s [] s"
| runs_snoc: "labelled_runs step s ls t \<Longrightarrow> step t l u \<Longrightarrow> labelled_runs step s (ls @ [l]) u"

lemma labelled_runs_keep:
  assumes "labelled_runs step s ls t" "good s" "\<And>s l t. good s \<Longrightarrow> step s l t \<Longrightarrow> good t"
  shows "good t"
  using assms by (induction rule: labelled_runs.induct) auto

end
