(* ===== verification/RtMessageQueue.thy ===== *)
theory RtMessageQueue
  imports RtThread
begin

text \<open>
  The message queue of RT-Thread, \<open>src/rt-thread/src/ipc.c\<close>, through which the network thread hands a
  fault to the mission thread. The queue lives in a pool of cells that are linked into the queue and
  into a list of free cells. Sending and receiving are not atomic: interrupts are enabled while a message
  is copied and while a thread waits. The model is a system of threads, each of which is at one of the
  points where interrupts are enabled; a step runs one thread to its next such point.
\<close>

section \<open>Data\<close>

text \<open>
  \<open>struct rt_mq_message\<close> and the \<open>msg_size\<close> bytes behind it; a pointer is the index of its cell in the
  pool, \<open>RT_NULL\<close> is \<open>None\<close>. \<open>struct rt_messagequeue\<close>: a list of threads is the list of their numbers.
\<close>

record rt_mq_message =
  next_msg :: "nat option"
  payload :: "u8 list"

record rt_messagequeue =
  ipc_flag :: rt_ipc_flag
  suspend_thread :: "nat list"
  msg_pool :: "rt_mq_message list"
  msg_size :: u16
  max_msgs :: u16
  entry :: u16
  msg_queue_head :: "nat option"
  msg_queue_tail :: "nat option"
  msg_queue_free :: "nat option"
  suspend_sender_thread :: "nat list"

text \<open>
  Where a thread is, with its local variables: outside of the queue's functions, with the result of the
  last call and what it left in the buffer; at the entry of a function; in the wait for a cell or for a
  message; between the critical sections of a call, with the cell it holds.
\<close>

datatype mq_pc =
  Returned rt_err "u8 list"
| Send_Enter "u8 list" int
| Send_Wait "u8 list" int u32
| Urgent_Enter "u8 list"
| Send_Copy bool "u8 list" nat
| Send_Link bool "u8 list" nat
| Recv_Enter u32 int
| Recv_Wait u32 int u32
| Recv_Copy u32 nat
| Recv_Put u32 nat "u8 list"

record mq_sys =
  mq :: rt_messagequeue
  threads :: "nat \<Rightarrow> mq_pc rt_thread"
  tick :: u32

definition RT_MQ_ENTRY_MAX :: u16 where "RT_MQ_ENTRY_MAX = 65535"

definition rt_align :: "u32 \<Rightarrow> u32" where
  "rt_align n = (n + 3) AND NOT 3"

abbreviation set_mq :: "(rt_messagequeue \<Rightarrow> rt_messagequeue) \<Rightarrow> mq_sys \<Rightarrow> mq_sys" where
  "set_mq f s \<equiv> s\<lparr>mq := f (mq s)\<rparr>"

abbreviation set_thread :: "nat \<Rightarrow> (mq_pc rt_thread \<Rightarrow> mq_pc rt_thread) \<Rightarrow> mq_sys \<Rightarrow> mq_sys" where
  "set_thread t f s \<equiv> s\<lparr>threads := (threads s)(t := f (threads s t))\<rparr>"

abbreviation goes_to :: "nat \<Rightarrow> mq_pc \<Rightarrow> mq_sys \<Rightarrow> mq_sys" where
  "goes_to t pc \<equiv> set_thread t (\<lambda>th. th\<lparr>th_pc := pc\<rparr>)"

abbreviation pc_of :: "mq_sys \<Rightarrow> nat \<Rightarrow> mq_pc" where
  "pc_of s t \<equiv> th_pc (threads s t)"

section \<open>Threads that wait\<close>

text \<open>
  \<open>rt_thread_resume\<close>, \<open>_thread_timeout\<close>, \<open>_ipc_list_suspend\<close>, \<open>_ipc_list_resume\<close> and
  \<open>_ipc_list_resume_all\<close>, for the two lists of a queue. A thread that is taken off its list was in one of the two lists of the queue.
\<close>

definition mq_unlist :: "nat \<Rightarrow> rt_messagequeue \<Rightarrow> rt_messagequeue" where
  "mq_unlist t q = q\<lparr>suspend_thread := removeAll t (suspend_thread q),
     suspend_sender_thread := removeAll t (suspend_sender_thread q)\<rparr>"

definition rt_thread_resume :: "nat \<Rightarrow> mq_sys \<Rightarrow> mq_sys" where
  "rt_thread_resume t s =
     (if \<not> th_suspended (threads s t) then s
      else set_thread t (\<lambda>th. th\<lparr>th_suspended := False, th_timer := False\<rparr>) (set_mq (mq_unlist t) s))"

definition rt_thread_timeout :: "nat \<Rightarrow> mq_sys \<Rightarrow> mq_sys" where
  "rt_thread_timeout t s =
     set_thread t (\<lambda>th. th\<lparr>th_error := - RT_ETIMEOUT, th_suspended := False, th_timer := False\<rparr>)
       (set_mq (mq_unlist t) s)"

text \<open>Suspending a thread for a time, forever if it is negative.\<close>

definition mq_suspend :: "bool \<Rightarrow> nat \<Rightarrow> int \<Rightarrow> mq_sys \<Rightarrow> mq_sys" where
  "mq_suspend sender t timeout s =
     (let ins = ipc_list_insert (ipc_flag (mq s)) (\<lambda>n. th_priority (threads s n)) t
      in set_thread t (\<lambda>th. th\<lparr>th_error := RT_EOK, th_suspended := True, th_timer := timeout > 0\<rparr>)
           (set_mq (\<lambda>q. if sender
              then q\<lparr>suspend_sender_thread := ins (suspend_sender_thread q)\<rparr>
              else q\<lparr>suspend_thread := ins (suspend_thread q)\<rparr>) s))"

definition waiting_list :: "bool \<Rightarrow> mq_sys \<Rightarrow> nat list" where
  "waiting_list sender s = (if sender then suspend_sender_thread (mq s) else suspend_thread (mq s))"

text \<open>The end of a critical section: the first thread that waits is resumed.\<close>

definition mq_wake :: "bool \<Rightarrow> mq_sys \<Rightarrow> mq_sys" where
  "mq_wake sender s = (case waiting_list sender s of [] \<Rightarrow> s | t # _ \<Rightarrow> rt_thread_resume t s)"

definition ipc_list_resume_all :: "bool \<Rightarrow> mq_sys \<Rightarrow> mq_sys option" where
  "ipc_list_resume_all sender = while_option (\<lambda>s. waiting_list sender s \<noteq> [])
     (\<lambda>s. let t = hd (waiting_list sender s)
           in rt_thread_resume t (set_thread t (\<lambda>th. th\<lparr>th_error := - RT_ERROR\<rparr>) s))"

text \<open>
  The timeout that is left after a wait. The subtraction is one of unsigned integers that is then
  converted, as \<open>tick_delta\<close> is unsigned.
\<close>

definition mq_time_left :: "int \<Rightarrow> u32 \<Rightarrow> u32 \<Rightarrow> int" where
  "mq_time_left timeout tick_delta now =
     (if timeout > 0 then max 0 (i32 (timeout - uint (now - tick_delta))) else timeout)"

section \<open>Cells\<close>

definition mq_take_free :: "nat \<Rightarrow> rt_messagequeue \<Rightarrow> rt_messagequeue" where
  "mq_take_free i q = q\<lparr>msg_queue_free := next_msg (msg_pool q ! i)\<rparr>"

definition set_cell :: "nat \<Rightarrow> (rt_mq_message \<Rightarrow> rt_mq_message) \<Rightarrow> rt_messagequeue \<Rightarrow> rt_messagequeue" where
  "set_cell i f q = q\<lparr>msg_pool := (msg_pool q)[i := f (msg_pool q ! i)]\<rparr>"

text \<open>\<open>rt_memcpy\<close> into a cell.\<close>

definition mq_copy_in :: "u8 list \<Rightarrow> rt_mq_message \<Rightarrow> rt_mq_message" where
  "mq_copy_in bs c = c\<lparr>payload := bs @ drop (length bs) (payload c)\<rparr>"

definition mq_link :: "nat \<Rightarrow> rt_messagequeue \<Rightarrow> rt_messagequeue" where
  "mq_link i q =
     (let q = (case msg_queue_tail q of None \<Rightarrow> q | Some k \<Rightarrow> set_cell k (\<lambda>c. c\<lparr>next_msg := Some i\<rparr>) q);
          q = q\<lparr>msg_queue_tail := Some i\<rparr>
      in if msg_queue_head q = None then q\<lparr>msg_queue_head := Some i\<rparr> else q)"

definition mq_push :: "nat \<Rightarrow> rt_messagequeue \<Rightarrow> rt_messagequeue" where
  "mq_push i q =
     (let q = (set_cell i (\<lambda>c. c\<lparr>next_msg := msg_queue_head q\<rparr>) q)\<lparr>msg_queue_head := Some i\<rparr>
      in if msg_queue_tail q = None then q\<lparr>msg_queue_tail := Some i\<rparr> else q)"

definition mq_unlink :: "nat \<Rightarrow> rt_messagequeue \<Rightarrow> rt_messagequeue" where
  "mq_unlink i q =
     (let q = q\<lparr>msg_queue_head := next_msg (msg_pool q ! i)\<rparr>
      in if msg_queue_tail q = Some i then q\<lparr>msg_queue_tail := None\<rparr> else q)"

definition mq_put_free :: "nat \<Rightarrow> rt_messagequeue \<Rightarrow> rt_messagequeue" where
  "mq_put_free i q = (set_cell i (\<lambda>c. c\<lparr>next_msg := msg_queue_free q\<rparr>) q)\<lparr>msg_queue_free := Some i\<rparr>"

section \<open>Creation\<close>

text \<open>The loop that links all cells into the list of free cells.\<close>

definition mq_free_all :: "rt_messagequeue \<Rightarrow> rt_messagequeue" where
  "mq_free_all q = fold mq_put_free [0..<unat (max_msgs q)] (q\<lparr>msg_queue_free := None\<rparr>)"

text \<open>
  \<open>rt_mq_init\<close> on memory that the caller gives, and \<open>rt_mq_create\<close>: whether the object could be allocated,
  and the memory that was allocated for the pool, are given by the heap. A cell takes the bytes of the
  message and four for the pointer.
\<close>

definition mq_new :: "rt_mq_message list \<Rightarrow> u16 \<Rightarrow> u16 \<Rightarrow> rt_ipc_flag \<Rightarrow> rt_messagequeue" where
  "mq_new pool sz n flag = mq_free_all
     \<lparr>ipc_flag = flag, suspend_thread = [], msg_pool = pool, msg_size = sz, max_msgs = n, entry = 0,
      msg_queue_head = None, msg_queue_tail = None, msg_queue_free = None, suspend_sender_thread = []\<rparr>"

definition rt_mq_init :: "rt_mq_message list \<Rightarrow> u32 \<Rightarrow> u32 \<Rightarrow> rt_ipc_flag \<Rightarrow> rt_messagequeue" where
  "rt_mq_init pool sz pool_size flag =
     (let m = ucast (rt_align sz) in mq_new pool m (ucast (pool_size div (ucast m + 4))) flag)"

definition rt_mq_create ::
  "bool \<Rightarrow> rt_mq_message list option \<Rightarrow> u32 \<Rightarrow> u32 \<Rightarrow> rt_ipc_flag \<Rightarrow> rt_messagequeue option" where
  "rt_mq_create allocated memory sz n flag =
     (if \<not> allocated then None
      else case memory of
        None \<Rightarrow> None
      | Some pool \<Rightarrow> Some (mq_new pool (ucast (rt_align sz)) (ucast n) flag))"

section \<open>Sending\<close>

text \<open>
  \<open>rt_mq_send_wait\<close> up to the point where the thread has a cell, waits, or gives up. \<open>mq_send_loop\<close> is the
  condition and the body of the loop; it is entered again when the thread has been resumed.
\<close>

definition mq_send_loop :: "nat \<Rightarrow> u8 list \<Rightarrow> int \<Rightarrow> u32 \<Rightarrow> mq_sys \<Rightarrow> mq_sys" where
  "mq_send_loop t bs timeout tick_delta s =
     (case msg_queue_free (mq s) of
        Some i \<Rightarrow> goes_to t (Send_Copy False bs i) (set_mq (mq_take_free i) s)
      | None \<Rightarrow>
          let s = set_thread t (\<lambda>th. th\<lparr>th_error := RT_EOK\<rparr>) s
          in if timeout = 0 then goes_to t (Returned (- RT_EFULL) []) s
             else goes_to t (Send_Wait bs timeout (if timeout > 0 then tick s else tick_delta))
               (mq_suspend True t timeout s))"

definition mq_send_enter :: "nat \<Rightarrow> u8 list \<Rightarrow> int \<Rightarrow> mq_sys \<Rightarrow> mq_sys" where
  "mq_send_enter t bs timeout s =
     (if length bs > unat (msg_size (mq s)) then goes_to t (Returned (- RT_ERROR) []) s
      else if msg_queue_free (mq s) = None \<and> timeout = 0 then goes_to t (Returned (- RT_EFULL) []) s
      else mq_send_loop t bs timeout 0 s)"

definition mq_send_resumed :: "nat \<Rightarrow> u8 list \<Rightarrow> int \<Rightarrow> u32 \<Rightarrow> mq_sys \<Rightarrow> mq_sys" where
  "mq_send_resumed t bs timeout tick_delta s =
     (if th_error (threads s t) \<noteq> RT_EOK then goes_to t (Returned (th_error (threads s t)) []) s
      else mq_send_loop t bs (mq_time_left timeout tick_delta (tick s))
        (if timeout > 0 then tick s - tick_delta else tick_delta) s)"

text \<open>\<open>rt_mq_urgent\<close> up to its copy; it never waits.\<close>

definition mq_urgent_enter :: "nat \<Rightarrow> u8 list \<Rightarrow> mq_sys \<Rightarrow> mq_sys" where
  "mq_urgent_enter t bs s =
     (if length bs > unat (msg_size (mq s)) then goes_to t (Returned (- RT_ERROR) []) s
      else case msg_queue_free (mq s) of
        None \<Rightarrow> goes_to t (Returned (- RT_EFULL) []) s
      | Some i \<Rightarrow> goes_to t (Send_Copy True bs i) (set_mq (mq_take_free i) s))"

text \<open>The copy, with interrupts enabled, and the last critical section, of both functions.\<close>

definition mq_send_copy :: "nat \<Rightarrow> bool \<Rightarrow> u8 list \<Rightarrow> nat \<Rightarrow> mq_sys \<Rightarrow> mq_sys" where
  "mq_send_copy t urgent bs i s =
     goes_to t (Send_Link urgent bs i)
       (set_mq (set_cell i (\<lambda>c. mq_copy_in bs (if urgent then c else c\<lparr>next_msg := None\<rparr>))) s)"

definition mq_send_link :: "nat \<Rightarrow> bool \<Rightarrow> nat \<Rightarrow> mq_sys \<Rightarrow> mq_sys" where
  "mq_send_link t urgent i s =
     (let s = set_mq (if urgent then mq_push i else mq_link i) s
      in if entry (mq s) < RT_MQ_ENTRY_MAX
         then goes_to t (Returned RT_EOK []) (mq_wake False (set_mq (\<lambda>q. q\<lparr>entry := entry q + 1\<rparr>) s))
         else goes_to t (Returned (- RT_EFULL) []) s)"

section \<open>Receiving\<close>

text \<open>
  \<open>rt_mq_recv\<close> up to the point where the thread has a message, waits, or gives up. \<open>None\<close>: a null pointer
  is dereferenced.
\<close>

definition mq_recv_loop :: "nat \<Rightarrow> u32 \<Rightarrow> int \<Rightarrow> u32 \<Rightarrow> mq_sys \<Rightarrow> mq_sys option" where
  "mq_recv_loop t n timeout tick_delta s =
     (if entry (mq s) = 0 then
        Some (if timeout = 0
          then goes_to t (Returned (- RT_ETIMEOUT) []) (set_thread t (\<lambda>th. th\<lparr>th_error := - RT_ETIMEOUT\<rparr>) s)
          else goes_to t (Recv_Wait n timeout (if timeout > 0 then tick s else tick_delta))
            (mq_suspend False t timeout s))
      else case msg_queue_head (mq s) of
        None \<Rightarrow> None
      | Some i \<Rightarrow> Some (goes_to t (Recv_Copy n i)
          (set_mq (\<lambda>q. (mq_unlink i q)\<lparr>entry := entry q - 1\<rparr>) s)))"

definition mq_recv_enter :: "nat \<Rightarrow> u32 \<Rightarrow> int \<Rightarrow> mq_sys \<Rightarrow> mq_sys option" where
  "mq_recv_enter t n timeout s =
     (if entry (mq s) = 0 \<and> timeout = 0 then Some (goes_to t (Returned (- RT_ETIMEOUT) []) s)
      else mq_recv_loop t n timeout 0 s)"

definition mq_recv_resumed :: "nat \<Rightarrow> u32 \<Rightarrow> int \<Rightarrow> u32 \<Rightarrow> mq_sys \<Rightarrow> mq_sys option" where
  "mq_recv_resumed t n timeout tick_delta s =
     (if th_error (threads s t) \<noteq> RT_EOK then Some (goes_to t (Returned (th_error (threads s t)) []) s)
      else mq_recv_loop t n (mq_time_left timeout tick_delta (tick s))
        (if timeout > 0 then tick s - tick_delta else tick_delta) s)"

definition mq_recv_copy :: "nat \<Rightarrow> u32 \<Rightarrow> nat \<Rightarrow> mq_sys \<Rightarrow> mq_sys" where
  "mq_recv_copy t n i s =
     goes_to t (Recv_Put n i (take (min (unat n) (unat (msg_size (mq s)))) (payload (msg_pool (mq s) ! i)))) s"

definition mq_recv_put :: "nat \<Rightarrow> nat \<Rightarrow> u8 list \<Rightarrow> mq_sys \<Rightarrow> mq_sys" where
  "mq_recv_put t i bs s = goes_to t (Returned RT_EOK bs) (mq_wake True (set_mq (mq_put_free i) s))"

section \<open>Control\<close>

datatype rt_ipc_cmd = RT_IPC_CMD_RESET | Other_Cmd

definition mq_release_all :: "rt_messagequeue \<Rightarrow> rt_messagequeue option" where
  "mq_release_all = while_option (\<lambda>q. msg_queue_head q \<noteq> None)
     (\<lambda>q. case msg_queue_head q of None \<Rightarrow> q | Some i \<Rightarrow> mq_put_free i (mq_unlink i q))"

text \<open>The threads that wait for a message, and those that wait for a cell. \<open>None\<close>: a loop does not end.\<close>

definition mq_resume_waiting :: "mq_sys \<Rightarrow> mq_sys option" where
  "mq_resume_waiting s = do { s \<leftarrow> ipc_list_resume_all False s; ipc_list_resume_all True s }"

text \<open>\<open>rt_mq_control\<close>; \<open>rt_mq_detach\<close>; \<open>rt_mq_delete\<close>, which also frees the pool.\<close>

definition rt_mq_control :: "rt_ipc_cmd \<Rightarrow> mq_sys \<Rightarrow> (rt_err \<times> mq_sys) option" where
  "rt_mq_control cmd s =
     (if cmd = RT_IPC_CMD_RESET then do {
        s \<leftarrow> mq_resume_waiting s;
        q \<leftarrow> mq_release_all (mq s);
        Some (RT_EOK, s\<lparr>mq := q\<lparr>entry := 0\<rparr>\<rparr>) }
      else Some (- RT_ERROR, s))"

definition rt_mq_detach :: "mq_sys \<Rightarrow> (rt_err \<times> mq_sys) option" where
  "rt_mq_detach s = do { s \<leftarrow> mq_resume_waiting s; Some (RT_EOK, s) }"

definition rt_mq_delete :: "mq_sys \<Rightarrow> (rt_err \<times> mq_sys) option" where
  "rt_mq_delete s = do {
     s \<leftarrow> mq_resume_waiting s;
     Some (RT_EOK, set_mq (\<lambda>q. q\<lparr>msg_pool := []\<rparr>) s) }"

section \<open>The system\<close>

text \<open>A thread runs to the next point where interrupts are enabled.\<close>

definition mq_run :: "nat \<Rightarrow> mq_sys \<Rightarrow> mq_sys option" where
  "mq_run t s =
     (case pc_of s t of
        Returned _ _ \<Rightarrow> Some s
      | Send_Enter bs timeout \<Rightarrow> Some (mq_send_enter t bs timeout s)
      | Send_Wait bs timeout delta \<Rightarrow> Some (mq_send_resumed t bs timeout delta s)
      | Urgent_Enter bs \<Rightarrow> Some (mq_urgent_enter t bs s)
      | Send_Copy urgent bs i \<Rightarrow> Some (mq_send_copy t urgent bs i s)
      | Send_Link urgent bs i \<Rightarrow> Some (mq_send_link t urgent i s)
      | Recv_Enter n timeout \<Rightarrow> mq_recv_enter t n timeout s
      | Recv_Wait n timeout delta \<Rightarrow> mq_recv_resumed t n timeout delta s
      | Recv_Copy n i \<Rightarrow> Some (mq_recv_copy t n i s)
      | Recv_Put n i bs \<Rightarrow> Some (mq_recv_put t i bs s))"

text \<open>
  What a step does to the messages: nothing, the message of a sender comes last or first, a receiver
  takes the first one, all are dropped.
\<close>

datatype 'm fifo_label = Tau | Put 'm | Urgent 'm | Get 'm | Reset

definition mq_first :: "rt_messagequeue \<Rightarrow> u8 list fifo_label" where
  "mq_first q =
     (if entry q = 0 then Tau
      else case msg_queue_head q of None \<Rightarrow> Tau | Some i \<Rightarrow> Get (payload (msg_pool q ! i)))"

definition mq_label :: "nat \<Rightarrow> mq_sys \<Rightarrow> u8 list fifo_label" where
  "mq_label t s =
     (case pc_of s t of
        Send_Link urgent bs i \<Rightarrow>
          (if urgent then Urgent (payload (msg_pool (mq s) ! i)) else Put (payload (msg_pool (mq s) ! i)))
      | Recv_Enter n timeout \<Rightarrow> mq_first (mq s)
      | Recv_Wait n timeout delta \<Rightarrow> (if th_error (threads s t) = RT_EOK then mq_first (mq s) else Tau)
      | _ \<Rightarrow> Tau)"

text \<open>
  The steps of the system: a thread that is in no call makes one, with a buffer that is not empty; a
  thread that is not suspended runs; a timer expires; the queue is reset; time passes.
\<close>

inductive mq_step :: "mq_sys \<Rightarrow> u8 list fifo_label \<Rightarrow> mq_sys \<Rightarrow> bool" where
  call_send: "pc_of s t = Returned e r \<Longrightarrow> bs \<noteq> [] \<Longrightarrow> mq_step s Tau (goes_to t (Send_Enter bs timeout) s)"
| call_urgent: "pc_of s t = Returned e r \<Longrightarrow> bs \<noteq> [] \<Longrightarrow> mq_step s Tau (goes_to t (Urgent_Enter bs) s)"
| call_recv: "pc_of s t = Returned e r \<Longrightarrow> n \<noteq> 0 \<Longrightarrow> mq_step s Tau (goes_to t (Recv_Enter n timeout) s)"
| runs: "\<not> th_suspended (threads s t) \<Longrightarrow> mq_run t s = Some u \<Longrightarrow> mq_step s (mq_label t s) u"
| expires: "th_timer (threads s t) \<Longrightarrow> mq_step s Tau (rt_thread_timeout t s)"
| controls: "pc_of s t = Returned e r \<Longrightarrow> rt_mq_control cmd s = Some (e', u) \<Longrightarrow>
    mq_step s (if cmd = RT_IPC_CMD_RESET then Reset else Tau) (goes_to t (Returned e' []) u)"
| passes: "mq_step s Tau (s\<lparr>tick := tick s + d\<rparr>)"

end
