(* ===== verification/RtMessageQueueCells.thy ===== *)
theory RtMessageQueueCells
  imports RtMessageQueue
begin

text \<open>
  The cells of a message queue: \<open>cells_ok\<close> is the invariant of the linked lists, with the cells in the
  queue, the free ones and those that threads hold, and a lemma for each operation on them.
\<close>

section \<open>Linked lists\<close>

fun chain :: "rt_mq_message list \<Rightarrow> nat option \<Rightarrow> nat list \<Rightarrow> bool" where
  "chain pool h [] \<longleftrightarrow> h = None"
| "chain pool h (i # is) \<longleftrightarrow> h = Some i \<and> i < length pool \<and> chain pool (next_msg (pool ! i)) is"

lemma chain_unique: "chain pool h is \<Longrightarrow> chain pool h js \<Longrightarrow> is = js"
proof (induction "is" arbitrary: h js)
  case Nil
  then show ?case
    by (cases js) auto
next
  case (Cons i "is")
  then show ?case
    by (cases js) auto
qed

lemma chain_update: "i \<notin> set is \<Longrightarrow> chain (pool[i := c]) h is = chain pool h is"
  by (induction "is" arbitrary: h) (auto simp: nth_list_update)

lemma chain_bound: "chain pool h is \<Longrightarrow> i \<in> set is \<Longrightarrow> i < length pool"
  by (induction "is" arbitrary: h) auto

lemma chain_None: "chain pool None is \<longleftrightarrow> is = []"
  by (cases "is") auto

lemma chain_Some: "chain pool (Some i) is \<Longrightarrow> \<exists>js. is = i # js"
  by (cases "is") auto

lemma chain_append:
  assumes "chain pool h (is @ [k])" "k \<notin> set is" "i < length pool" "i \<noteq> k" "i \<notin> set is" "next_msg (pool ! i) = None"
  shows "chain (pool[k := (pool ! k)\<lparr>next_msg := Some i\<rparr>]) h (is @ [k, i])"
  using assms by (induction "is" arbitrary: h) (auto simp: nth_list_update chain_update)

text \<open>The cells from a pointer on, at most \<open>n\<close> of them: what the code would visit.\<close>

fun cells_from :: "rt_mq_message list \<Rightarrow> nat \<Rightarrow> nat option \<Rightarrow> nat list" where
  "cells_from pool 0 h = []"
| "cells_from pool (Suc n) h = (case h of None \<Rightarrow> [] | Some i \<Rightarrow> i # cells_from pool n (next_msg (pool ! i)))"

lemma cells_from_chain: "chain pool h is \<Longrightarrow> cells_from pool (length is) h = is"
  by (induction "is" arbitrary: h) auto

section \<open>The invariant\<close>

text \<open>
  \<open>held\<close> gives the cell a thread holds. Of \<open>n\<close> cells, those outside of \<open>A\<close> are held, each by one thread.
\<close>

definition owns :: "(nat \<Rightarrow> nat option) \<Rightarrow> nat \<Rightarrow> nat set \<Rightarrow> bool" where
  "owns held n A \<longleftrightarrow> inj_on held (dom held) \<and> ran held = {..<n} - A \<and> A \<subseteq> {..<n}"

lemma owns_held:
  assumes "owns held n A" "held t = Some i"
  shows "i < n" "i \<notin> A" "held t' = Some i \<Longrightarrow> t' = t"
proof -
  have "i \<in> ran held"
    using assms(2) by (rule ranI)
  then show "i < n" "i \<notin> A"
    using assms(1) by (simp_all add: owns_def)
  show "held t' = Some i \<Longrightarrow> t' = t"
    using assms by (auto simp: owns_def inj_on_def dom_def)
qed

lemma owns_take:
  assumes "owns held n (insert i A)" "i \<notin> A" "held t = None"
  shows "owns (held(t \<mapsto> i)) n A"
proof -
  have "\<And>t'. held t' \<noteq> Some i"
    using assms(1) owns_held(2) by blast
  then have "inj_on (held(t \<mapsto> i)) (dom (held(t \<mapsto> i)))"
    using assms(1) by (fastforce simp: owns_def inj_on_def dom_def)
  moreover have "ran (held(t \<mapsto> i)) = insert i (ran held)"
    using assms(3) by (rule ran_map_upd)
  ultimately show ?thesis
    using assms by (auto simp: owns_def)
qed

lemma owns_put:
  assumes "owns held n A" "held t = Some i"
  shows "owns (held(t := None)) n (insert i A)"
proof -
  have i: "held t' = Some i \<longleftrightarrow> t' = t" for t'
    using owns_held(3) [OF assms, of t'] assms(2) by blast
  have "j \<in> ran (held(t := None)) \<longleftrightarrow> j \<in> ran held - {i}" for j
    using i assms(2) by (cases "j = i") (auto simp: ran_def, metis option.inject)
  then have "ran (held(t := None)) = ran held - {i}"
    by blast
  moreover have "inj_on (held(t := None)) (dom (held(t := None)))"
    using assms(1) by (simp add: owns_def inj_on_def dom_def)
  ultimately show ?thesis
    using assms(1) owns_held(1) [OF assms] unfolding owns_def by blast
qed

text \<open>The payloads have the size of a message.\<close>

definition sized :: "nat \<Rightarrow> rt_mq_message list \<Rightarrow> bool" where
  "sized n pool \<longleftrightarrow> (\<forall>c\<in>set pool. length (payload c) = n)"

lemma sized_update [simp]: "sized n pool \<Longrightarrow> length (payload c) = n \<Longrightarrow> sized n (pool[i := c])"
  by (auto simp: sized_def dest!: set_update_subset_insert [THEN subsetD])

lemma sized_nth [simp]: "sized n pool \<Longrightarrow> i < length pool \<Longrightarrow> length (payload (pool ! i)) = n"
  by (simp add: sized_def)

text \<open>Every cell is in the queue, free or held, and in one place only; \<open>entry\<close> counts the queue.\<close>

definition cells_ok :: "rt_messagequeue \<Rightarrow> (nat \<Rightarrow> nat option) \<Rightarrow> nat list \<Rightarrow> nat list \<Rightarrow> bool" where
  "cells_ok q held qs fs \<longleftrightarrow>
     chain (msg_pool q) (msg_queue_head q) qs \<and> chain (msg_pool q) (msg_queue_free q) fs \<and>
     msg_queue_tail q = (if qs = [] then None else Some (last qs)) \<and> unat (entry q) = length qs \<and>
     distinct (qs @ fs) \<and> owns held (length (msg_pool q)) (set (qs @ fs)) \<and>
     unat (max_msgs q) = length (msg_pool q) \<and>
     sized (unat (msg_size q)) (msg_pool q)"

lemma cells_ok_cong:
  "cells_ok q held qs fs \<Longrightarrow> msg_pool q' = msg_pool q \<Longrightarrow> msg_queue_head q' = msg_queue_head q \<Longrightarrow>
     msg_queue_free q' = msg_queue_free q \<Longrightarrow> msg_queue_tail q' = msg_queue_tail q \<Longrightarrow> entry q' = entry q \<Longrightarrow>
     max_msgs q' = max_msgs q \<Longrightarrow> msg_size q' = msg_size q \<Longrightarrow> cells_ok q' held qs fs"
  by (simp add: cells_ok_def)

lemma cells_ok_unique:
  "cells_ok q held qs fs \<Longrightarrow> cells_ok q held' qs' fs' \<Longrightarrow> qs' = qs \<and> fs' = fs"
  unfolding cells_ok_def using chain_unique by blast

lemma cells_held:
  assumes "cells_ok q held qs fs" "held t = Some i"
  shows "i < length (msg_pool q)" "i \<notin> set qs" "i \<notin> set fs"
    "owns (held(t := None)) (length (msg_pool q)) (insert i (set (qs @ fs)))"
proof -
  have own: "owns held (length (msg_pool q)) (set (qs @ fs))"
    using assms(1) by (simp add: cells_ok_def)
  show "i < length (msg_pool q)" "i \<notin> set qs" "i \<notin> set fs"
    using owns_held(1,2) [where t = t, OF own assms(2)] by simp_all
  show "owns (held(t := None)) (length (msg_pool q)) (insert i (set (qs @ fs)))"
    by (rule owns_put [where t = t, OF own assms(2)])
qed

lemma take_free_ok:
  assumes "cells_ok q held qs (i # fs)" "held t = None"
  shows "cells_ok (mq_take_free i q) (held(t \<mapsto> i)) qs fs"
proof -
  have "owns (held(t \<mapsto> i)) (length (msg_pool q)) (set (qs @ fs))"
    by (rule owns_take [where t = t]) (use assms in \<open>simp_all add: cells_ok_def\<close>)
  then show ?thesis
    using assms(1) by (simp add: cells_ok_def mq_take_free_def)
qed

lemma fill_ok:
  assumes "cells_ok q held qs fs" "held t = Some i" "length (payload (f (msg_pool q ! i))) = unat (msg_size q)"
  shows "cells_ok (set_cell i f q) held qs fs"
  using assms(1,3) cells_held [OF assms(1,2)]
  by (simp add: cells_ok_def set_cell_def chain_update)

lemma put_free_ok:
  assumes "cells_ok q held qs fs" "held t = Some i"
  shows "cells_ok (mq_put_free i q) (held(t := None)) qs (i # fs)"
  using assms(1) cells_held [OF assms]
  by (simp add: cells_ok_def mq_put_free_def set_cell_def chain_update)

lemma room:
  assumes "cells_ok q held qs fs" "held t = Some i"
  shows "length qs < 65535" "entry q < RT_MQ_ENTRY_MAX"
proof -
  have "set (i # qs) \<subseteq> {..<length (msg_pool q)}" "distinct (i # qs)"
    using cells_held [OF assms] assms(1) by (auto simp: cells_ok_def owns_def)
  then have "length (i # qs) \<le> length (msg_pool q)"
    using card_mono [of "{..<length (msg_pool q)}" "set (i # qs)"] distinct_card [of "i # qs"] by simp
  then show n: "length qs < 65535"
    using assms(1) unat_u16 [of "max_msgs q"] by (simp add: cells_ok_def)
  then show "entry q < RT_MQ_ENTRY_MAX"
    using assms(1) by (simp add: cells_ok_def RT_MQ_ENTRY_MAX_def word_less_nat_alt)
qed

lemma counted:
  assumes "cells_ok q held qs fs" "held t = Some i"
  shows "unat (entry q + 1) = Suc (length qs)"
  using room [OF assms] assms(1)
  by (subst unat_add_lem [THEN iffD1]) (simp_all add: cells_ok_def)

lemma link_ok:
  assumes ok: "cells_ok q held qs fs" and t: "held t = Some i" and last: "next_msg (msg_pool q ! i) = None"
  shows "cells_ok ((mq_link i q)\<lparr>entry := entry q + 1\<rparr>) (held(t := None)) (qs @ [i]) fs"
proof (cases qs rule: rev_cases)
  case Nil
  then show ?thesis
    using ok cells_held [OF ok t] last counted [OF ok t] by (simp add: cells_ok_def mq_link_def)
next
  case (snoc ks k)
  note i = cells_held [OF ok t]
  have k: "k \<notin> set fs" "k \<noteq> i" "i \<notin> set ks" "k \<notin> set ks" "k < length (msg_pool q)"
    using ok i snoc chain_bound [of "msg_pool q" "msg_queue_head q" qs k] by (auto simp: cells_ok_def)
  have "chain ((msg_pool q)[k := (msg_pool q ! k)\<lparr>next_msg := Some i\<rparr>]) (msg_queue_head q) (ks @ [k, i])"
    by (rule chain_append) (use ok snoc k i last in \<open>auto simp: cells_ok_def\<close>)
  moreover obtain j where "msg_queue_head q = Some j"
    using ok snoc by (cases ks) (auto simp: cells_ok_def)
  ultimately show ?thesis
    using ok i k snoc counted [OF ok t]
    by (simp add: cells_ok_def mq_link_def set_cell_def chain_update insert_commute Let_def)
qed

lemma push_ok:
  assumes ok: "cells_ok q held qs fs" and t: "held t = Some i"
  shows "cells_ok ((mq_push i q)\<lparr>entry := entry q + 1\<rparr>) (held(t := None)) (i # qs) fs"
  using ok cells_held [OF ok t] counted [OF ok t]
  by (cases qs) (simp_all add: cells_ok_def mq_push_def set_cell_def chain_update Let_def)

lemma unlink_fields [simp]:
  "msg_pool (mq_unlink i q) = msg_pool q" "msg_queue_free (mq_unlink i q) = msg_queue_free q"
  "entry (mq_unlink i q) = entry q" "max_msgs (mq_unlink i q) = max_msgs q" "msg_size (mq_unlink i q) = msg_size q"
  "msg_queue_head (mq_unlink i q) = next_msg (msg_pool q ! i)"
  by (simp_all add: mq_unlink_def Let_def)

lemma unlink_tail:
  "cells_ok q held (i # qs) fs \<Longrightarrow>
     msg_queue_tail (mq_unlink i q) = (if qs = [] then None else Some (last qs))"
  by (auto simp: cells_ok_def mq_unlink_def Let_def dest: last_in_set)

lemma unlink_ok:
  assumes ok: "cells_ok q held (i # qs) fs" and t: "held t = None"
  shows "cells_ok ((mq_unlink i q)\<lparr>entry := entry q - 1\<rparr>) (held(t \<mapsto> i)) qs fs"
proof -
  have "owns (held(t \<mapsto> i)) (length (msg_pool q)) (set (qs @ fs))"
    by (rule owns_take [where t = t]) (use ok t in \<open>simp_all add: cells_ok_def\<close>)
  moreover have "unat (entry q - 1) = length qs"
    using ok by (subst unat_minus_one) (auto simp: cells_ok_def)
  ultimately show ?thesis
    using ok unlink_tail [OF ok] by (simp add: cells_ok_def)
qed

text \<open>A release of all messages, cell by cell; \<open>entry\<close> is only set at the end.\<close>

lemma release_ok:
  assumes "cells_ok q held qs fs"
  shows "\<exists>q'. mq_release_all q = Some q' \<and> cells_ok (q'\<lparr>entry := 0\<rparr>) held [] (rev qs @ fs) \<and>
    suspend_thread q' = suspend_thread q \<and> suspend_sender_thread q' = suspend_sender_thread q \<and>
    msg_size q' = msg_size q \<and> (\<forall>j. j \<notin> set qs \<longrightarrow> msg_pool q' ! j = msg_pool q ! j)"
proof -
  have "\<exists>q'. mq_release_all q = Some q' \<and> cells_ok (q'\<lparr>entry := 0\<rparr>) held [] (rev qs @ fs) \<and>
    suspend_thread q' = suspend_thread q \<and> suspend_sender_thread q' = suspend_sender_thread q \<and>
    msg_size q' = msg_size q \<and> (\<forall>j. j \<notin> set qs \<longrightarrow> msg_pool q' ! j = msg_pool q ! j)"
    if "cells_ok (q\<lparr>entry := of_nat (length qs)\<rparr>) held qs fs" for q
    using that
  proof (induction qs arbitrary: q fs)
    case Nil
    then have "msg_queue_head q = None"
      by (simp add: cells_ok_def)
    then show ?case
      using Nil by (simp add: mq_release_all_def while_option_unfold)
  next
    case (Cons i qs)
    let ?q = "mq_put_free i (mq_unlink i q)"
    have head: "msg_queue_head q = Some i" and i: "i < length (msg_pool q)" "i \<notin> set qs" "i \<notin> set fs"
      using Cons.prems by (simp_all add: cells_ok_def)
    have n: "length (i # qs) < 65536"
      using Cons.prems unat_u16 [of "of_nat (length (i # qs))"] by (simp add: cells_ok_def)
    have tail: "msg_queue_tail (mq_unlink i q) = (if qs = [] then None else Some (last qs))"
      using unlink_tail [OF Cons.prems] by (simp add: mq_unlink_def Let_def split: if_splits)
    have "cells_ok (?q\<lparr>entry := of_nat (length qs)\<rparr>) held qs (i # fs)"
      using Cons.prems i tail n
      by (simp add: cells_ok_def mq_put_free_def set_cell_def chain_update unat_of_nat)
    from Cons.IH [OF this] obtain q' where q': "mq_release_all ?q = Some q'"
      "cells_ok (q'\<lparr>entry := 0\<rparr>) held [] (rev qs @ i # fs)"
      "suspend_thread q' = suspend_thread ?q" "suspend_sender_thread q' = suspend_sender_thread ?q"
      "msg_size q' = msg_size ?q" "\<forall>j. j \<notin> set qs \<longrightarrow> msg_pool q' ! j = msg_pool ?q ! j"
      by auto
    have "suspend_thread ?q = suspend_thread q" "suspend_sender_thread ?q = suspend_sender_thread q"
      "msg_size ?q = msg_size q" "\<forall>j. j \<noteq> i \<longrightarrow> msg_pool ?q ! j = msg_pool q ! j"
      by (auto simp: mq_put_free_def mq_unlink_def set_cell_def Let_def intro: nth_list_update_neq)
    moreover have "mq_release_all q = mq_release_all ?q"
      unfolding mq_release_all_def by (subst while_option_unfold) (simp add: head)
    ultimately show ?case
      using q' by simp
  qed
  moreover have "q\<lparr>entry := of_nat (length qs)\<rparr> = q"
  proof -
    have "unat (entry q) = length qs"
      using assms by (simp add: cells_ok_def)
    then have "of_nat (length qs) = entry q"
      using unat_u16 [of "entry q"] by (simp add: word_unat_eq_iff unat_of_nat)
    then show ?thesis
      by simp
  qed
  ultimately show ?thesis
    using assms by metis
qed

text \<open>A new queue: all cells are free.\<close>

lemma free_all_ok:
  assumes "length (msg_pool q) = unat (max_msgs q)" "sized (unat (msg_size q)) (msg_pool q)"
    and "entry q = 0" "msg_queue_head q = None" "msg_queue_tail q = None"
  shows "cells_ok (mq_free_all q) (\<lambda>_. None) [] (rev [0..<unat (max_msgs q)])"
proof -
  let ?f = "\<lambda>n. fold mq_put_free [0..<n] (q\<lparr>msg_queue_free := None\<rparr>)"
  have "chain (msg_pool (?f n)) (msg_queue_free (?f n)) (rev [0..<n]) \<and> length (msg_pool (?f n)) = unat (max_msgs q) \<and>
      sized (unat (msg_size q)) (msg_pool (?f n)) \<and>
      entry (?f n) = 0 \<and> msg_queue_head (?f n) = None \<and> msg_queue_tail (?f n) = None \<and>
      max_msgs (?f n) = max_msgs q \<and> msg_size (?f n) = msg_size q" if "n \<le> unat (max_msgs q)" for n
    using that
  proof (induction n)
    case 0
    then show ?case
      using assms by simp
  next
    case (Suc n)
    then show ?case
      by (simp add: mq_put_free_def set_cell_def chain_update)
  qed
  from this [of "unat (max_msgs q)"] show ?thesis
    by (simp add: cells_ok_def mq_free_all_def owns_def) auto
qed

end
