(* ===== verification/RtMessageQueueRuns.thy ===== *)
theory RtMessageQueueRuns
  imports RtMessageQueueCells
begin

text \<open>
  The message queue with all its threads: the invariant of the system, kept by every step; from it, that
  messages come out in the order they went in, that no cell is lost and no null pointer is followed, and
  that no thread sleeps while there is something for it that no other thread is about to take.
\<close>

section \<open>The invariant of the system\<close>

fun cell_of :: "mq_pc \<Rightarrow> nat option" where
  "cell_of (Send_Copy urgent bs i) = Some i"
| "cell_of (Send_Link urgent bs i) = Some i"
| "cell_of (Recv_Copy n i) = Some i"
| "cell_of (Recv_Put n i bs) = Some i"
| "cell_of _ = None"

definition held :: "mq_sys \<Rightarrow> nat \<Rightarrow> nat option" where
  "held s t = cell_of (pc_of s t)"

text \<open>What a thread knows of its message and of its cell, which no other thread touches.\<close>

fun local_ok :: "rt_messagequeue \<Rightarrow> mq_pc \<Rightarrow> bool" where
  "local_ok q (Send_Wait bs timeout delta) \<longleftrightarrow> length bs \<le> unat (msg_size q)"
| "local_ok q (Send_Copy urgent bs i) \<longleftrightarrow> length bs \<le> unat (msg_size q)"
| "local_ok q (Send_Link urgent bs i) \<longleftrightarrow> length bs \<le> unat (msg_size q) \<and>
     take (length bs) (payload (msg_pool q ! i)) = bs \<and> (\<not> urgent \<longrightarrow> next_msg (msg_pool q ! i) = None)"
| "local_ok q (Recv_Put n i bs) \<longleftrightarrow>
     bs = take (min (unat n) (unat (msg_size q))) (payload (msg_pool q ! i))"
| "local_ok q _ \<longleftrightarrow> True"

lemma local_cong:
  "local_ok q pc \<Longrightarrow> msg_size q' = msg_size q \<Longrightarrow>
     (\<And>i. cell_of pc = Some i \<Longrightarrow> msg_pool q' ! i = msg_pool q ! i) \<Longrightarrow> local_ok q' pc"
  by (cases "(q, pc)" rule: local_ok.cases) simp_all

text \<open>The threads in the lists are those that are suspended in the respective wait.\<close>

fun waits :: "bool \<Rightarrow> mq_pc \<Rightarrow> bool" where
  "waits sender (Send_Wait bs timeout delta) \<longleftrightarrow> sender"
| "waits sender (Recv_Wait n timeout delta) \<longleftrightarrow> \<not> sender"
| "waits sender _ \<longleftrightarrow> False"

lemma waits_one: "waits b pc \<Longrightarrow> waits b' pc \<Longrightarrow> b' = b"
  by (cases pc) auto

lemma waits_cell: "waits b pc \<Longrightarrow> cell_of pc = None"
  by (cases pc) auto

definition sched_ok :: "mq_sys \<Rightarrow> bool" where
  "sched_ok s \<longleftrightarrow>
     (\<forall>b. distinct (waiting_list b s) \<and>
        (\<forall>t. t \<in> set (waiting_list b s) \<longleftrightarrow> th_suspended (threads s t) \<and> waits b (pc_of s t))) \<and>
     (\<forall>t. (th_suspended (threads s t) \<longrightarrow> (\<exists>b. waits b (pc_of s t)) \<and> th_error (threads s t) = RT_EOK) \<and>
        (th_timer (threads s t) \<longrightarrow> th_suspended (threads s t)))"

text \<open>
  The threads that were woken to look again, and have not yet; as long as any other thread waits, there
  are at least \<open>n\<close> of them, the number of messages or of free cells.
\<close>

definition woken :: "bool \<Rightarrow> mq_sys \<Rightarrow> nat set" where
  "woken b s = {t. waits b (pc_of s t) \<and> \<not> th_suspended (threads s t) \<and> th_error (threads s t) = RT_EOK}"

definition wake_ok :: "bool \<Rightarrow> mq_sys \<Rightarrow> nat \<Rightarrow> bool" where
  "wake_ok b s n \<longleftrightarrow> finite (woken b s) \<and> (waiting_list b s \<noteq> [] \<longrightarrow> n \<le> card (woken b s))"

definition mq_ok :: "mq_sys \<Rightarrow> nat list \<Rightarrow> nat list \<Rightarrow> bool" where
  "mq_ok s qs fs \<longleftrightarrow> cells_ok (mq s) (held s) qs fs \<and> sched_ok s \<and> (\<forall>t. local_ok (mq s) (pc_of s t)) \<and>
     wake_ok False s (length qs) \<and> wake_ok True s (length fs)"

section \<open>Single changes\<close>

lemma held_set [simp]:
  "held (s\<lparr>mq := q\<rparr>) = held s" "held (s\<lparr>tick := n\<rparr>) = held s"
  "held (s\<lparr>threads := (threads s)(t := th)\<rparr>) = (held s)(t := cell_of (th_pc th))"
  "held (s\<lparr>mq := q, threads := (threads s)(t := th)\<rparr>) = (held s)(t := cell_of (th_pc th))"
  by (auto simp: held_def)

lemma waiting_set [simp]:
  "waiting_list b (s\<lparr>threads := ths\<rparr>) = waiting_list b s" "waiting_list b (s\<lparr>tick := n\<rparr>) = waiting_list b s"
  by (simp_all add: waiting_list_def)

lemma woken_set [simp]: "woken b (s\<lparr>mq := q\<rparr>) = woken b s" "woken b (s\<lparr>tick := n\<rparr>) = woken b s"
  by (simp_all add: woken_def)

lemma sched_waits:
  assumes "sched_ok s"
  shows "t \<in> set (waiting_list b s) \<longleftrightarrow> th_suspended (threads s t) \<and> waits b (pc_of s t)"
    "th_suspended (threads s t) \<Longrightarrow> th_error (threads s t) = RT_EOK"
    "th_suspended (threads s t) \<Longrightarrow> \<exists>b. waits b (pc_of s t)"
    "th_timer (threads s t) \<Longrightarrow> th_suspended (threads s t)" "distinct (waiting_list b s)"
  using assms unfolding sched_ok_def by blast+

text \<open>A thread that is not suspended goes on, to a place where it does not wait.\<close>

lemma goes_sched:
  "sched_ok s \<Longrightarrow> \<not> th_suspended (threads s t) \<Longrightarrow> \<not> th_suspended th \<Longrightarrow> \<not> th_timer th \<Longrightarrow>
     sched_ok (s\<lparr>threads := (threads s)(t := th)\<rparr>)"
  by (auto simp: sched_ok_def)

lemma woken_update:
  "woken b (s\<lparr>threads := (threads s)(t := th)\<rparr>) =
     (if waits b (th_pc th) \<and> \<not> th_suspended th \<and> th_error th = RT_EOK then insert t (woken b s)
      else woken b s - {t})"
  by (auto simp: woken_def)

lemma wake_leave:
  assumes "wake_ok b s n" "n' \<le> n" "t \<in> woken b s \<Longrightarrow> n' = 0 \<or> n' < n" "\<not> (waits b (th_pc th) \<and> \<not> th_suspended th)"
  shows "wake_ok b (s\<lparr>threads := (threads s)(t := th)\<rparr>) n'"
proof -
  have w: "woken b (s\<lparr>threads := (threads s)(t := th)\<rparr>) = woken b s - {t}"
    using assms(4) by (auto simp: woken_update)
  have fin: "finite (woken b s)"
    using assms(1) by (simp add: wake_ok_def)
  have "n' \<le> card (woken b s - {t})" if "waiting_list b s \<noteq> []"
  proof (cases "t \<in> woken b s")
    case True
    have "n \<le> card (woken b s)"
      using assms(1) that by (simp add: wake_ok_def)
    then show ?thesis
      using assms(3) [OF True] card_Suc_Diff1 [OF fin True] by linarith
  next
    case False
    then show ?thesis
      using assms(1,2) that by (simp add: wake_ok_def)
  qed
  then show ?thesis
    unfolding wake_ok_def w using fin by simp
qed

lemma wake_set:
  assumes "suspend_thread q = suspend_thread (mq s)" "suspend_sender_thread q = suspend_sender_thread (mq s)"
  shows "waiting_list b (s\<lparr>mq := q\<rparr>) = waiting_list b s" "wake_ok b s n \<Longrightarrow> wake_ok b (s\<lparr>mq := q\<rparr>) n"
    "sched_ok s \<Longrightarrow> sched_ok (s\<lparr>mq := q\<rparr>)"
proof -
  show w: "waiting_list b (s\<lparr>mq := q\<rparr>) = waiting_list b s" for b
    using assms by (simp add: waiting_list_def)
  show "wake_ok b s n \<Longrightarrow> wake_ok b (s\<lparr>mq := q\<rparr>) n" "sched_ok s \<Longrightarrow> sched_ok (s\<lparr>mq := q\<rparr>)"
    by (simp_all add: wake_ok_def sched_ok_def w)
qed

lemma not_woken: "\<not> waits b (pc_of s t) \<Longrightarrow> t \<notin> woken b s"
  by (simp add: woken_def)

text \<open>Resuming a thread.\<close>

lemma unlist_list: "waiting_list b (s\<lparr>mq := mq_unlist t (mq s)\<rparr>) = removeAll t (waiting_list b s)"
  by (simp add: waiting_list_def mq_unlist_def)

lemma unlist_fields [simp]:
  "msg_pool (mq_unlist t q) = msg_pool q" "msg_size (mq_unlist t q) = msg_size q"
  "entry (mq_unlist t q) = entry q" "max_msgs (mq_unlist t q) = max_msgs q"
  "msg_queue_head (mq_unlist t q) = msg_queue_head q" "msg_queue_tail (mq_unlist t q) = msg_queue_tail q"
  "msg_queue_free (mq_unlist t q) = msg_queue_free q" "ipc_flag (mq_unlist t q) = ipc_flag q"
  by (simp_all add: mq_unlist_def)

text \<open>A suspended thread is taken off its list, for whatever reason.\<close>

definition takes_off :: "nat \<Rightarrow> rt_err \<Rightarrow> mq_sys \<Rightarrow> mq_sys" where
  "takes_off t e s = s\<lparr>mq := mq_unlist t (mq s),
     threads := (threads s)(t := (threads s t)\<lparr>th_error := e, th_suspended := False, th_timer := False\<rparr>)\<rparr>"

lemma takes_off_fields [simp]:
  "pc_of (takes_off t e s) t' = pc_of s t'" "held (takes_off t e s) = held s"
  "msg_pool (mq (takes_off t e s)) = msg_pool (mq s)" "msg_size (mq (takes_off t e s)) = msg_size (mq s)"
  "waiting_list b (takes_off t e s) = removeAll t (waiting_list b s)"
  by (auto simp: takes_off_def held_def waiting_list_def mq_unlist_def)

lemma takes_off_sched:
  "sched_ok s \<Longrightarrow> sched_ok (takes_off t e s)"
  unfolding sched_ok_def by (simp add: distinct_removeAll) (auto simp: takes_off_def)

lemma takes_off_cells: "cells_ok (mq s) h qs fs \<Longrightarrow> cells_ok (mq (takes_off t e s)) h qs fs"
  by (erule cells_ok_cong) (simp_all add: takes_off_def)

lemma takes_off_woken:
  "th_suspended (threads s t) \<Longrightarrow> woken b (takes_off t e s) =
     (if e = RT_EOK \<and> waits b (pc_of s t) then insert t (woken b s) else woken b s)"
  by (auto simp: woken_def takes_off_def)

lemma takes_off_wake:
  assumes "wake_ok b s n" "th_suspended (threads s t)"
  shows "wake_ok b (takes_off t e s) n"
  using assms card_insert_le [of "woken b s" t]
  by (auto simp: wake_ok_def takes_off_woken intro: le_trans)

lemma takes_off_ok:
  assumes "mq_ok s qs fs" "th_suspended (threads s t)"
  shows "mq_ok (takes_off t e s) qs fs"
  using assms takes_off_cells takes_off_sched takes_off_wake
  by (auto simp: mq_ok_def intro: local_cong)

lemma resume_takes_off:
  "th_suspended (threads s t) \<Longrightarrow> rt_thread_resume t s = takes_off t (th_error (threads s t)) s"
  by (simp add: rt_thread_resume_def takes_off_def)

lemma timeout_takes_off: "rt_thread_timeout t s = takes_off t (- RT_ETIMEOUT) s"
  by (simp add: rt_thread_timeout_def takes_off_def)

text \<open>Waking the first thread that waits makes up for one more message or free cell.\<close>

lemma wake_first:
  assumes "sched_ok s" "waiting_list b s = t # ts"
  shows "th_suspended (threads s t)" "waits b (pc_of s t)" "mq_wake b s = takes_off t RT_EOK s"
proof -
  show t: "th_suspended (threads s t)" "waits b (pc_of s t)"
    using sched_waits(1) [OF assms(1), of t b] assms(2) by simp_all
  then show "mq_wake b s = takes_off t RT_EOK s"
    using resume_takes_off [OF t(1)] sched_waits(2) [OF assms(1) t(1)] assms(2) by (simp add: mq_wake_def)
qed

lemma wake_more:
  assumes "sched_ok s" "wake_ok b s n"
  shows "wake_ok b (mq_wake b s) (Suc n)"
proof (cases "waiting_list b s")
  case Nil
  then show ?thesis
    using assms by (simp add: mq_wake_def wake_ok_def)
next
  case (Cons t ts)
  note t = wake_first [OF assms(1) Cons]
  have "t \<notin> woken b s"
    using t by (simp add: woken_def)
  then show ?thesis
    using assms(2) t Cons by (simp add: wake_ok_def takes_off_woken)
qed

lemma wake_cases:
  assumes "sched_ok s"
  obtains "mq_wake b s = s" | t where "th_suspended (threads s t)" "mq_wake b s = takes_off t RT_EOK s"
  using wake_first [OF assms, of b] by (cases "waiting_list b s") (auto simp: mq_wake_def)

lemma wake_keeps:
  assumes "sched_ok s"
  shows "sched_ok (mq_wake b s)" "wake_ok b' s n \<Longrightarrow> wake_ok b' (mq_wake b s) n"
    "cells_ok (mq s) h qs fs \<Longrightarrow> cells_ok (mq (mq_wake b s)) h qs fs" "held (mq_wake b s) = held s"
    "pc_of (mq_wake b s) t = pc_of s t" "msg_pool (mq (mq_wake b s)) = msg_pool (mq s)"
    "msg_size (mq (mq_wake b s)) = msg_size (mq s)"
    "\<not> th_suspended (threads s t) \<Longrightarrow> \<not> th_suspended (threads (mq_wake b s) t)"
proof -
  have "mq_wake b s = s \<or> (\<exists>t. th_suspended (threads s t) \<and> mq_wake b s = takes_off t RT_EOK s)"
    using wake_cases [OF assms, of b] by metis
  then show "sched_ok (mq_wake b s)" "wake_ok b' s n \<Longrightarrow> wake_ok b' (mq_wake b s) n"
    "cells_ok (mq s) h qs fs \<Longrightarrow> cells_ok (mq (mq_wake b s)) h qs fs" "held (mq_wake b s) = held s"
    "pc_of (mq_wake b s) t = pc_of s t" "msg_pool (mq (mq_wake b s)) = msg_pool (mq s)"
    "msg_size (mq (mq_wake b s)) = msg_size (mq s)"
    using assms takes_off_sched takes_off_wake takes_off_cells by auto
  show "\<not> th_suspended (threads s t) \<Longrightarrow> \<not> th_suspended (threads (mq_wake b s) t)"
    using \<open>mq_wake b s = s \<or> _\<close> by (auto simp: takes_off_def split: if_splits)
qed

section \<open>Moves of a thread\<close>

text \<open>The cells that other threads hold are the same in two queues.\<close>

definition same_elsewhere :: "nat \<Rightarrow> mq_sys \<Rightarrow> rt_messagequeue \<Rightarrow> bool" where
  "same_elsewhere t s q \<longleftrightarrow> msg_size q = msg_size (mq s) \<and>
     suspend_thread q = suspend_thread (mq s) \<and> suspend_sender_thread q = suspend_sender_thread (mq s) \<and>
     (\<forall>t' i. t' \<noteq> t \<longrightarrow> held s t' = Some i \<longrightarrow> msg_pool q ! i = msg_pool (mq s) ! i)"

lemma same_local:
  "mq_ok s qs fs \<Longrightarrow> same_elsewhere t s q \<Longrightarrow> t' \<noteq> t \<Longrightarrow> local_ok q (pc_of s t')"
  by (rule local_cong [of "mq s"]) (auto simp: mq_ok_def same_elsewhere_def held_def)

lemma same_refl: "same_elsewhere t s (mq s)"
  by (simp add: same_elsewhere_def)

text \<open>A thread goes on without anything to wake others for.\<close>

lemma go_ok:
  assumes ok: "mq_ok s qs fs" and t: "\<not> th_suspended (threads s t)" "\<not> th_suspended th" "\<not> th_timer th"
    and cells: "cells_ok q ((held s)(t := cell_of (th_pc th))) qs' fs'" and same: "same_elsewhere t s q"
    and pc: "local_ok q (th_pc th)" "\<And>b. \<not> waits b (th_pc th)"
    and less: "length qs' \<le> length qs" "t \<in> woken False s \<Longrightarrow> length qs' = 0 \<or> length qs' < length qs"
      "length fs' \<le> length fs" "t \<in> woken True s \<Longrightarrow> length fs' = 0 \<or> length fs' < length fs"
  shows "mq_ok (s\<lparr>mq := q, threads := (threads s)(t := th)\<rparr>) qs' fs'"
proof -
  let ?s = "s\<lparr>mq := q\<rparr>"
  have lists: "suspend_thread q = suspend_thread (mq s)" "suspend_sender_thread q = suspend_sender_thread (mq s)"
    using same by (simp_all add: same_elsewhere_def)
  have "sched_ok ?s" "wake_ok False ?s (length qs)" "wake_ok True ?s (length fs)"
    using ok wake_set [OF lists] by (simp_all add: mq_ok_def)
  then have "sched_ok (?s\<lparr>threads := (threads ?s)(t := th)\<rparr>)"
    "wake_ok False (?s\<lparr>threads := (threads ?s)(t := th)\<rparr>) (length qs')"
    "wake_ok True (?s\<lparr>threads := (threads ?s)(t := th)\<rparr>) (length fs')"
    using goes_sched [of ?s t th] wake_leave [of False ?s "length qs" "length qs'" t th]
      wake_leave [of True ?s "length fs" "length fs'" t th] t pc(2) less by simp_all
  then show ?thesis
    using cells same_local [OF ok same] pc(1) by (simp add: mq_ok_def)
qed

text \<open>A thread leaves a cell in the queue or in the list of free cells, and wakes another one.\<close>

lemma provide_ok:
  assumes ok: "mq_ok s qs fs" and t: "\<not> th_suspended (threads s t)" "\<And>b. \<not> waits b (pc_of s t)"
    and cells: "cells_ok q ((held s)(t := None)) qs' fs'" and same: "same_elsewhere t s q"
    and more: "length qs' = (if b then length qs else Suc (length qs))"
      "length fs' = (if b then Suc (length fs) else length fs)"
  shows "mq_ok (goes_to t (Returned e r) (mq_wake b (s\<lparr>mq := q\<rparr>))) qs' fs'"
proof -
  let ?s = "s\<lparr>mq := q\<rparr>" and ?u = "mq_wake b (s\<lparr>mq := q\<rparr>)"
  have lists: "suspend_thread q = suspend_thread (mq s)" "suspend_sender_thread q = suspend_sender_thread (mq s)"
    using same by (simp_all add: same_elsewhere_def)
  have s: "sched_ok ?s" "wake_ok False ?s (length qs)" "wake_ok True ?s (length fs)"
    using ok wake_set [OF lists] by (simp_all add: mq_ok_def)
  note keeps = wake_keeps [OF s(1), where b = b]
  have wake: "wake_ok False ?u (length qs')" "wake_ok True ?u (length fs')"
    using wake_more [OF s(1)] keeps(2) s(2,3) more by (cases b; simp)+
  have off: "\<not> th_suspended (threads ?u t)"
    using keeps(8) t(1) by simp
  then have "\<not> th_timer (threads ?u t)"
    using sched_waits(4) [OF keeps(1)] by blast
  then have "sched_ok (goes_to t (Returned e r) ?u)" "wake_ok False (goes_to t (Returned e r) ?u) (length qs')"
    "wake_ok True (goes_to t (Returned e r) ?u) (length fs')"
    using goes_sched [OF keeps(1) off] wake off t(2) not_woken [of _ ?u t] keeps(5)
    by (auto intro!: wake_leave [OF wake(1)] wake_leave [OF wake(2)])
  moreover have "local_ok (mq ?u) (pc_of s t')" if "t' \<noteq> t" for t'
    using same_local [OF ok same that] keeps(6,7) by (auto intro: local_cong)
  ultimately show ?thesis
    using keeps(3) [of "(held s)(t := None)" qs' fs'] cells keeps(4) by (simp add: mq_ok_def keeps(5))
qed

text \<open>A thread is suspended, when there is nothing for it.\<close>

lemma suspend_ok:
  assumes ok: "mq_ok s qs fs" and t: "\<not> th_suspended (threads s t)" "held s t = None"
    and pc: "waits b pc" "local_ok (mq s) pc" and none: "if b then fs = [] else qs = []"
    and other: "t \<notin> woken (\<not> b) s"
  shows "mq_ok (goes_to t pc (mq_suspend b t timeout s)) qs fs"
proof -
  let ?u = "goes_to t pc (mq_suspend b t timeout s)"
  let ?ins = "ipc_list_insert (ipc_flag (mq s)) (\<lambda>n. th_priority (threads s n)) t (waiting_list b s)"
  have u: "waiting_list b ?u = ?ins" "waiting_list (\<not> b) ?u = waiting_list (\<not> b) s"
    by (cases b; simp add: mq_suspend_def waiting_list_def Let_def)+
  have th: "threads ?u = (threads s)(t := (threads s t)\<lparr>th_error := RT_EOK, th_suspended := True,
       th_timer := timeout > 0, th_pc := pc\<rparr>)"
    by (simp add: mq_suspend_def Let_def)
  have s: "sched_ok s"
    using ok by (simp add: mq_ok_def)
  have sched: "sched_ok ?u"
    unfolding sched_ok_def
  proof (intro conjI allI)
    fix b' t'
    have "b' = b \<or> b' = (\<not> b)"
      by auto
    then show "distinct (waiting_list b' ?u)"
      using u sched_waits(1,5) [OF s] t(1) by (auto simp: insert_props)
    show "t' \<in> set (waiting_list b' ?u) \<longleftrightarrow> th_suspended (threads ?u t') \<and> waits b' (pc_of ?u t')"
      using \<open>b' = b \<or> b' = (\<not> b)\<close> u sched_waits(1) [OF s] t(1) pc(1) waits_one [OF pc(1), of True]
        waits_one [OF pc(1), of False] by (auto simp: th insert_props)
  qed (use sched_waits(2-4) [OF s] pc(1) in \<open>auto simp: th\<close>)
  have w: "woken b' ?u = woken b' s - {t}" for b'
    by (auto simp: woken_def th)
  have "wake_ok b ?u 0" if "wake_ok b s n" for n
    using that by (simp add: wake_ok_def w)
  moreover have "wake_ok (\<not> b) ?u n" if "wake_ok (\<not> b) s n" for n
    using that other u(2) by (simp add: wake_ok_def w)
  ultimately have "wake_ok False ?u (length qs) \<and> wake_ok True ?u (length fs)"
    using ok none by (cases b) (auto simp: mq_ok_def)
  moreover have "cells_ok (mq ?u) (held ?u) qs fs"
  proof -
    have "held ?u x = held s x" for x
      using waits_cell [OF pc(1)] t(2) unfolding held_def th by auto
    then have "held ?u = held s"
      by (rule ext)
    then show ?thesis
      using ok by (auto simp: mq_ok_def mq_suspend_def Let_def intro!: cells_ok_cong [of "mq s"])
  qed
  moreover have "local_ok (mq ?u) (pc_of ?u t')" for t'
  proof (rule local_cong [of "mq s"])
    show "local_ok (mq s) (pc_of ?u t')"
      using ok pc(2) by (auto simp: th mq_ok_def)
  qed (simp_all add: mq_suspend_def Let_def)
  ultimately show ?thesis
    using sched by (simp add: mq_ok_def)
qed

section \<open>Every step\<close>

definition content :: "rt_messagequeue \<Rightarrow> nat list \<Rightarrow> u8 list list" where
  "content q is = map (\<lambda>i. payload (msg_pool q ! i)) is"

lemma content_set_cell: "i \<notin> set is \<Longrightarrow> content (set_cell i f q) is = content q is"
  by (auto simp: content_def set_cell_def intro!: arg_cong [where f = payload] nth_list_update_neq)

lemma content_set_next:
  "(\<And>c. payload (f c) = payload c) \<Longrightarrow> content (set_cell i f q) is = content q is"
  by (cases "i < length (msg_pool q)")
    (auto simp: content_def set_cell_def nth_list_update list_update_beyond)

text \<open>A first-in first-out queue, with urgent messages and a reset.\<close>

fun fifo_step :: "'m list \<Rightarrow> 'm fifo_label \<Rightarrow> 'm list \<Rightarrow> bool" where
  "fifo_step ms Tau ms' \<longleftrightarrow> ms' = ms"
| "fifo_step ms (Put m) ms' \<longleftrightarrow> ms' = ms @ [m]"
| "fifo_step ms (Urgent m) ms' \<longleftrightarrow> ms' = m # ms"
| "fifo_step ms (Get m) ms' \<longleftrightarrow> ms = m # ms'"
| "fifo_step ms Reset ms' \<longleftrightarrow> ms' = []"

definition follows :: "mq_sys \<Rightarrow> nat list \<Rightarrow> u8 list fifo_label \<Rightarrow> mq_sys \<Rightarrow> bool" where
  "follows s qs l u \<longleftrightarrow> (\<exists>qs' fs'. mq_ok u qs' fs' \<and> fifo_step (content (mq s) qs) l (content (mq u) qs'))"

lemma followsI:
  "mq_ok u qs' fs' \<Longrightarrow> fifo_step (content (mq s) qs) l (content (mq u) qs') \<Longrightarrow> follows s qs l u"
  by (auto simp: follows_def)

lemma not_suspended:
  assumes "mq_ok s qs fs" "\<And>b. \<not> waits b (pc_of s t)"
  shows "\<not> th_suspended (threads s t)" "\<not> th_timer (threads s t)" "t \<notin> woken b s"
  using assms sched_waits(3,4) [of s t] not_woken by (auto simp: mq_ok_def)

lemma timer_off:
  "mq_ok s qs fs \<Longrightarrow> \<not> th_suspended (threads s t) \<Longrightarrow> \<not> th_timer (threads s t)"
  using sched_waits(4) [of s t] by (auto simp: mq_ok_def)

text \<open>A thread that goes on with the queue as it is.\<close>

lemma stay_ok:
  assumes ok: "mq_ok s qs fs" and t: "\<not> th_suspended (threads s t)" "held s t = None" "cell_of pc = None"
    and pc: "local_ok (mq s) pc" "\<And>b. \<not> waits b pc"
    and none: "t \<in> woken False s \<Longrightarrow> qs = []" "t \<in> woken True s \<Longrightarrow> fs = []"
  shows "mq_ok (s\<lparr>threads := (threads s)(t := (threads s t)\<lparr>th_error := e, th_pc := pc\<rparr>)\<rparr>) qs fs"
proof -
  have "(held s)(t := None) = held s"
    using t(2) by auto
  then have "mq_ok (s\<lparr>mq := mq s, threads := (threads s)(t := (threads s t)\<lparr>th_error := e, th_pc := pc\<rparr>)\<rparr>) qs fs"
    using ok none pc t timer_off [OF ok t(1)]
    by (intro go_ok [OF ok]) (auto simp: same_refl mq_ok_def)
  then show ?thesis
    by simp
qed

lemma stay_follows:
  assumes "mq_ok s qs fs" "\<not> th_suspended (threads s t)" "held s t = None" "cell_of pc = None"
    "local_ok (mq s) pc" "\<And>b. \<not> waits b pc"
    "t \<in> woken False s \<Longrightarrow> qs = []" "t \<in> woken True s \<Longrightarrow> fs = []"
  shows "follows s qs Tau (goes_to t pc s)"
    "follows s qs Tau (goes_to t pc (set_thread t (\<lambda>th. th\<lparr>th_error := e\<rparr>) s))"
  using stay_ok [OF assms(1-6), of "th_error (threads s t)"] stay_ok [OF assms(1-6), of e] assms(7,8)
  by (auto intro!: followsI)

text \<open>Sending.\<close>

lemma take_free_follows:
  assumes ok: "mq_ok s qs fs" and t: "\<not> th_suspended (threads s t)" "held s t = None" "t \<notin> woken False s"
    and free: "msg_queue_free (mq s) = Some i" and len: "length bs \<le> unat (msg_size (mq s))"
  shows "follows s qs Tau (goes_to t (Send_Copy urgent bs i) (set_mq (mq_take_free i) s))"
proof -
  obtain fs' where fs: "fs = i # fs'"
    using ok free chain_Some [of "msg_pool (mq s)" i fs] by (auto simp: mq_ok_def cells_ok_def)
  have "cells_ok (mq_take_free i (mq s)) ((held s)(t \<mapsto> i)) qs fs'"
    using take_free_ok [of "mq s" "held s" qs i fs' t] ok t(2) fs by (simp add: mq_ok_def)
  then have "mq_ok (s\<lparr>mq := mq_take_free i (mq s),
      threads := (threads s)(t := (threads s t)\<lparr>th_pc := Send_Copy urgent bs i\<rparr>)\<rparr>) qs fs'"
    using t timer_off [OF ok t(1)] fs len
    by (intro go_ok [OF ok]) (auto simp: same_elsewhere_def mq_take_free_def)
  then show ?thesis
    by (intro followsI [where qs' = qs and fs' = fs']) (simp_all add: content_def mq_take_free_def)
qed

lemma suspend_follows:
  assumes "mq_ok s qs fs" "\<not> th_suspended (threads s t)" "held s t = None" "waits b pc" "local_ok (mq s) pc"
    "if b then fs = [] else qs = []" "t \<notin> woken (\<not> b) s"
  shows "follows s qs Tau (goes_to t pc (mq_suspend b t timeout s))"
proof (rule followsI [OF suspend_ok [OF assms]])
  show "fifo_step (content (mq s) qs) Tau (content (mq (goes_to t pc (mq_suspend b t timeout s))) qs)"
    by (simp add: content_def mq_suspend_def Let_def)
qed

lemma no_free: "mq_ok s qs fs \<Longrightarrow> msg_queue_free (mq s) = None \<longleftrightarrow> fs = []"
  by (cases fs) (auto simp: mq_ok_def cells_ok_def)

lemma no_message: "mq_ok s qs fs \<Longrightarrow> entry (mq s) = 0 \<longleftrightarrow> qs = []"
  by (auto simp: mq_ok_def cells_ok_def unat_eq_zero)

lemma send_loop_follows:
  assumes ok: "mq_ok s qs fs" and t: "\<not> th_suspended (threads s t)" "held s t = None" "t \<notin> woken False s"
    and len: "length bs \<le> unat (msg_size (mq s))"
  shows "follows s qs Tau (mq_send_loop t bs timeout delta s)"
proof (cases "msg_queue_free (mq s)")
  case (Some i)
  then show ?thesis
    using take_free_follows [OF ok t Some len] by (simp add: mq_send_loop_def)
next
  case None
  have full: "fs = []"
    using None no_free [OF ok] by simp
  have "(\<lambda>n. th_priority (if n = t then (threads s t)\<lparr>th_error := RT_EOK\<rparr> else threads s n)) =
      (\<lambda>n. th_priority (threads s n))"
    by auto
  then have "mq_suspend True t timeout (set_thread t (\<lambda>th. th\<lparr>th_error := RT_EOK\<rparr>) s) = mq_suspend True t timeout s"
    by (simp add: mq_suspend_def Let_def)
  moreover have "follows s qs Tau (goes_to t (Send_Wait bs timeout d) (mq_suspend True t timeout s))" for d
    by (rule suspend_follows [OF ok t(1,2)]) (use full t len in simp_all)
  ultimately show ?thesis
    using None full t stay_follows(2) [OF ok t(1,2), of "Returned (- RT_EFULL) []" RT_EOK]
    by (simp add: mq_send_loop_def Let_def)
qed

lemma send_follows:
  assumes ok: "mq_ok s qs fs" and run: "\<not> th_suspended (threads s t)"
  shows "pc_of s t = Send_Enter bs timeout \<Longrightarrow> follows s qs Tau (mq_send_enter t bs timeout s)"
    "pc_of s t = Send_Wait bs timeout delta \<Longrightarrow> follows s qs Tau (mq_send_resumed t bs timeout delta s)"
    "pc_of s t = Urgent_Enter bs \<Longrightarrow> follows s qs Tau (mq_urgent_enter t bs s)"
proof -
  assume pc: "pc_of s t = Send_Enter bs timeout"
  have t: "held s t = None" "t \<notin> woken b s" for b
    using pc by (simp_all add: held_def woken_def)
  show "follows s qs Tau (mq_send_enter t bs timeout s)"
    using stay_follows(1) [OF ok run t(1)] t(2) send_loop_follows [OF ok run t]
    by (simp add: mq_send_enter_def not_less)
next
  assume pc: "pc_of s t = Send_Wait bs timeout delta"
  have t: "held s t = None" "t \<notin> woken False s" "th_error (threads s t) \<noteq> RT_EOK \<Longrightarrow> t \<notin> woken True s"
    using pc by (simp_all add: held_def woken_def)
  have len: "length bs \<le> unat (msg_size (mq s))"
    using ok pc by (auto simp: mq_ok_def dest: spec [of _ t])
  show "follows s qs Tau (mq_send_resumed t bs timeout delta s)"
    using stay_follows(1) [OF ok run t(1), of "Returned (th_error (threads s t)) []"] t
      send_loop_follows [OF ok run t(1,2) len]
    by (cases "th_error (threads s t) = RT_EOK") (simp_all add: mq_send_resumed_def)
next
  assume pc: "pc_of s t = Urgent_Enter bs"
  have t: "held s t = None" "t \<notin> woken b s" for b
    using pc by (simp_all add: held_def woken_def)
  show "follows s qs Tau (mq_urgent_enter t bs s)"
    using stay_follows(1) [OF ok run t(1)] t(2) take_free_follows [OF ok run t]
    by (auto simp: mq_urgent_enter_def not_less split: option.split)
qed

lemma copy_in_take:
  "length bs \<le> length (payload c) \<Longrightarrow> length (payload (mq_copy_in bs c)) = length (payload c)"
  "take (length bs) (payload (mq_copy_in bs c)) = bs"
  by (simp_all add: mq_copy_in_def)

lemma same_set_cell:
  assumes "mq_ok s qs fs" "held s t = Some i"
  shows "same_elsewhere t s (set_cell i f (mq s))"
proof -
  have "held s t' = Some j \<Longrightarrow> t' \<noteq> t \<Longrightarrow> i \<noteq> j" for t' j
    using assms owns_held(3) [of "held s" _ _ t i t'] by (auto simp: mq_ok_def cells_ok_def)
  then show ?thesis
    by (auto simp: same_elsewhere_def set_cell_def intro: nth_list_update_neq)
qed

lemma copy_follows:
  assumes ok: "mq_ok s qs fs" and pc: "pc_of s t = Send_Copy urgent bs i"
  shows "follows s qs Tau (mq_send_copy t urgent bs i s)"
proof -
  let ?f = "\<lambda>c. mq_copy_in bs (if urgent then c else c\<lparr>next_msg := None\<rparr>)"
  note t = not_suspended [OF ok, of t, simplified pc, simplified]
  have h: "held s t = Some i" and len: "length bs \<le> unat (msg_size (mq s))"
    using pc ok by (auto simp: held_def mq_ok_def dest: spec [of _ t])
  have cells: "cells_ok (mq s) (held s) qs fs"
    using ok by (simp add: mq_ok_def)
  note i = cells_held [OF cells h]
  have size: "length (payload (msg_pool (mq s) ! i)) = unat (msg_size (mq s))"
    using cells i by (simp add: cells_ok_def)
  have "cells_ok (set_cell i ?f (mq s)) (held s) qs fs"
    by (rule fill_ok [OF cells h]) (use size len in \<open>simp add: copy_in_take\<close>)
  moreover have "(held s)(t \<mapsto> i) = held s"
    using h by auto
  ultimately have "mq_ok (s\<lparr>mq := set_cell i ?f (mq s),
      threads := (threads s)(t := (threads s t)\<lparr>th_pc := Send_Link urgent bs i\<rparr>)\<rparr>) qs fs"
    using t len i(1) same_set_cell [OF ok h, of ?f] copy_in_take(2)
    by (intro go_ok [OF ok]) (auto simp: set_cell_def mq_copy_in_def)
  moreover have "content (set_cell i ?f (mq s)) qs = content (mq s) qs"
    using i(2) by (rule content_set_cell)
  ultimately show ?thesis
    by (intro followsI [where qs' = qs and fs' = fs]) (simp_all add: mq_send_copy_def)
qed

text \<open>The message comes into the queue; there is always room for it in the count.\<close>

lemma link_same:
  assumes ok: "mq_ok s qs fs" and h: "held s t = Some i"
  shows "same_elsewhere t s ((mq_link i (mq s))\<lparr>entry := n\<rparr>)" "same_elsewhere t s ((mq_push i (mq s))\<lparr>entry := n\<rparr>)"
    "content ((mq_link i (mq s))\<lparr>entry := n\<rparr>) is = content (mq s) is"
    "content ((mq_push i (mq s))\<lparr>entry := n\<rparr>) is = content (mq s) is"
proof -
  have "held s t' = Some j \<Longrightarrow> j \<notin> set qs" for t' j
    using ok cells_held(2) [of "mq s" "held s" qs fs t' j] by (simp add: mq_ok_def)
  moreover have "msg_queue_tail (mq s) = Some k \<Longrightarrow> k \<in> set qs" for k
    using ok by (auto simp: mq_ok_def cells_ok_def split: if_splits)
  ultimately show "same_elsewhere t s ((mq_link i (mq s))\<lparr>entry := n\<rparr>)"
    by (auto simp: same_elsewhere_def mq_link_def set_cell_def Let_def intro!: nth_list_update_neq split: option.split)
  show "same_elsewhere t s ((mq_push i (mq s))\<lparr>entry := n\<rparr>)"
    using same_set_cell [OF ok h, of "\<lambda>c. c\<lparr>next_msg := msg_queue_head (mq s)\<rparr>"]
    by (auto simp: same_elsewhere_def mq_push_def set_cell_def Let_def)
  have "content (q\<lparr>msg_queue_head := x\<rparr>) is = content q is" "content (q\<lparr>msg_queue_tail := x\<rparr>) is = content q is"
    "content (q\<lparr>entry := n\<rparr>) is = content q is" for q x n
    by (simp_all add: content_def)
  then show "content ((mq_link i (mq s))\<lparr>entry := n\<rparr>) is = content (mq s) is"
    "content ((mq_push i (mq s))\<lparr>entry := n\<rparr>) is = content (mq s) is"
    by (auto simp: mq_link_def mq_push_def Let_def content_set_next split: option.split)
qed

lemma link_entry: "entry (mq_link i q) = entry q" "entry (mq_push i q) = entry q"
  by (auto simp: mq_link_def mq_push_def set_cell_def Let_def split: option.split)

lemma content_wake: "sched_ok s \<Longrightarrow> content (mq (mq_wake b s)) is = content (mq s) is"
  by (simp add: content_def wake_keeps)

lemma link_follows:
  assumes ok: "mq_ok s qs fs" and pc: "pc_of s t = Send_Link urgent bs i"
  shows "follows s qs (mq_label t s) (mq_send_link t urgent i s)"
proof -
  let ?q = "(if urgent then mq_push i (mq s) else mq_link i (mq s))\<lparr>entry := entry (mq s) + 1\<rparr>"
  let ?qs = "if urgent then i # qs else qs @ [i]"
  note t = not_suspended [OF ok, of t, simplified pc, simplified]
  have h: "held s t = Some i" and last: "\<not> urgent \<Longrightarrow> next_msg (msg_pool (mq s) ! i) = None"
    using pc ok by (auto simp: held_def mq_ok_def dest: spec [of _ t])
  have cells: "cells_ok (mq s) (held s) qs fs"
    using ok by (simp add: mq_ok_def)
  have same: "same_elsewhere t s ?q"
    using link_same(1,2) [OF ok h] by simp
  have linked: "cells_ok ?q ((held s)(t := None)) ?qs fs"
    using link_ok [OF cells h last] push_ok [OF cells h] by simp
  have "mq_ok (goes_to t (Returned RT_EOK []) (mq_wake False (s\<lparr>mq := ?q\<rparr>))) ?qs fs"
    by (rule provide_ok [OF ok t(1) _ linked same]) (simp_all add: pc)
  moreover have "mq_send_link t urgent i s = goes_to t (Returned RT_EOK []) (mq_wake False (s\<lparr>mq := ?q\<rparr>))"
    using room(2) [OF cells h] by (simp add: mq_send_link_def Let_def link_entry)
  moreover have "sched_ok (s\<lparr>mq := ?q\<rparr>)"
    using wake_set(3) [of ?q s] same ok by (simp add: same_elsewhere_def mq_ok_def)
  then have "content (mq (mq_wake False (s\<lparr>mq := ?q\<rparr>))) ?qs = content (mq s) ?qs"
    using link_same(3,4) [OF ok h] by (simp add: content_wake)
  ultimately show ?thesis
    by (intro followsI [where qs' = ?qs and fs' = fs]) (auto simp: mq_label_def pc content_def)
qed

text \<open>Receiving.\<close>

lemma recv_loop_follows:
  assumes ok: "mq_ok s qs fs" and t: "\<not> th_suspended (threads s t)" "held s t = None" "t \<notin> woken True s"
  shows "\<exists>u. mq_recv_loop t n timeout delta s = Some u \<and> follows s qs (mq_first (mq s)) u"
proof (cases qs)
  case Nil
  have "(\<lambda>n. th_priority (if n = t then (threads s t)\<lparr>th_error := e\<rparr> else threads s n)) =
      (\<lambda>n. th_priority (threads s n))" for e
    by auto
  moreover have "follows s qs Tau (goes_to t (Recv_Wait n timeout d) (mq_suspend False t timeout s))" for d
    by (rule suspend_follows [OF ok t(1,2)]) (use Nil t in simp_all)
  ultimately show ?thesis
    using Nil t no_message [OF ok] stay_follows(2) [OF ok t(1,2), of "Returned (- RT_ETIMEOUT) []" "- RT_ETIMEOUT"]
    by (simp add: mq_recv_loop_def mq_first_def)
next
  case (Cons i qs')
  have cells: "cells_ok (mq s) (held s) (i # qs') fs"
    using ok Cons by (simp add: mq_ok_def)
  then have head: "msg_queue_head (mq s) = Some i" "entry (mq s) \<noteq> 0"
    using no_message [OF ok] Cons by (simp_all add: cells_ok_def)
  let ?q = "(mq_unlink i (mq s))\<lparr>entry := entry (mq s) - 1\<rparr>"
  have "same_elsewhere t s ?q"
    by (simp add: same_elsewhere_def) (simp add: mq_unlink_def Let_def)
  then have "mq_ok (s\<lparr>mq := ?q, threads := (threads s)(t := (threads s t)\<lparr>th_pc := Recv_Copy n i\<rparr>)\<rparr>) qs' fs"
    using t timer_off [OF ok t(1)] unlink_ok [OF cells t(2)] Cons
    by (intro go_ok [OF ok]) auto
  moreover have "fifo_step (content (mq s) qs) (mq_first (mq s)) (content ?q qs')"
    using head Cons by (simp add: mq_first_def content_def)
  ultimately show ?thesis
    using head by (auto simp: mq_recv_loop_def follows_def)
qed

lemma recv_follows:
  assumes ok: "mq_ok s qs fs" and run: "\<not> th_suspended (threads s t)"
  shows "pc_of s t = Recv_Enter n timeout \<Longrightarrow>
      \<exists>u. mq_recv_enter t n timeout s = Some u \<and> follows s qs (mq_label t s) u"
    "pc_of s t = Recv_Wait n timeout delta \<Longrightarrow>
      \<exists>u. mq_recv_resumed t n timeout delta s = Some u \<and> follows s qs (mq_label t s) u"
proof -
  assume pc: "pc_of s t = Recv_Enter n timeout"
  have t: "held s t = None" "t \<notin> woken b s" for b
    using pc by (simp_all add: held_def woken_def)
  show "\<exists>u. mq_recv_enter t n timeout s = Some u \<and> follows s qs (mq_label t s) u"
    using stay_follows(1) [OF ok run t(1), of "Returned (- RT_ETIMEOUT) []"] t(2)
      recv_loop_follows [OF ok run t, of n timeout 0]
    by (auto simp: mq_recv_enter_def mq_label_def pc mq_first_def)
next
  assume pc: "pc_of s t = Recv_Wait n timeout delta"
  have t: "held s t = None" "t \<notin> woken True s" "th_error (threads s t) \<noteq> RT_EOK \<Longrightarrow> t \<notin> woken False s"
    using pc by (simp_all add: held_def woken_def)
  show "\<exists>u. mq_recv_resumed t n timeout delta s = Some u \<and> follows s qs (mq_label t s) u"
    using stay_follows(1) [OF ok run t(1), of "Returned (th_error (threads s t)) []"] t
      recv_loop_follows [OF ok run t(1,2), of n]
    by (cases "th_error (threads s t) = RT_EOK") (simp_all add: mq_recv_resumed_def mq_label_def pc)
qed

lemma recv_copy_follows:
  assumes ok: "mq_ok s qs fs" and pc: "pc_of s t = Recv_Copy n i"
  shows "follows s qs Tau (mq_recv_copy t n i s)"
proof -
  note t = not_suspended [OF ok, of t, simplified pc, simplified]
  let ?pc = "Recv_Put n i (take (min (unat n) (unat (msg_size (mq s)))) (payload (msg_pool (mq s) ! i)))"
  have "(held s)(t := cell_of ?pc) = held s"
    using pc by (auto simp: held_def)
  then have "mq_ok (s\<lparr>mq := mq s, threads := (threads s)(t := (threads s t)\<lparr>th_pc := ?pc\<rparr>)\<rparr>) qs fs"
    using ok t by (intro go_ok [OF ok]) (auto simp: same_refl mq_ok_def)
  then show ?thesis
    by (intro followsI [where qs' = qs and fs' = fs]) (simp_all add: mq_recv_copy_def)
qed

lemma recv_put_follows:
  assumes ok: "mq_ok s qs fs" and pc: "pc_of s t = Recv_Put n i bs"
  shows "follows s qs Tau (mq_recv_put t i bs s)"
proof -
  let ?q = "mq_put_free i (mq s)"
  note t = not_suspended [OF ok, of t, simplified pc, simplified]
  have h: "held s t = Some i"
    using pc by (simp add: held_def)
  have same: "same_elsewhere t s ?q"
    using same_set_cell [OF ok h, of "\<lambda>c. c\<lparr>next_msg := msg_queue_free (mq s)\<rparr>"]
    by (simp add: mq_put_free_def same_elsewhere_def)
  have "cells_ok ?q ((held s)(t := None)) qs (i # fs)"
    by (rule put_free_ok) (use ok h in \<open>simp_all add: mq_ok_def\<close>)
  then have "mq_ok (goes_to t (Returned RT_EOK bs) (mq_wake True (s\<lparr>mq := ?q\<rparr>))) qs (i # fs)"
    by (rule provide_ok [OF ok t(1) _ _ same, rotated]) (simp_all add: pc)
  moreover have "sched_ok (s\<lparr>mq := ?q\<rparr>)"
    using wake_set(3) [of ?q s] same ok by (simp add: same_elsewhere_def mq_ok_def)
  then have "content (mq (mq_wake True (s\<lparr>mq := ?q\<rparr>))) qs = content ?q qs"
    by (simp add: content_wake)
  moreover have "content ?q qs = content (mq s) qs"
    using content_set_next [of "\<lambda>c. c\<lparr>next_msg := msg_queue_free (mq s)\<rparr>" i "mq s" qs]
    by (simp add: mq_put_free_def content_def)
  ultimately show ?thesis
    by (intro followsI [where qs' = qs and fs' = "i # fs"]) (simp_all add: mq_recv_put_def)
qed

text \<open>
  Running never follows a null pointer, and keeps the invariant.
\<close>

lemma run_follows:
  assumes ok: "mq_ok s qs fs" and run: "\<not> th_suspended (threads s t)"
  shows "\<exists>u. mq_run t s = Some u \<and> follows s qs (mq_label t s) u"
proof (cases "pc_of s t")
  case (Returned e r)
  then show ?thesis
    using followsI [OF ok] by (simp add: mq_run_def mq_label_def)
qed (use send_follows [OF ok run] copy_follows [OF ok] link_follows [OF ok] recv_follows [OF ok run]
    recv_copy_follows [OF ok] recv_put_follows [OF ok] in \<open>simp_all add: mq_run_def mq_label_def\<close>)

text \<open>A reset resumes all threads that wait and frees all messages; it returns.\<close>

lemma resume_all_ok:
  assumes "mq_ok s qs fs"
  shows "\<exists>u. ipc_list_resume_all b s = Some u \<and> mq_ok u qs fs \<and> waiting_list b u = [] \<and>
    waiting_list (\<not> b) u = waiting_list (\<not> b) s \<and> msg_pool (mq u) = msg_pool (mq s) \<and>
    threads u = (\<lambda>t. if t \<in> set (waiting_list b s) then dismissed (threads s t) else threads s t)"
  using assms
proof (induction "length (waiting_list b s)" arbitrary: s)
  case 0
  then show ?case
    by (auto simp: ipc_list_resume_all_def while_option_unfold)
next
  case (Suc n)
  then obtain t ts where ts: "waiting_list b s = t # ts"
    by (cases "waiting_list b s") auto
  have s: "sched_ok s"
    using Suc.prems by (simp add: mq_ok_def)
  note t = wake_first(1,2) [OF s ts]
  let ?u = "takes_off t (- RT_ERROR) s"
  have body: "rt_thread_resume t (set_thread t (\<lambda>th. th\<lparr>th_error := - RT_ERROR\<rparr>) s) = ?u"
    using t(1) by (simp add: rt_thread_resume_def takes_off_def)
  have u: "mq_ok ?u qs fs" "msg_pool (mq ?u) = msg_pool (mq s)" "threads ?u = (threads s)(t := dismissed (threads s t))"
    using takes_off_ok [OF Suc.prems t(1)] by simp_all (simp add: takes_off_def dismissed_def)
  have off: "t \<notin> set ts" "t \<notin> set (waiting_list (\<not> b) s)"
    using sched_waits(5) [OF s, of b] sched_waits(1) [OF s, of t "\<not> b"] ts t(2) waits_one by auto
  then have w: "waiting_list b ?u = ts" "waiting_list (\<not> b) ?u = waiting_list (\<not> b) s"
    using ts by simp_all
  then obtain v where v: "ipc_list_resume_all b ?u = Some v" "mq_ok v qs fs" "waiting_list b v = []"
    "waiting_list (\<not> b) v = waiting_list (\<not> b) s" "msg_pool (mq v) = msg_pool (mq s)"
    "threads v = (\<lambda>t'. if t' \<in> set ts then dismissed (threads ?u t') else threads ?u t')"
    using Suc.hyps(1) [of ?u] Suc.hyps(2) ts u(1,2) by auto
  have "threads v = (\<lambda>t'. if t' \<in> set (t # ts) then dismissed (threads s t') else threads s t')"
    using off(1) unfolding v(6) u(3) by auto
  moreover have "ipc_list_resume_all b s = ipc_list_resume_all b ?u"
    unfolding ipc_list_resume_all_def by (subst while_option_unfold) (simp add: ts body)
  ultimately show ?case
    using v unfolding ts by auto
qed

lemma resume_waiting_ok:
  assumes ok: "mq_ok s qs fs"
  shows "\<exists>v. mq_resume_waiting s = Some v \<and> mq_ok v qs fs \<and> (\<forall>b. waiting_list b v = []) \<and>
    msg_pool (mq v) = msg_pool (mq s) \<and>
    threads v = (\<lambda>t. if th_suspended (threads s t) then dismissed (threads s t) else threads s t)"
proof -
  obtain u where u: "ipc_list_resume_all False s = Some u" "mq_ok u qs fs" "waiting_list False u = []"
    "waiting_list True u = waiting_list True s" "msg_pool (mq u) = msg_pool (mq s)"
    "threads u = (\<lambda>t. if t \<in> set (waiting_list False s) then dismissed (threads s t) else threads s t)"
    using resume_all_ok [OF ok, of False] by auto
  obtain v where v: "ipc_list_resume_all True u = Some v" "mq_ok v qs fs" "waiting_list True v = []"
    "waiting_list False v = []" "msg_pool (mq v) = msg_pool (mq s)"
    "threads v = (\<lambda>t. if t \<in> set (waiting_list True s) then dismissed (threads u t) else threads u t)"
    using resume_all_ok [OF u(2), of True] u(3-5) by auto
  have "threads v t = (if th_suspended (threads s t) then dismissed (threads s t) else threads s t)" for t
  proof -
    have "sched_ok s"
      using ok by (simp add: mq_ok_def)
    note w = sched_waits [OF this]
    have "th_suspended (threads s t) \<longleftrightarrow> t \<in> set (waiting_list False s) \<or> t \<in> set (waiting_list True s)"
      using w(1) [of t True] w(1) [of t False] w(3) [of t] by (metis (full_types))
    then show ?thesis
      by (auto simp: v(6) u(6) dismissed_def)
  qed
  moreover have "mq_resume_waiting s = Some v"
    using u(1) v(1) by (simp add: mq_resume_waiting_def)
  ultimately show ?thesis
    using v(2-5) by (auto simp: all_bool_eq)
qed

text \<open>What is left after a reset.\<close>

definition reset_done :: "mq_sys \<Rightarrow> mq_sys \<Rightarrow> bool" where
  "reset_done s w \<longleftrightarrow> (\<exists>fs. mq_ok w [] fs) \<and> (\<forall>b. waiting_list b w = []) \<and>
     threads w = (\<lambda>t. if th_suspended (threads s t) then dismissed (threads s t) else threads s t)"

lemma control_reset:
  assumes ok: "mq_ok s qs fs"
  shows "\<exists>w. rt_mq_control RT_IPC_CMD_RESET s = Some (RT_EOK, w) \<and> reset_done s w \<and>
    (\<forall>i. i \<notin> set qs \<longrightarrow> msg_pool (mq w) ! i = msg_pool (mq s) ! i)"
proof -
  obtain v where v: "mq_resume_waiting s = Some v" "mq_ok v qs fs" "\<And>b. waiting_list b v = []"
    "msg_pool (mq v) = msg_pool (mq s)"
    "threads v = (\<lambda>t. if th_suspended (threads s t) then dismissed (threads s t) else threads s t)"
    using resume_waiting_ok [OF ok] by auto
  obtain q where q: "mq_release_all (mq v) = Some q" "cells_ok (q\<lparr>entry := 0\<rparr>) (held v) [] (rev qs @ fs)"
    "suspend_thread q = suspend_thread (mq v)" "suspend_sender_thread q = suspend_sender_thread (mq v)"
    "msg_size q = msg_size (mq v)" "\<forall>j. j \<notin> set qs \<longrightarrow> msg_pool q ! j = msg_pool (mq v) ! j"
    using release_ok [of "mq v" "held v" qs fs] v(2) by (auto simp: mq_ok_def)
  let ?w = "v\<lparr>mq := q\<lparr>entry := 0\<rparr>\<rparr>"
  have lists: "waiting_list b ?w = waiting_list b v" "waiting_list b ?w = []" for b
    using wake_set(1) [of "q\<lparr>entry := 0\<rparr>" v b] q(3,4) v(3) by (cases b; simp)+
  have "local_ok (mq ?w) (pc_of ?w t')" for t'
  proof (rule local_cong [of "mq v"])
    fix i
    assume "cell_of (pc_of ?w t') = Some i"
    then have "i \<notin> set qs"
      using cells_held(2) [of "mq v" "held v" qs fs t' i] v(2) by (simp add: mq_ok_def held_def)
    then show "msg_pool (mq ?w) ! i = msg_pool (mq v) ! i"
      using q(6) by simp
  qed (use v(2) q(5) in \<open>simp_all add: mq_ok_def\<close>)
  moreover have "wake_ok b ?w n" if "wake_ok b v n'" for b n n'
    using that lists(2) by (simp add: wake_ok_def)
  moreover have "sched_ok ?w"
    using wake_set(3) [of "q\<lparr>entry := 0\<rparr>" v] q(3,4) v(2) by (simp add: mq_ok_def)
  ultimately have "mq_ok ?w [] (rev qs @ fs)"
    using q(2) v(2) by (auto simp: mq_ok_def)
  moreover have "rt_mq_control RT_IPC_CMD_RESET s = Some (RT_EOK, ?w)"
    using v(1) q(1) by (simp add: rt_mq_control_def)
  ultimately show ?thesis
    using lists(2) q(6) v(4,5) by (intro exI [of _ ?w]) (auto simp: reset_done_def)
qed

lemma control_follows:
  assumes ok: "mq_ok s qs fs" and pc: "pc_of s t = Returned e r"
  shows "\<exists>e' u. rt_mq_control cmd s = Some (e', u) \<and>
    follows s qs (if cmd = RT_IPC_CMD_RESET then Reset else Tau) (goes_to t (Returned e' []) u)"
proof (cases "cmd = RT_IPC_CMD_RESET")
  case False
  have t: "\<not> th_suspended (threads s t)" "held s t = None" "\<And>b. t \<notin> woken b s"
    using not_suspended [OF ok, of t] by (simp_all add: pc held_def)
  then show ?thesis
    using False stay_follows(1) [OF ok t(1,2), of "Returned (- RT_ERROR) []"] by (simp add: rt_mq_control_def)
next
  case True
  obtain w fs' where c: "rt_mq_control RT_IPC_CMD_RESET s = Some (RT_EOK, w)" and w: "mq_ok w [] fs'"
    and th: "threads w = (\<lambda>t. if th_suspended (threads s t) then dismissed (threads s t) else threads s t)"
    using control_reset [OF ok] by (auto simp: reset_done_def)
  have "pc_of w t = Returned e r"
    using pc not_suspended(1) [OF ok, of t] by (simp add: th)
  then have t: "\<not> th_suspended (threads w t)" "held w t = None" "\<And>b. t \<notin> woken b w"
    using not_suspended [OF w, of t] by (simp_all add: held_def)
  have "mq_ok (goes_to t (Returned RT_EOK []) w) [] fs'"
    using stay_ok [OF w t(1,2), of "Returned RT_EOK []" "th_error (threads w t)"] t(3) by simp
  then show ?thesis
    using True c by (auto simp: follows_def content_def)
qed

text \<open>Every step keeps the invariant, and does to the messages what its label says.\<close>

lemma step_follows:
  assumes "mq_step s l u" "mq_ok s qs fs"
  shows "follows s qs l u"
  using assms
proof (induction rule: mq_step.induct)
  case (call_send s t e r bs timeout)
  then show ?case
    using not_suspended [of s qs fs t]
    by (intro stay_follows(1)) (simp_all add: held_def)
next
  case (call_urgent s t e r bs)
  then show ?case
    using not_suspended [of s qs fs t] by (intro stay_follows(1)) (simp_all add: held_def)
next
  case (call_recv s t e r n timeout)
  then show ?case
    using not_suspended [of s qs fs t] by (intro stay_follows(1)) (simp_all add: held_def)
next
  case (runs s t u)
  then show ?case
    using run_follows [of s qs fs t] by auto
next
  case (expires s t)
  then have "mq_ok (rt_thread_timeout t s) qs fs"
    using takes_off_ok sched_waits(4) by (auto simp: timeout_takes_off mq_ok_def)
  then show ?case
    by (rule followsI) (simp add: timeout_takes_off content_def)
next
  case (controls s t e r cmd e' u)
  then show ?case
    using control_follows [of s qs fs t e r cmd] by auto
next
  case (passes s d)
  have "mq_ok (s\<lparr>tick := tick s + d\<rparr>) qs fs"
    using passes by (simp add: mq_ok_def sched_ok_def wake_ok_def)
  then show ?case
    by (rule followsI) simp
qed

end
