(* ===== verification/RtMessageQueueOrder.thy ===== *)
theory RtMessageQueueOrder
  imports RtMessageQueueRuns "HOL-Library.Multiset"
begin

text \<open>
  What the message queue promises its users. \<open>fifo_queue\<close> is the interface: a system whose steps act on
  a first-in first-out queue; in its runs messages come out in order, and none is lost. The queue of the
  kernel is such a system, from its creation on.
\<close>

section \<open>First in, first out\<close>

text \<open>The messages that were put in at the end, at either end, and that were taken out.\<close>

fun put_of :: "'m fifo_label \<Rightarrow> 'm list" where
  "put_of (Put m) = [m]" | "put_of _ = []"

fun sent_of :: "'m fifo_label \<Rightarrow> 'm list" where
  "sent_of (Put m) = [m]" | "sent_of (Urgent m) = [m]" | "sent_of _ = []"

fun got_of :: "'m fifo_label \<Rightarrow> 'm list" where
  "got_of (Get m) = [m]" | "got_of _ = []"

fun is_urgent :: "'m fifo_label \<Rightarrow> bool" where
  "is_urgent (Urgent m) \<longleftrightarrow> True" | "is_urgent _ \<longleftrightarrow> False"

locale fifo_queue =
  fixes step :: "'s \<Rightarrow> 'm fifo_label \<Rightarrow> 's \<Rightarrow> bool" and messages :: "'s \<Rightarrow> 'm list" and good :: "'s \<Rightarrow> bool"
  assumes step_good: "good s \<Longrightarrow> step s l t \<Longrightarrow> good t"
    and step_fifo: "good s \<Longrightarrow> step s l t \<Longrightarrow> fifo_step (messages s) l (messages t)"
begin

lemma runs_good: "labelled_runs step s ls t \<Longrightarrow> good s \<Longrightarrow> good t"
  by (induction rule: labelled_runs.induct) (auto intro: step_good)

lemma runs_in_order:
  assumes "labelled_runs step s ls t" "good s" "\<not> list_ex is_urgent ls" "Reset \<notin> set ls"
  shows "messages s @ concat (map put_of ls) = concat (map got_of ls) @ messages t"
  using assms
proof (induction rule: labelled_runs.induct)
  case (runs_snoc s ls t l u)
  then have "fifo_step (messages t) l (messages u)"
    by (blast intro: step_fifo runs_good)
  then show ?case
    using runs_snoc by (cases l) auto
qed simp

lemma runs_none_lost:
  assumes "labelled_runs step s ls t" "good s" "Reset \<notin> set ls"
  shows "mset (messages s) + mset (concat (map sent_of ls)) = mset (concat (map got_of ls)) + mset (messages t)"
  using assms
proof (induction rule: labelled_runs.induct)
  case (runs_snoc s ls t l u)
  then have "fifo_step (messages t) l (messages u)"
    by (blast intro: step_fifo runs_good)
  then show ?case
    using runs_snoc by (cases l) auto
qed simp

end

section \<open>The queue of the kernel\<close>

text \<open>The messages in the queue, as a walk along the list finds them; a reachable state.\<close>

definition mq_messages :: "mq_sys \<Rightarrow> u8 list list" where
  "mq_messages s = content (mq s) (cells_from (msg_pool (mq s)) (unat (entry (mq s))) (msg_queue_head (mq s)))"

definition mq_inv :: "mq_sys \<Rightarrow> bool" where
  "mq_inv s \<longleftrightarrow> (\<exists>qs fs. mq_ok s qs fs)"

lemma messages_content:
  assumes "mq_ok s qs fs"
  shows "cells_from (msg_pool (mq s)) (unat (entry (mq s))) (msg_queue_head (mq s)) = qs"
    "mq_messages s = content (mq s) qs"
  using cells_from_chain [of "msg_pool (mq s)" "msg_queue_head (mq s)" qs] assms
  by (simp_all add: mq_messages_def mq_ok_def cells_ok_def)

lemma follows_messages:
  assumes "follows s qs l u" "mq_ok s qs fs"
  shows "mq_inv u" "fifo_step (mq_messages s) l (mq_messages u)"
  using assms messages_content by (auto simp: follows_def mq_inv_def)

lemma kernel_step:
  assumes "mq_inv s" "mq_step s l u"
  shows "mq_inv u" "fifo_step (mq_messages s) l (mq_messages u)"
proof -
  obtain qs fs where ok: "mq_ok s qs fs"
    using assms(1) by (auto simp: mq_inv_def)
  show "mq_inv u" "fifo_step (mq_messages s) l (mq_messages u)"
    using follows_messages [OF step_follows [OF assms(2) ok] ok] by simp_all
qed

interpretation kernel: fifo_queue mq_step mq_messages mq_inv
  by unfold_locales (rule kernel_step; assumption)+

text \<open>
  A queue as \<open>rt_mq_create\<close> or \<open>rt_mq_init\<close> leave it, with memory for as many cells as it has, and no
  thread in a call.
\<close>

definition pool_fits :: "rt_messagequeue \<Rightarrow> rt_mq_message list \<Rightarrow> bool" where
  "pool_fits q pool \<longleftrightarrow> length pool = unat (max_msgs q) \<and> (\<forall>c\<in>set pool. length (payload c) = unat (msg_size q))"

definition mq_created :: "mq_sys \<Rightarrow> bool" where
  "mq_created s \<longleftrightarrow>
     (\<exists>sz n flag pool. pool_fits (mq s) pool \<and>
        (rt_mq_create True (Some pool) sz n flag = Some (mq s) \<or> rt_mq_init pool sz n flag = mq s)) \<and>
     (\<forall>t. (\<exists>e r. pc_of s t = Returned e r) \<and> \<not> th_suspended (threads s t) \<and> \<not> th_timer (threads s t))"

lemma free_all_same: "suspend_thread (mq_free_all q) = suspend_thread q"
    "suspend_sender_thread (mq_free_all q) = suspend_sender_thread q"
    "max_msgs (mq_free_all q) = max_msgs q" "msg_size (mq_free_all q) = msg_size q"
proof -
  have "suspend_thread (fold mq_put_free is q) = suspend_thread q \<and> max_msgs (fold mq_put_free is q) = max_msgs q \<and>
      suspend_sender_thread (fold mq_put_free is q) = suspend_sender_thread q \<and>
      msg_size (fold mq_put_free is q) = msg_size q" for "is" q
    by (induction "is" arbitrary: q) (auto simp: mq_put_free_def set_cell_def)
  then show "suspend_thread (mq_free_all q) = suspend_thread q"
    "suspend_sender_thread (mq_free_all q) = suspend_sender_thread q"
    "max_msgs (mq_free_all q) = max_msgs q" "msg_size (mq_free_all q) = msg_size q"
    by (simp_all add: mq_free_all_def)
qed

lemma created_ok:
  assumes "mq_created s"
  shows "\<exists>fs. mq_ok s [] fs"
proof -
  obtain sz n flag pool where p: "pool_fits (mq s) pool" "mq s = mq_new pool sz n flag"
    using assms unfolding mq_created_def rt_mq_create_def rt_mq_init_def Let_def
    by (elim conjE exE disjE) (auto dest!: sym [of _ "mq s"])
  let ?q = "\<lparr>ipc_flag = flag, suspend_thread = [], msg_pool = pool, msg_size = sz,
    max_msgs = n, entry = 0, msg_queue_head = None, msg_queue_tail = None, msg_queue_free = None,
    suspend_sender_thread = []\<rparr>"
  have q: "mq s = mq_free_all ?q"
    using p(2) by (simp add: mq_new_def)
  have idle: "\<exists>e r. pc_of s t = Returned e r" "\<not> th_suspended (threads s t)" "\<not> th_timer (threads s t)" for t
    using assms by (simp_all add: mq_created_def)
  have pc: "cell_of (pc_of s t) = None" "\<not> waits b (pc_of s t)" "local_ok q (pc_of s t)" for t b q
    using idle(1) [of t] by auto
  have "cells_ok (mq s) (\<lambda>_. None) [] (rev [0..<unat (max_msgs ?q)])"
    unfolding q by (rule free_all_ok) (use p(1) in \<open>simp_all add: q pool_fits_def sized_def free_all_same\<close>)
  moreover have "held s = (\<lambda>_. None)"
    using pc(1) by (auto simp: held_def)
  moreover have "waiting_list b s = []" "woken b s = {}" for b
    using pc(2) by (simp_all add: waiting_list_def q free_all_same woken_def)
  ultimately show ?thesis
    using idle pc by (auto simp: mq_ok_def sched_ok_def wake_ok_def)
qed

lemma created_inv: "mq_created s \<Longrightarrow> mq_inv s" "mq_created s \<Longrightarrow> mq_messages s = []"
  using created_ok messages_content(2) by (force simp: mq_inv_def content_def)+

text \<open>An example: two cells of four bytes, and no message.\<close>

definition mq_example :: mq_sys where
  "mq_example = \<lparr>mq = the (rt_mq_create True (Some (replicate 2 \<lparr>next_msg = None, payload = replicate 4 0\<rparr>)) 4 2 RT_IPC_FLAG_FIFO),
     threads = (\<lambda>_. \<lparr>th_pc = Returned 0 [], th_error = 0, th_priority = 10, th_suspended = False, th_timer = False\<rparr>),
     tick = 0\<rparr>"

lemma example_created: "mq_created mq_example"
proof -
  let ?pool = "replicate 2 \<lparr>next_msg = None, payload = replicate 4 0\<rparr>"
  have "pool_fits (mq mq_example) ?pool"
    by code_simp
  then show ?thesis
    unfolding mq_created_def
    by (intro conjI exI [of _ "4 :: u32"] exI [of _ "2 :: u32"] exI [of _ RT_IPC_FLAG_FIFO] exI [of _ ?pool])
      (simp_all add: mq_example_def rt_mq_create_def)
qed

section \<open>Order\<close>

text \<open>
  C11: Messages come out in the order they went in. From the creation of a queue on, whatever calls the
  threads make, however they are interleaved, whichever of them wait or run into a timeout: what
  receivers took out, followed by what is in the queue, is what senders put in, in this order; with
  urgent messages, which overtake, it is still the same messages, each as often as it was sent.
\<close>

theorem mq_in_order:
  assumes "mq_created s" and "labelled_runs mq_step s ls t" and "Reset \<notin> set ls"
  shows "(\<not> list_ex is_urgent ls \<longrightarrow> concat (map put_of ls) = concat (map got_of ls) @ mq_messages t) \<and>
    mset (concat (map sent_of ls)) = mset (concat (map got_of ls)) + mset (mq_messages t)"
  using kernel.runs_in_order [OF assms(2) created_inv(1) [OF assms(1)] _ assms(3)]
    kernel.runs_none_lost [OF assms(2) created_inv(1) [OF assms(1)] assms(3)] created_inv(2) [OF assms(1)]
  by simp

text \<open>Threads run in a given order; the labels of their steps.\<close>

fun mq_schedule :: "nat list \<Rightarrow> mq_sys \<Rightarrow> (u8 list fifo_label list \<times> mq_sys) option" where
  "mq_schedule [] s = Some ([], s)"
| "mq_schedule (t # ts) s =
     (if th_suspended (threads s t) then None
      else do {
        u \<leftarrow> mq_run t s;
        (ls, v) \<leftarrow> mq_schedule ts u;
        Some (mq_label t s # ls, v) })"

declare mq_schedule.simps [simp del]

lemma schedule_nil [simp]: "mq_schedule [] s = Some ([], s)"
  by (simp add: mq_schedule.simps)

lemma schedule_runs:
  "mq_schedule ts s = Some (ls, u) \<Longrightarrow> labelled_runs mq_step s0 ls0 s \<Longrightarrow> labelled_runs mq_step s0 (ls0 @ ls) u"
proof (induction ts arbitrary: s ls ls0)
  case (Cons t ts)
  then obtain v ls' where v: "\<not> th_suspended (threads s t)" "mq_run t s = Some v"
    "mq_schedule ts v = Some (ls', u)" "ls = mq_label t s # ls'"
    by (auto simp: mq_schedule.simps split: if_splits bind_splits)
  then have "labelled_runs mq_step s0 (ls0 @ [mq_label t s]) v"
    by (intro runs_snoc [OF Cons.prems(2)] runs)
  from Cons.IH [OF v(3) this] show ?case
    by (simp add: v(4))
qed simp

lemma fst_Some: "map_option fst x = Some a \<Longrightarrow> \<exists>b. x = Some (a, b)"
  by (cases x) auto

text \<open>Thread 0 sends two bytes, thread 1 overtakes it with one, thread 2 receives.\<close>

definition mq_example_calls :: mq_sys where
  "mq_example_calls =
     goes_to 2 (Recv_Enter 4 0) (goes_to 1 (Send_Enter [7] 0) (goes_to 0 (Send_Enter [5, 6] 0) mq_example))"

lemma example_calls: "labelled_runs mq_step mq_example [Tau, Tau, Tau] mq_example_calls"
proof -
  have r: "\<exists>e r. pc_of mq_example t = Returned e r" for t
    by (simp add: mq_example_def)
  have "labelled_runs mq_step mq_example ((([] @ [Tau]) @ [Tau]) @ [Tau]) mq_example_calls"
    unfolding mq_example_calls_def
    by (intro runs_nil runs_snoc [where t = "goes_to 0 (Send_Enter [5, 6] 0) mq_example"]
        runs_snoc [where t = "goes_to 1 (Send_Enter [7] 0) (goes_to 0 (Send_Enter [5, 6] 0) mq_example)"]
        runs_snoc [where t = mq_example])
      (rule call_send call_recv; simp add: mq_example_def)+
  then show ?thesis
    by simp
qed

theorem mq_in_order_witness:
  "\<exists>t. labelled_runs mq_step mq_example
     ([Tau, Tau, Tau] @ [Tau, Tau, Tau, Put [7, 0, 0, 0], Tau, Put [5, 6, 0, 0], Get [7, 0, 0, 0], Tau, Tau]) t \<and>
   [[7, 0, 0, 0], [5, 6, 0, 0]] = [[7, 0, 0, 0]] @ mq_messages t"
proof -
  let ?ls = "[Tau, Tau, Tau, Put [7, 0, 0, 0], Tau, Put [5, 6, 0, 0], Get [7, 0, 0, 0], Tau, Tau]"
  have "map_option fst (mq_schedule [0, 1, 1, 1, 0, 0, 2, 2, 2] mq_example_calls) = Some ?ls"
    by code_simp
  from fst_Some [OF this] obtain t where "mq_schedule [0, 1, 1, 1, 0, 0, 2, 2, 2] mq_example_calls = Some (?ls, t)"
    by (rule exE)
  from schedule_runs [OF this example_calls] have r: "labelled_runs mq_step mq_example ([Tau, Tau, Tau] @ ?ls) t" .
  have "\<not> list_ex is_urgent ([Tau, Tau, Tau] @ ?ls)" "Reset \<notin> set ([Tau, Tau, Tau] @ ?ls)"
    by simp_all
  from mq_in_order [OF example_created r this(2), THEN conjunct1, THEN mp, OF this(1)]
  have "[[7, 0, 0, 0], [5, 6, 0, 0]] = [[7, 0, 0, 0]] @ mq_messages t"
    by (simp only: map_append list.map concat_append concat.simps put_of.simps got_of.simps append.simps)
  with r show ?thesis
    by blast
qed

section \<open>Single calls\<close>

text \<open>
  The sections of a call, from the last one backwards, when no other thread comes between them.
\<close>

lemma schedule_first:
  assumes "mq_inv s" "\<And>b. \<not> waits b (pc_of s t)" "mq_run t s = Some u"
  shows "mq_inv u" "fifo_step (mq_messages s) (mq_label t s) (mq_messages u)"
    "mq_schedule ts u = Some (ls, v) \<Longrightarrow> mq_schedule (t # ts) s = Some (mq_label t s # ls, v)"
proof -
  have "\<not> th_suspended (threads s t)"
    using not_suspended assms(1,2) by (auto simp: mq_inv_def)
  then show "mq_inv u" "fifo_step (mq_messages s) (mq_label t s) (mq_messages u)"
    "mq_schedule ts u = Some (ls, v) \<Longrightarrow> mq_schedule (t # ts) s = Some (mq_label t s # ls, v)"
    using kernel_step [OF assms(1) runs] assms(3) by (simp_all add: mq_schedule.simps)
qed

lemma link_alone:
  assumes "mq_inv s" and pc: "pc_of s t = Send_Link urgent bs i"
  shows "\<exists>u m. mq_schedule [t] s = Some ([if urgent then Urgent m else Put m], u) \<and> pc_of u t = Returned RT_EOK [] \<and>
    take (length bs) m = bs \<and> mq_messages u = (if urgent then m # mq_messages s else mq_messages s @ [m])"
proof -
  let ?u = "mq_send_link t urgent i s" and ?m = "payload (msg_pool (mq s) ! i)"
  obtain qs fs where ok: "mq_ok s qs fs"
    using assms(1) by (auto simp: mq_inv_def)
  have l: "mq_run t s = Some ?u" "mq_label t s = (if urgent then Urgent ?m else Put ?m)"
    by (simp_all add: mq_run_def mq_label_def pc)
  have "take (length bs) ?m = bs"
    using ok pc by (auto simp: mq_ok_def dest: spec [of _ t])
  moreover have "entry (mq s) < RT_MQ_ENTRY_MAX"
    using ok pc room(2) [of "mq s" "held s" qs fs t i] by (simp add: mq_ok_def held_def)
  then have "pc_of ?u t = Returned RT_EOK []"
    by (auto simp: mq_send_link_def Let_def link_entry)
  ultimately show ?thesis
    using schedule_first(2) [OF assms(1) _ l(1)] schedule_first(3) [OF assms(1) _ l(1), of "[]" "[]"] l(2) pc
    by (cases urgent) auto
qed

lemma copy_alone:
  assumes "mq_inv s" and pc: "pc_of s t = Send_Copy urgent bs i"
  shows "\<exists>u m. mq_schedule [t, t] s = Some ([Tau, if urgent then Urgent m else Put m], u) \<and>
    pc_of u t = Returned RT_EOK [] \<and> take (length bs) m = bs \<and>
    mq_messages u = (if urgent then m # mq_messages s else mq_messages s @ [m])"
proof -
  let ?v = "mq_send_copy t urgent bs i s"
  have l: "mq_run t s = Some ?v" "mq_label t s = Tau" "pc_of ?v t = Send_Link urgent bs i"
    by (simp_all add: mq_run_def mq_label_def pc mq_send_copy_def)
  note first = schedule_first [OF assms(1) _ l(1)]
  have v: "mq_inv ?v" "mq_messages ?v = mq_messages s"
    using first(1,2) pc l(2) by simp_all
  then obtain u m where "mq_schedule [t] ?v = Some ([if urgent then Urgent m else Put m], u)"
    "pc_of u t = Returned RT_EOK [] \<and> take (length bs) m = bs \<and>
     mq_messages u = (if urgent then m # mq_messages s else mq_messages s @ [m])"
    using link_alone [OF v(1) l(3)] unfolding v(2) by blast
  then show ?thesis
    using first(3) [of "[t]"] pc l(2) by auto
qed

lemma put_alone:
  assumes "mq_inv s" and pc: "pc_of s t = Recv_Put n i bs"
  shows "\<exists>u. mq_schedule [t] s = Some ([Tau], u) \<and> pc_of u t = Returned RT_EOK bs \<and> mq_messages u = mq_messages s"
proof -
  have l: "mq_run t s = Some (mq_recv_put t i bs s)" "mq_label t s = Tau"
    by (simp_all add: mq_run_def mq_label_def pc)
  show ?thesis
    using schedule_first(2) [OF assms(1) _ l(1)] schedule_first(3) [OF assms(1) _ l(1), of "[]" "[]"] l(2) pc
    by (auto simp: mq_recv_put_def)
qed

lemma read_alone:
  assumes "mq_inv s" and pc: "pc_of s t = Recv_Copy n i"
  shows "\<exists>u. mq_schedule [t, t] s = Some ([Tau, Tau], u) \<and> mq_messages u = mq_messages s \<and>
    pc_of u t = Returned RT_EOK (take (min (unat n) (unat (msg_size (mq s)))) (payload (msg_pool (mq s) ! i)))"
proof -
  let ?v = "mq_recv_copy t n i s"
  have l: "mq_run t s = Some ?v" "mq_label t s = Tau"
    "pc_of ?v t = Recv_Put n i (take (min (unat n) (unat (msg_size (mq s)))) (payload (msg_pool (mq s) ! i)))"
    by (simp_all add: mq_run_def mq_label_def pc mq_recv_copy_def)
  note first = schedule_first [OF assms(1) _ l(1)]
  have v: "mq_inv ?v" "mq_messages ?v = mq_messages s"
    using first(1,2) pc l(2) by simp_all
  show ?thesis
    using put_alone [OF v(1) l(3)] first(3) [of "[t]"] pc l(2) v(2) by auto
qed

lemma send_call:
  assumes "mq_inv s" and pc: "pc_of s t = Send_Enter bs 0"
  shows "\<exists>k ls u. mq_schedule (replicate k t) s = Some (ls, u) \<and>
      (if unat (msg_size (mq s)) < length bs
       then pc_of u t = Returned (- RT_ERROR) [] \<and> mq u = mq s
       else if msg_queue_free (mq s) = None
       then pc_of u t = Returned (- RT_EFULL) [] \<and> mq u = mq s
       else pc_of u t = Returned RT_EOK [] \<and>
         (\<exists>m. take (length bs) m = bs \<and> mq_messages u = mq_messages s @ [m]))"
proof -
  note first = schedule_first [OF assms(1), of t]
  show ?thesis
  proof (cases "unat (msg_size (mq s)) < length bs \<or> msg_queue_free (mq s) = None")
    case True
    then show ?thesis
      using first(3) [of _ "[]" "[]"] pc
      by (intro exI [of _ "1 :: nat"]) (auto simp: mq_run_def mq_send_enter_def)
  next
    case False
    then obtain i where i: "msg_queue_free (mq s) = Some i"
      by auto
    let ?v = "goes_to t (Send_Copy False bs i) (set_mq (mq_take_free i) s)"
    have l: "mq_run t s = Some ?v" "mq_label t s = Tau" "pc_of ?v t = Send_Copy False bs i"
      using False i by (simp_all add: mq_run_def mq_label_def pc mq_send_enter_def mq_send_loop_def)
    have v: "mq_inv ?v" "mq_messages ?v = mq_messages s"
      using first(1,2) [OF _ l(1)] pc l(2) by simp_all
    obtain u m where "mq_schedule [t, t] ?v = Some ([Tau, Put m], u)" "pc_of u t = Returned RT_EOK []"
      "take (length bs) m = bs" "mq_messages u = mq_messages s @ [m]"
      using copy_alone [OF v(1) l(3)] unfolding v(2) by auto
    then show ?thesis
      using False first(3) [OF _ l(1), of "[t, t]"] pc
      by (intro exI [of _ "3 :: nat"]) (auto simp: numeral_3_eq_3)
  qed
qed

lemma recv_call:
  assumes "mq_inv s" and pc: "pc_of s t = Recv_Enter n 0"
  shows "\<exists>k ls u. mq_schedule (replicate k t) s = Some (ls, u) \<and>
      (case mq_messages s of
         [] \<Rightarrow> pc_of u t = Returned (- RT_ETIMEOUT) [] \<and> mq u = mq s
       | m # ms \<Rightarrow> pc_of u t = Returned RT_EOK (take (min (unat n) (unat (msg_size (mq s)))) m) \<and>
           mq_messages u = ms)"
proof -
  obtain qs fs where ok: "mq_ok s qs fs"
    using assms(1) by (auto simp: mq_inv_def)
  note first = schedule_first [OF assms(1), of t]
  show ?thesis
  proof (cases qs)
    case Nil
    then have "entry (mq s) = 0" "mq_messages s = []"
      using no_message [OF ok] messages_content(2) [OF ok] by (simp_all add: content_def)
    then show ?thesis
      using first(3) [of _ "[]" "[]"] pc
      by (intro exI [of _ "1 :: nat"]) (auto simp: mq_run_def mq_recv_enter_def)
  next
    case (Cons i qs')
    then have head: "msg_queue_head (mq s) = Some i" "entry (mq s) \<noteq> 0"
      "mq_messages s = payload (msg_pool (mq s) ! i) # content (mq s) qs'"
      using ok no_message [OF ok] messages_content(2) [OF ok]
      by (simp_all add: mq_ok_def cells_ok_def content_def)
    let ?v = "goes_to t (Recv_Copy n i) (set_mq (\<lambda>q. (mq_unlink i q)\<lparr>entry := entry q - 1\<rparr>) s)"
    have l: "mq_run t s = Some ?v" "mq_label t s = Get (payload (msg_pool (mq s) ! i))" "pc_of ?v t = Recv_Copy n i"
      using head(1,2)
      by (simp_all add: mq_run_def mq_label_def pc mq_recv_enter_def mq_recv_loop_def mq_first_def)
    have v: "mq_inv ?v" "mq_messages ?v = content (mq s) qs'"
      using first(1,2) [OF _ l(1)] pc l(2) head(3) by simp_all
    show ?thesis
      using read_alone [OF v(1) l(3)] first(3) [OF _ l(1), of "[t, t]"] pc v(2) head(3)
      by (intro exI [of _ "3 :: nat"]) (auto simp: numeral_3_eq_3)
  qed
qed



section \<open>Cells\<close>

lemma cells_from_all: "chain pool h is \<Longrightarrow> length is \<le> n \<Longrightarrow> cells_from pool n h = is"
proof (induction n arbitrary: h "is")
  case (Suc n)
  then show ?case
    by (cases "is") auto
qed simp

lemma reached_ok:
  assumes "mq_created s" "labelled_runs mq_step s ls t"
  obtains qs fs where "mq_ok t qs fs"
  using kernel.runs_good [OF assms(2) created_inv(1) [OF assms(1)]] by (auto simp: mq_inv_def)

text \<open>
  C13: No cell is lost, and no pointer goes wrong. In every state a queue can be in after its creation,
  each cell of the pool is in exactly one place: linked into the queue, linked into the list of free
  cells, or held by exactly one thread; \<open>entry\<close> counts the messages. No thread that may run would follow
  a null pointer, and whenever a sender is about to link its message there is room left in the
  count, so that the error of an overflowing count, which would leak a message, never happens.
\<close>

theorem mq_cells_kept:
  assumes "mq_created s" and "labelled_runs mq_step s ls t"
  shows "(\<exists>qs fs. chain (msg_pool (mq t)) (msg_queue_head (mq t)) qs \<and> chain (msg_pool (mq t)) (msg_queue_free (mq t)) fs \<and>
      unat (entry (mq t)) = length qs \<and> distinct (qs @ fs) \<and> inj_on (held t) (dom (held t)) \<and>
      ran (held t) = {..<unat (max_msgs (mq t))} - set (qs @ fs) \<and>
      set (qs @ fs) \<subseteq> {..<unat (max_msgs (mq t))}) \<and>
    (\<forall>n. \<not> th_suspended (threads t n) \<longrightarrow> mq_run n t \<noteq> None) \<and>
    (\<forall>n urgent bs i. pc_of t n = Send_Link urgent bs i \<longrightarrow> entry (mq t) < RT_MQ_ENTRY_MAX)"
proof -
  obtain qs fs where ok: "mq_ok t qs fs"
    using assms by (rule reached_ok)
  then have cells: "cells_ok (mq t) (held t) qs fs"
    by (simp add: mq_ok_def)
  show ?thesis
  proof (intro conjI)
    show "\<exists>qs fs. chain (msg_pool (mq t)) (msg_queue_head (mq t)) qs \<and> chain (msg_pool (mq t)) (msg_queue_free (mq t)) fs \<and>
      unat (entry (mq t)) = length qs \<and> distinct (qs @ fs) \<and> inj_on (held t) (dom (held t)) \<and>
      ran (held t) = {..<unat (max_msgs (mq t))} - set (qs @ fs) \<and>
      set (qs @ fs) \<subseteq> {..<unat (max_msgs (mq t))}"
      using cells unfolding cells_ok_def owns_def by (intro exI [of _ qs] exI [of _ fs]) (elim conjE, intro conjI; simp)
    show "\<forall>n. \<not> th_suspended (threads t n) \<longrightarrow> mq_run n t \<noteq> None"
      using run_follows [OF ok] by force
    show "\<forall>n urgent bs i. pc_of t n = Send_Link urgent bs i \<longrightarrow> entry (mq t) < RT_MQ_ENTRY_MAX"
    proof (intro allI impI)
      fix n urgent bs i
      assume "pc_of t n = Send_Link urgent bs i"
      then show "entry (mq t) < RT_MQ_ENTRY_MAX"
        using room(2) [OF cells, of n i] by (simp add: held_def)
    qed
  qed
qed

theorem mq_cells_kept_witness:
  "mq_run 2 mq_example_calls \<noteq> None"
proof -
  have "\<not> th_suspended (threads mq_example_calls 2)"
    by (simp add: mq_example_calls_def mq_example_def)
  with mq_cells_kept [OF example_created example_calls] show ?thesis
    by blast
qed

text \<open>
  C12: Nobody sleeps through a message. In every state a queue can be in, while a receiver is suspended
  there are at most as many messages as there are other receivers that were woken and have not run
  since; and while a sender is suspended at most as many free cells as senders that were woken. So a
  suspended thread never has to be woken by anything but the next message, or the next free cell.
\<close>

theorem mq_no_lost_wakeup:
  assumes "mq_created s" and "labelled_runs mq_step s ls t"
  shows "(suspend_thread (mq t) \<noteq> [] \<longrightarrow> length (mq_messages t) \<le> card {n. waits False (pc_of t n) \<and>
      \<not> th_suspended (threads t n) \<and> th_error (threads t n) = RT_EOK}) \<and>
    (suspend_sender_thread (mq t) \<noteq> [] \<longrightarrow>
      length (cells_from (msg_pool (mq t)) (unat (max_msgs (mq t))) (msg_queue_free (mq t))) \<le>
      card {n. waits True (pc_of t n) \<and> \<not> th_suspended (threads t n) \<and> th_error (threads t n) = RT_EOK})"
proof -
  obtain qs fs where ok: "mq_ok t qs fs"
    using assms by (rule reached_ok)
  have "distinct fs" "set fs \<subseteq> {..<unat (max_msgs (mq t))}"
    using ok by (auto simp: mq_ok_def cells_ok_def owns_def)
  then have "length fs \<le> unat (max_msgs (mq t))"
    using card_mono [of "{..<unat (max_msgs (mq t))}" "set fs"] by (simp add: distinct_card)
  then have "cells_from (msg_pool (mq t)) (unat (max_msgs (mq t))) (msg_queue_free (mq t)) = fs"
    using ok by (intro cells_from_all) (simp_all add: mq_ok_def cells_ok_def)
  then show ?thesis
    using ok messages_content(2) [OF ok] by (simp add: mq_ok_def wake_ok_def waiting_list_def woken_def content_def)
qed

text \<open>Threads 2 and 3 wait for a message, thread 0 sends one: thread 2 is woken, thread 3 waits on.\<close>

definition mq_example_waits :: mq_sys where
  "mq_example_waits =
     goes_to 0 (Send_Enter [5] 0) (goes_to 3 (Recv_Enter 4 (- 1)) (goes_to 2 (Recv_Enter 4 (- 1)) mq_example))"

lemma example_waits: "labelled_runs mq_step mq_example [Tau, Tau, Tau] mq_example_waits"
proof -
  have "labelled_runs mq_step mq_example ((([] @ [Tau]) @ [Tau]) @ [Tau]) mq_example_waits"
    unfolding mq_example_waits_def
    by (intro runs_nil
        runs_snoc [where t = "goes_to 3 (Recv_Enter 4 (- 1)) (goes_to 2 (Recv_Enter 4 (- 1)) mq_example)"]
        runs_snoc [where t = "goes_to 2 (Recv_Enter 4 (- 1)) mq_example"] runs_snoc [where t = mq_example])
      (rule call_send call_recv; simp add: mq_example_def)+
  then show ?thesis
    by simp
qed

theorem mq_no_lost_wakeup_witness:
  "\<exists>ls t. labelled_runs mq_step mq_example ls t \<and> suspend_thread (mq t) = [3] \<and> mq_messages t = [[5, 0, 0, 0]] \<and>
     1 \<le> card {n. waits False (pc_of t n) \<and> \<not> th_suspended (threads t n) \<and> th_error (threads t n) = RT_EOK}"
proof -
  have "map_option (\<lambda>(ls, t). (ls, suspend_thread (mq t), mq_messages t)) (mq_schedule [2, 3, 0, 0, 0] mq_example_waits) =
      Some ([Tau, Tau, Tau, Tau, Put [5, 0, 0, 0]], [3], [[5, 0, 0, 0]])"
    by code_simp
  then obtain ls t where t: "mq_schedule [2, 3, 0, 0, 0] mq_example_waits = Some (ls, t)"
    "suspend_thread (mq t) = [3]" "mq_messages t = [[5, 0, 0, 0]]"
    by (auto simp: map_option_case split: option.splits)
  have r: "labelled_runs mq_step mq_example ([Tau, Tau, Tau] @ ls) t"
    by (rule schedule_runs [OF t(1) example_waits])
  have "1 \<le> card {n. waits False (pc_of t n) \<and> \<not> th_suspended (threads t n) \<and> th_error (threads t n) = RT_EOK}"
    using mq_no_lost_wakeup [OF example_created r] t by simp
  with r t show ?thesis
    by blast
qed

text \<open>
  C15: A reset returns and leaves nothing behind: the queue is empty, all threads that waited are let go
  with an error, no other thread is touched, and the invariant of the queue holds again, so that messages
  that are being sent or received at that time come through. Detaching and deleting a queue return too,
  and leave no thread behind that waits on it.
\<close>

theorem mq_reset_returns:
  assumes "mq_created s" and "labelled_runs mq_step s ls t"
  shows "(\<exists>u. rt_mq_control RT_IPC_CMD_RESET t = Some (RT_EOK, u) \<and> mq_inv u \<and> mq_messages u = [] \<and>
      suspend_thread (mq u) = [] \<and> suspend_sender_thread (mq u) = [] \<and>
      threads u = (\<lambda>n. if th_suspended (threads t n)
        then (threads t n)\<lparr>th_error := - RT_ERROR, th_suspended := False, th_timer := False\<rparr> else threads t n)) \<and>
    (\<exists>u v. rt_mq_detach t = Some (RT_EOK, u) \<and> rt_mq_delete t = Some (RT_EOK, v) \<and> threads v = threads u \<and>
      suspend_thread (mq u) = [] \<and> suspend_sender_thread (mq u) = [] \<and>
      threads u = (\<lambda>n. if th_suspended (threads t n)
        then (threads t n)\<lparr>th_error := - RT_ERROR, th_suspended := False, th_timer := False\<rparr> else threads t n))"
proof (intro conjI)
  obtain qs fs where ok: "mq_ok t qs fs"
    using assms by (rule reached_ok)
  obtain u where u: "rt_mq_control RT_IPC_CMD_RESET t = Some (RT_EOK, u)" "reset_done t u"
    using control_reset [OF ok] by blast
  then obtain fs' where "mq_ok u [] fs'"
    by (auto simp: reset_done_def)
  then show "\<exists>u. rt_mq_control RT_IPC_CMD_RESET t = Some (RT_EOK, u) \<and> mq_inv u \<and> mq_messages u = [] \<and>
      suspend_thread (mq u) = [] \<and> suspend_sender_thread (mq u) = [] \<and>
      threads u = (\<lambda>n. if th_suspended (threads t n)
        then (threads t n)\<lparr>th_error := - RT_ERROR, th_suspended := False, th_timer := False\<rparr> else threads t n)"
    using u messages_content(2) [of u "[]" fs']
    by (intro exI [of _ u]) (auto simp: reset_done_def dismissed_def mq_inv_def content_def waiting_list_def all_bool_eq)
  show "\<exists>u v. rt_mq_detach t = Some (RT_EOK, u) \<and> rt_mq_delete t = Some (RT_EOK, v) \<and> threads v = threads u \<and>
      suspend_thread (mq u) = [] \<and> suspend_sender_thread (mq u) = [] \<and>
      threads u = (\<lambda>n. if th_suspended (threads t n)
        then (threads t n)\<lparr>th_error := - RT_ERROR, th_suspended := False, th_timer := False\<rparr> else threads t n)"
    using resume_waiting_ok [OF ok] unfolding dismissed_def
    by (auto simp: rt_mq_detach_def rt_mq_delete_def waiting_list_def all_bool_eq)
qed

theorem mq_reset_returns_witness:
  "\<exists>u. rt_mq_control RT_IPC_CMD_RESET mq_example_calls = Some (RT_EOK, u) \<and> mq_messages u = []"
  using mq_reset_returns [OF example_created example_calls] by blast

end
