(* ===== verification/RtWaiting.thy ===== *)
theory RtWaiting
  imports RtThread
begin

text \<open>
  A kernel object with one list of threads that wait for it, a semaphore or a mutex: the operations of
  \<open>ipc.c\<close> and \<open>thread.c\<close> on the list, and what they keep.
\<close>

section \<open>Operations\<close>

record 'pc wait_sys =
  ws_flag :: rt_ipc_flag
  ws_list :: "nat list"
  ws_thread :: "nat \<Rightarrow> 'pc rt_thread"

type_synonym ('pc, 'z) waiting = "('pc, 'z) wait_sys_scheme"

abbreviation ws_pc :: "('pc, 'z) waiting \<Rightarrow> nat \<Rightarrow> 'pc" where
  "ws_pc s t \<equiv> th_pc (ws_thread s t)"

definition ws_set :: "nat \<Rightarrow> ('pc rt_thread \<Rightarrow> 'pc rt_thread) \<Rightarrow> ('pc, 'z) waiting \<Rightarrow> ('pc, 'z) waiting" where
  "ws_set t f s = s\<lparr>ws_thread := (ws_thread s)(t := f (ws_thread s t))\<rparr>"

abbreviation ws_goto :: "nat \<Rightarrow> 'pc \<Rightarrow> ('pc, 'z) waiting \<Rightarrow> ('pc, 'z) waiting" where
  "ws_goto t pc \<equiv> ws_set t (\<lambda>th. th\<lparr>th_pc := pc\<rparr>)"

abbreviation ws_error :: "nat \<Rightarrow> rt_err \<Rightarrow> ('pc, 'z) waiting \<Rightarrow> ('pc, 'z) waiting" where
  "ws_error t e \<equiv> ws_set t (\<lambda>th. th\<lparr>th_error := e\<rparr>)"

text \<open>\<open>rt_thread_resume\<close>, \<open>_thread_timeout\<close>, \<open>_ipc_list_suspend\<close> with the start of the timer, \<open>_ipc_list_resume\<close>.\<close>

definition ws_resume :: "nat \<Rightarrow> ('pc, 'z) waiting \<Rightarrow> ('pc, 'z) waiting" where
  "ws_resume t s =
     (if \<not> th_suspended (ws_thread s t) then s
      else ws_set t (\<lambda>th. th\<lparr>th_suspended := False, th_timer := False\<rparr>) (s\<lparr>ws_list := removeAll t (ws_list s)\<rparr>))"

definition ws_timeout :: "nat \<Rightarrow> ('pc, 'z) waiting \<Rightarrow> ('pc, 'z) waiting" where
  "ws_timeout t s =
     ws_set t (\<lambda>th. th\<lparr>th_error := - RT_ETIMEOUT, th_suspended := False, th_timer := False\<rparr>)
       (s\<lparr>ws_list := removeAll t (ws_list s)\<rparr>)"

definition ws_suspend :: "nat \<Rightarrow> int \<Rightarrow> ('pc, 'z) waiting \<Rightarrow> ('pc, 'z) waiting" where
  "ws_suspend t timeout s =
     ws_set t (\<lambda>th. th\<lparr>th_suspended := True, th_timer := timeout > 0\<rparr>)
       (s\<lparr>ws_list := ipc_list_insert (ws_flag s) (\<lambda>n. th_priority (ws_thread s n)) t (ws_list s)\<rparr>)"

definition ws_wake :: "('pc, 'z) waiting \<Rightarrow> ('pc, 'z) waiting" where
  "ws_wake s = (case ws_list s of [] \<Rightarrow> s | t # _ \<Rightarrow> ws_resume t s)"

text \<open>\<open>_ipc_list_resume_all\<close>; \<open>None\<close>: the loop does not end.\<close>

definition ws_resume_all :: "('pc, 'z) waiting \<Rightarrow> ('pc, 'z) waiting option" where
  "ws_resume_all = while_option (\<lambda>s. ws_list s \<noteq> []) (\<lambda>s. let t = hd (ws_list s) in ws_resume t (ws_error t (- RT_ERROR) s))"

section \<open>Invariant\<close>

text \<open>
  The threads in the list are those that are suspended; they are where \<open>waits\<close> says that a thread waits,
  without an error, and only they have a timer that runs.
\<close>

definition ws_ok :: "('pc \<Rightarrow> bool) \<Rightarrow> ('pc, 'z) waiting \<Rightarrow> bool" where
  "ws_ok waits s \<longleftrightarrow> distinct (ws_list s) \<and> (\<forall>t. t \<in> set (ws_list s) \<longleftrightarrow> th_suspended (ws_thread s t)) \<and>
     (\<forall>t. (th_suspended (ws_thread s t) \<longrightarrow> waits (ws_pc s t) \<and> th_error (ws_thread s t) = RT_EOK) \<and>
       (th_timer (ws_thread s t) \<longrightarrow> th_suspended (ws_thread s t)))"

text \<open>The threads that were woken without an error, and have not run yet.\<close>

definition ws_woken :: "('pc \<Rightarrow> bool) \<Rightarrow> ('pc, 'z) waiting \<Rightarrow> nat set" where
  "ws_woken waits s = {t. waits (ws_pc s t) \<and> \<not> th_suspended (ws_thread s t) \<and> th_error (ws_thread s t) = RT_EOK}"

lemma ws_okD:
  assumes "ws_ok waits s"
  shows "distinct (ws_list s)" "t \<in> set (ws_list s) \<longleftrightarrow> th_suspended (ws_thread s t)"
    "th_suspended (ws_thread s t) \<Longrightarrow> waits (ws_pc s t)"
    "th_suspended (ws_thread s t) \<Longrightarrow> th_error (ws_thread s t) = RT_EOK"
    "th_timer (ws_thread s t) \<Longrightarrow> th_suspended (ws_thread s t)"
  using assms unfolding ws_ok_def by blast+

lemma ws_set_fields [simp]:
  "ws_list (ws_set t f s) = ws_list s" "ws_flag (ws_set t f s) = ws_flag s"
  "ws_thread (ws_set t f s) = (ws_thread s)(t := f (ws_thread s t))"
  by (simp_all add: ws_set_def)

lemma ws_ok_cong:
  "ws_list s' = ws_list s \<Longrightarrow> ws_thread s' = ws_thread s \<Longrightarrow> ws_ok waits s' = ws_ok waits s"
  "ws_thread s' = ws_thread s \<Longrightarrow> ws_woken waits s' = ws_woken waits s"
  by (simp_all add: ws_ok_def ws_woken_def)

text \<open>A thread that is not suspended runs.\<close>

lemma ws_set_ok:
  assumes "ws_ok waits s" "\<not> th_suspended (ws_thread s t)"
    and "\<not> th_suspended (f (ws_thread s t))" "th_timer (f (ws_thread s t)) = th_timer (ws_thread s t)"
  shows "ws_ok waits (ws_set t f s)"
  using assms ws_okD(5) [OF assms(1), of t] by (auto simp: ws_ok_def)

lemma ws_set_woken:
  "ws_woken waits (ws_set t f s) =
     (if waits (th_pc (f (ws_thread s t))) \<and> \<not> th_suspended (f (ws_thread s t)) \<and> th_error (f (ws_thread s t)) = RT_EOK
      then insert t (ws_woken waits s) else ws_woken waits s - {t})"
  by (auto simp: ws_woken_def)

text \<open>A thread that was suspended is taken off the list.\<close>

definition ws_off :: "nat \<Rightarrow> rt_err \<Rightarrow> ('pc, 'z) waiting \<Rightarrow> ('pc, 'z) waiting" where
  "ws_off t e s = ws_set t (\<lambda>th. th\<lparr>th_error := e, th_suspended := False, th_timer := False\<rparr>)
     (s\<lparr>ws_list := removeAll t (ws_list s)\<rparr>)"

lemma ws_off_fields [simp]:
  "ws_list (ws_off t e s) = removeAll t (ws_list s)" "ws_flag (ws_off t e s) = ws_flag s"
  "ws_thread (ws_off t e s) =
     (ws_thread s)(t := (ws_thread s t)\<lparr>th_error := e, th_suspended := False, th_timer := False\<rparr>)"
  "ws_pc (ws_off t e s) t' = ws_pc s t'"
  by (simp_all add: ws_off_def)

lemma ws_off_ok: "ws_ok waits s \<Longrightarrow> ws_ok waits (ws_off t e s)"
  by (auto simp: ws_ok_def distinct_removeAll)

lemma ws_off_woken:
  assumes "ws_ok waits s" "th_suspended (ws_thread s t)"
  shows "ws_woken waits (ws_off t e s) = (if e = RT_EOK then insert t (ws_woken waits s) else ws_woken waits s)"
    "t \<notin> ws_woken waits s"
  using assms ws_okD(3) [OF assms] by (auto simp: ws_woken_def)

lemma ws_timeout_off: "ws_timeout t s = ws_off t (- RT_ETIMEOUT) s"
  by (simp add: ws_timeout_def ws_off_def)

lemma ws_wake_cases:
  assumes "ws_ok waits s"
  shows "ws_wake s = (case ws_list s of [] \<Rightarrow> s | t # _ \<Rightarrow> ws_off t RT_EOK s)"
proof (cases "ws_list s")
  case (Cons t ts)
  then have t: "th_suspended (ws_thread s t)"
    using ws_okD(2) [OF assms, of t] by simp
  then have "ws_thread s t = (ws_thread s t)\<lparr>th_error := RT_EOK\<rparr>"
    using ws_okD(4) [OF assms t] by simp
  with t Cons show ?thesis
    unfolding ws_wake_def ws_resume_def ws_off_def ws_set_def by simp
qed (simp add: ws_wake_def)

lemma ws_suspend_ok:
  assumes "ws_ok waits s" "\<not> th_suspended (ws_thread s t)" "waits (ws_pc s t)" "th_error (ws_thread s t) = RT_EOK"
  shows "ws_ok waits (ws_suspend t timeout s)" "ws_woken waits (ws_suspend t timeout s) = ws_woken waits s - {t}"
  using assms ws_okD(2) [OF assms(1), of t] by (auto simp: ws_ok_def ws_woken_def ws_suspend_def insert_props)

text \<open>Resuming all threads ends, whatever the object is.\<close>

lemma ws_resume_all_ok:
  fixes s :: "('pc, 'z) waiting"
  assumes "ws_ok waits s"
  shows "\<exists>u. ws_resume_all s = Some u \<and> ws_ok waits u \<and> u = s\<lparr>ws_list := [],
    ws_thread := (\<lambda>t. if th_suspended (ws_thread s t) then dismissed (ws_thread s t) else ws_thread s t)\<rparr>"
  using assms
proof (induction "length (ws_list s)" arbitrary: s)
  case 0
  then have "\<not> th_suspended (ws_thread s t)" for t
    using ws_okD(2) [OF 0(2), of t] by simp
  with 0 show ?case
    by (simp add: ws_resume_all_def while_option_unfold)
next
  case (Suc n)
  then obtain t ts where ts: "ws_list s = t # ts"
    by (cases "ws_list s") auto
  then have t: "th_suspended (ws_thread s t)"
    using ws_okD(2) [OF Suc.prems, of t] by simp
  let ?u = "ws_off t (- RT_ERROR) s"
  have body: "ws_resume t (ws_error t (- RT_ERROR) s) = ?u"
    using t by (simp add: ws_resume_def ws_off_def ws_set_def)
  have u: "ws_ok waits ?u" "n = length (ws_list ?u)"
    using ws_off_ok [OF Suc.prems] Suc.hyps(2) ws_okD(1) [OF Suc.prems] ts by simp_all
  obtain v where v: "ws_resume_all ?u = Some v" "ws_ok waits v" "v = ?u\<lparr>ws_list := [],
      ws_thread := (\<lambda>t. if th_suspended (ws_thread ?u t) then dismissed (ws_thread ?u t) else ws_thread ?u t)\<rparr>"
    using Suc.hyps(1) [OF u(2,1)] by blast
  have "(\<lambda>t'. if th_suspended (ws_thread ?u t') then dismissed (ws_thread ?u t') else ws_thread ?u t') =
      (\<lambda>t'. if th_suspended (ws_thread s t') then dismissed (ws_thread s t') else ws_thread s t')"
    using t by (auto simp: dismissed_def)
  then have "v = s\<lparr>ws_list := [],
      ws_thread := (\<lambda>t'. if th_suspended (ws_thread s t') then dismissed (ws_thread s t') else ws_thread s t')\<rparr>"
    unfolding v(3) by (simp add: ws_off_def ws_set_def)
  moreover have "ws_resume_all s = ws_resume_all ?u"
    unfolding ws_resume_all_def by (subst while_option_unfold) (simp add: ts body)
  ultimately show ?case
    using v(1,2) by simp
qed

end
