(* ===== verification/RtSemaphore.thy ===== *)
theory RtSemaphore
  imports RtWaiting
begin

text \<open>
  The semaphore of \<open>src/rt-thread/src/ipc.c\<close>, by which \<open>hcics_cleaner_start\<close> starts the thread of the
  cleaner, and the interface \<open>permits\<close>: what is taken was released before, or was there from the
  beginning.
\<close>

section \<open>Interface\<close>

text \<open>A thread has taken a permit, released one, or the object was reset to a number of permits.\<close>

datatype sem_act = Sem_Tau | Taken nat | Released nat | Sem_Reset

fun takes :: "sem_act \<Rightarrow> nat" where
  "takes (Taken t) = 1" | "takes _ = 0"

fun gives :: "sem_act \<Rightarrow> nat" where
  "gives (Released t) = 1" | "gives _ = 0"

locale permits =
  fixes step :: "'s \<Rightarrow> sem_act \<Rightarrow> 's \<Rightarrow> bool" and stock :: "'s \<Rightarrow> nat" and good :: "'s \<Rightarrow> bool"
  assumes step_good: "good s \<Longrightarrow> step s l t \<Longrightarrow> good t"
    and step_stock: "good s \<Longrightarrow> step s l t \<Longrightarrow> l \<noteq> Sem_Reset \<Longrightarrow> stock t + takes l = stock s + gives l"
begin

lemma runs_good: "labelled_runs step s ls t \<Longrightarrow> good s \<Longrightarrow> good t"
  by (erule labelled_runs_keep) (auto intro: step_good)

lemma runs_stock:
  assumes "labelled_runs step s ls t" "good s" "Sem_Reset \<notin> set ls"
  shows "stock t + sum_list (map takes ls) = stock s + sum_list (map gives ls)"
  using assms
proof (induction rule: labelled_runs.induct)
  case (runs_snoc s ls t l u)
  then have "stock u + takes l = stock t + gives l"
    by (intro step_stock) (auto intro: runs_good)
  with runs_snoc show ?case
    by simp
qed simp

end

section \<open>The semaphore\<close>

datatype sem_pc = Sem_Out rt_err | Sem_Take int | Sem_Wait | Sem_Release

record sem_sys = "sem_pc wait_sys" +
  sm_value :: u16

definition RT_SEM_VALUE_MAX :: u16 where "RT_SEM_VALUE_MAX = 65535"

text \<open>\<open>rt_sem_init\<close> and \<open>rt_sem_create\<close>; the value is below \<open>0x10000\<close>. \<open>None\<close>: there is no memory.\<close>

definition rt_sem_init :: "u32 \<Rightarrow> rt_ipc_flag \<Rightarrow> sem_sys \<Rightarrow> sem_sys" where
  "rt_sem_init v flag s = s\<lparr>ws_list := [], sm_value := ucast v, ws_flag := flag\<rparr>"

definition rt_sem_create :: "bool \<Rightarrow> u32 \<Rightarrow> rt_ipc_flag \<Rightarrow> sem_sys \<Rightarrow> sem_sys option" where
  "rt_sem_create allocated v flag s = (if \<not> allocated then None else Some (rt_sem_init v flag s))"

text \<open>\<open>rt_sem_take\<close> up to where it returns or waits, and when the thread was resumed; \<open>rt_sem_release\<close>.\<close>

definition sem_take :: "nat \<Rightarrow> int \<Rightarrow> sem_sys \<Rightarrow> sem_sys" where
  "sem_take t time s =
     (if sm_value s > 0 then ws_goto t (Sem_Out RT_EOK) (s\<lparr>sm_value := sm_value s - 1\<rparr>)
      else if time = 0 then ws_goto t (Sem_Out (- RT_ETIMEOUT)) s
      else ws_suspend t time (ws_goto t Sem_Wait (ws_error t RT_EOK s)))"

definition sem_taken :: "nat \<Rightarrow> sem_sys \<Rightarrow> sem_sys" where
  "sem_taken t s =
     (if th_error (ws_thread s t) \<noteq> RT_EOK then ws_goto t (Sem_Out (th_error (ws_thread s t))) s
      else ws_goto t (Sem_Out RT_EOK) s)"

definition rt_sem_release :: "nat \<Rightarrow> sem_sys \<Rightarrow> sem_sys" where
  "rt_sem_release t s =
     (if ws_list s \<noteq> [] then ws_goto t (Sem_Out RT_EOK) (ws_wake s)
      else if sm_value s < RT_SEM_VALUE_MAX
      then ws_goto t (Sem_Out RT_EOK) (s\<lparr>sm_value := sm_value s + 1\<rparr>)
      else ws_goto t (Sem_Out (- RT_EFULL)) s)"

text \<open>\<open>rt_sem_control\<close>; \<open>rt_sem_detach\<close> and \<open>rt_sem_delete\<close>. \<open>None\<close>: they do not return.\<close>

definition rt_sem_control :: "bool \<Rightarrow> u32 \<Rightarrow> sem_sys \<Rightarrow> (rt_err \<times> sem_sys) option" where
  "rt_sem_control reset v s =
     (if reset then do { s \<leftarrow> ws_resume_all s; Some (RT_EOK, s\<lparr>sm_value := ucast v\<rparr>) }
      else Some (- RT_ERROR, s))"

definition rt_sem_detach :: "sem_sys \<Rightarrow> (rt_err \<times> sem_sys) option" where
  "rt_sem_detach s = do { s \<leftarrow> ws_resume_all s; Some (RT_EOK, s) }"

definition rt_sem_delete :: "sem_sys \<Rightarrow> (rt_err \<times> sem_sys) option" where
  "rt_sem_delete s = do { s \<leftarrow> ws_resume_all s; Some (RT_EOK, s) }"

definition sem_run :: "nat \<Rightarrow> sem_sys \<Rightarrow> sem_sys" where
  "sem_run t s =
     (case ws_pc s t of
        Sem_Out e \<Rightarrow> s
      | Sem_Take time \<Rightarrow> sem_take t time s
      | Sem_Wait \<Rightarrow> sem_taken t s
      | Sem_Release \<Rightarrow> rt_sem_release t s)"

text \<open>A call that returns \<open>RT_EOK\<close> has taken or released a permit.\<close>

definition sem_label :: "nat \<Rightarrow> sem_sys \<Rightarrow> sem_act" where
  "sem_label t s =
     (if ws_pc (sem_run t s) t \<noteq> Sem_Out RT_EOK then Sem_Tau
      else case ws_pc s t of
        Sem_Out e \<Rightarrow> Sem_Tau
      | Sem_Release \<Rightarrow> Released t
      | _ \<Rightarrow> Taken t)"

text \<open>As in the message queue; a reset is called by any thread that is not in a call.\<close>

inductive sem_step :: "sem_sys \<Rightarrow> sem_act \<Rightarrow> sem_sys \<Rightarrow> bool" where
  sem_calls: "ws_pc s t = Sem_Out e \<Longrightarrow> pc = Sem_Release \<or> pc = Sem_Take time \<Longrightarrow> sem_step s Sem_Tau (ws_goto t pc s)"
| sem_runs: "\<not> th_suspended (ws_thread s t) \<Longrightarrow> sem_step s (sem_label t s) (sem_run t s)"
| sem_expires: "th_timer (ws_thread s t) \<Longrightarrow> sem_step s Sem_Tau (ws_timeout t s)"
| sem_controls: "ws_pc s t = Sem_Out e \<Longrightarrow> rt_sem_control reset v s = Some (e', u) \<Longrightarrow>
    sem_step s (if reset then Sem_Reset else Sem_Tau) (ws_goto t (Sem_Out e') u)"

section \<open>Permits\<close>

text \<open>The permits of a semaphore: its value, and what was handed to threads that were woken.\<close>

abbreviation sem_woken :: "sem_sys \<Rightarrow> nat set" where
  "sem_woken \<equiv> ws_woken (\<lambda>pc. pc = Sem_Wait)"

definition sem_stock :: "sem_sys \<Rightarrow> nat" where
  "sem_stock s = unat (sm_value s) + card (sem_woken s)"

definition sem_ok :: "sem_sys \<Rightarrow> bool" where
  "sem_ok s \<longleftrightarrow> ws_ok (\<lambda>pc. pc = Sem_Wait) s \<and> finite (sem_woken s) \<and> (ws_list s \<noteq> [] \<longrightarrow> sm_value s = 0)"

lemma sm_value_fields [simp]:
  "sm_value (ws_set t f s) = sm_value s" "sm_value (ws_off t e s) = sm_value s" "sm_value (ws_suspend t n s) = sm_value s"
  by (simp_all add: ws_set_def ws_off_def ws_suspend_def)

lemma sem_okD:
  assumes "sem_ok s"
  shows "ws_ok (\<lambda>pc. pc = Sem_Wait) s" "finite (sem_woken s)" "ws_list s \<noteq> [] \<Longrightarrow> sm_value s = 0"
    "th_suspended (ws_thread s t) \<Longrightarrow> ws_pc s t = Sem_Wait"
  using assms ws_okD(3) [of "\<lambda>pc. pc = Sem_Wait" s t] by (auto simp: sem_ok_def)

text \<open>A thread returns from a call, or enters one.\<close>

lemma sem_goto:
  assumes "sem_ok s" "\<not> th_suspended (ws_thread s t)" "pc \<noteq> Sem_Wait" "ws_list s \<noteq> [] \<Longrightarrow> v = 0"
  shows "sem_ok (ws_goto t pc (s\<lparr>sm_value := v\<rparr>))"
    "sem_woken (ws_goto t pc (s\<lparr>sm_value := v\<rparr>)) = sem_woken s - {t}"
proof -
  let ?s = "s\<lparr>sm_value := v\<rparr>"
  have s: "ws_ok (\<lambda>pc. pc = Sem_Wait) ?s" "sem_woken ?s = sem_woken s"
    using sem_okD(1) [OF assms(1)] ws_ok_cong [of ?s s] by simp_all
  show "sem_woken (ws_goto t pc ?s) = sem_woken s - {t}"
    using assms(3) s(2) by (simp add: ws_set_woken)
  then show "sem_ok (ws_goto t pc ?s)"
    using ws_set_ok [OF s(1), of t] assms sem_okD(2) [OF assms(1)] by (simp add: sem_ok_def)
qed

lemma sem_goto_same:
  assumes "sem_ok s" "\<not> th_suspended (ws_thread s t)" "pc \<noteq> Sem_Wait"
  shows "sem_ok (ws_goto t pc s)" "sem_woken (ws_goto t pc s) = sem_woken s - {t}"
  using sem_goto [OF assms, of "sm_value s"] sem_okD(3) [OF assms(1)] by simp_all

lemma sem_not_woken: "ws_pc s t \<noteq> Sem_Wait \<Longrightarrow> t \<notin> sem_woken s"
  by (simp add: ws_woken_def)

lemma sem_take_ok:
  assumes ok: "sem_ok s" and t: "\<not> th_suspended (ws_thread s t)" "ws_pc s t = Sem_Take time"
  shows "sem_ok (sem_take t time s)"
    "sem_stock (sem_take t time s) + (if ws_pc (sem_take t time s) t = Sem_Out RT_EOK then 1 else 0) = sem_stock s"
proof -
  have W: "sem_woken s - {t} = sem_woken s"
    using sem_not_woken [of s t] t(2) by simp
  have *: "sem_ok (sem_take t time s) \<and>
    sem_stock (sem_take t time s) + (if ws_pc (sem_take t time s) t = Sem_Out RT_EOK then 1 else 0) = sem_stock s"
  proof (cases "sm_value s > 0")
    case True
    then have "ws_list s = []" "unat (sm_value s - 1) + 1 = unat (sm_value s)"
      using sem_okD(3) [OF ok] unat_minus_one [of "sm_value s"] by (auto simp: word_gt_0 unat_gt_0)
    then show ?thesis
      using True sem_goto [OF ok t(1), of "Sem_Out RT_EOK" "sm_value s - 1"] W
      by (simp add: sem_take_def sem_stock_def)
  next
    case False
    show ?thesis
    proof (cases "time = 0")
      case True
      then show ?thesis
        using False sem_goto_same [OF ok t(1), of "Sem_Out (- RT_ETIMEOUT)"] W
        by (simp add: sem_take_def sem_stock_def RT_ETIMEOUT_def RT_EOK_def)
    next
      case wait: False
      let ?s = "ws_goto t Sem_Wait (ws_error t RT_EOK s)"
      have e: "ws_ok (\<lambda>pc. pc = Sem_Wait) (ws_error t RT_EOK s)"
        by (rule ws_set_ok [OF sem_okD(1) [OF ok] t(1)]) (simp_all add: t(1))
      have s: "ws_ok (\<lambda>pc. pc = Sem_Wait) ?s"
        by (rule ws_set_ok [OF e]) (simp_all add: t(1))
      have "ws_ok (\<lambda>pc. pc = Sem_Wait) (ws_suspend t time ?s)" "sem_woken (ws_suspend t time ?s) = sem_woken ?s - {t}"
        by (rule ws_suspend_ok [OF s]; simp add: t(1))+
      moreover have "sem_woken ?s - {t} = sem_woken s"
        using W by (auto simp: ws_set_woken t)
      moreover have "ws_pc (ws_suspend t time ?s) t = Sem_Wait"
        by (simp add: ws_suspend_def)
      ultimately show ?thesis
        using False wait sem_okD(2) [OF ok] by (simp add: sem_take_def sem_stock_def sem_ok_def word_gt_0)
    qed
  qed
  then show "sem_ok (sem_take t time s)"
    "sem_stock (sem_take t time s) + (if ws_pc (sem_take t time s) t = Sem_Out RT_EOK then 1 else 0) = sem_stock s"
    by simp_all
qed

lemma sem_taken_ok:
  assumes ok: "sem_ok s" and t: "\<not> th_suspended (ws_thread s t)" "ws_pc s t = Sem_Wait"
  shows "sem_ok (sem_taken t s)"
    "sem_stock (sem_taken t s) + (if ws_pc (sem_taken t s) t = Sem_Out RT_EOK then 1 else 0) = sem_stock s"
proof -
  note goto = sem_goto_same [OF ok t(1), of "Sem_Out (th_error (ws_thread s t))"]
  have "sem_taken t s = ws_goto t (Sem_Out (th_error (ws_thread s t))) s"
    by (simp add: sem_taken_def)
  moreover have "t \<in> sem_woken s \<longleftrightarrow> th_error (ws_thread s t) = RT_EOK"
    using t by (simp add: ws_woken_def)
  moreover have "card (sem_woken s - {t}) + (if t \<in> sem_woken s then 1 else 0) = card (sem_woken s)"
    using sem_okD(2) [OF ok] card_Suc_Diff1 [of "sem_woken s" t] by simp
  ultimately show "sem_ok (sem_taken t s)"
    "sem_stock (sem_taken t s) + (if ws_pc (sem_taken t s) t = Sem_Out RT_EOK then 1 else 0) = sem_stock s"
    using goto by (simp_all add: sem_stock_def)
qed

lemma sem_release_ok:
  assumes ok: "sem_ok s" and t: "\<not> th_suspended (ws_thread s t)" "ws_pc s t = Sem_Release"
  shows "sem_ok (rt_sem_release t s)"
    "sem_stock (rt_sem_release t s) = sem_stock s + (if ws_pc (rt_sem_release t s) t = Sem_Out RT_EOK then 1 else 0)"
proof -
  have W: "t \<notin> sem_woken s"
    using sem_not_woken [of s t] t(2) by simp
  have *: "sem_ok (rt_sem_release t s) \<and>
    sem_stock (rt_sem_release t s) = sem_stock s + (if ws_pc (rt_sem_release t s) t = Sem_Out RT_EOK then 1 else 0)"
  proof (cases "ws_list s")
    case Nil
    show ?thesis
    proof (cases "sm_value s < RT_SEM_VALUE_MAX")
      case True
      then have "unat (sm_value s + 1) = unat (sm_value s) + 1"
        by (simp add: RT_SEM_VALUE_MAX_def word_less_nat_alt unat_word_ariths)
      then show ?thesis
        using True Nil sem_goto [OF ok t(1), of "Sem_Out RT_EOK" "sm_value s + 1"] W
        by (simp add: rt_sem_release_def sem_stock_def)
    next
      case False
      then show ?thesis
        using Nil sem_goto_same [OF ok t(1), of "Sem_Out (- RT_EFULL)"] W
        by (simp add: rt_sem_release_def sem_stock_def RT_EFULL_def RT_EOK_def)
    qed
  next
    case (Cons w ws)
    have w: "th_suspended (ws_thread s w)"
      using ws_okD(2) [OF sem_okD(1) [OF ok], of w] Cons by simp
    let ?s = "ws_off w RT_EOK s"
    have v: "sm_value s = 0"
      using sem_okD(3) [OF ok] Cons by simp
    have woken: "sem_woken ?s = insert w (sem_woken s)" "w \<notin> sem_woken s"
      using ws_off_woken(1) [OF sem_okD(1) [OF ok] w, of RT_EOK] ws_off_woken(2) [OF sem_okD(1) [OF ok] w] by simp_all
    have s: "sem_ok ?s"
      using ws_off_ok [OF sem_okD(1) [OF ok], of w RT_EOK] sem_okD(2) [OF ok] woken(1) v by (simp add: sem_ok_def)
    have "t \<noteq> w" "rt_sem_release t s = ws_goto t (Sem_Out RT_EOK) ?s"
      using w t(1) Cons ws_wake_cases [OF sem_okD(1) [OF ok]] by (auto simp: rt_sem_release_def)
    moreover have "sem_woken ?s - {t} = insert w (sem_woken s)"
      using woken(1) W \<open>t \<noteq> w\<close> by auto
    ultimately show ?thesis
      using sem_goto_same [OF s, of t "Sem_Out RT_EOK"] t(1) v woken(2) sem_okD(2) [OF ok]
      by (simp add: sem_stock_def)
  qed
  then show "sem_ok (rt_sem_release t s)"
    "sem_stock (rt_sem_release t s) = sem_stock s + (if ws_pc (rt_sem_release t s) t = Sem_Out RT_EOK then 1 else 0)"
    by simp_all
qed

lemma sem_run_ok:
  assumes "sem_ok s" "\<not> th_suspended (ws_thread s t)"
  shows "sem_ok (sem_run t s)" "sem_stock (sem_run t s) + takes (sem_label t s) = sem_stock s + gives (sem_label t s)"
proof -
  note pcs = sem_run_def sem_label_def
  have "sem_ok (sem_run t s) \<and> sem_stock (sem_run t s) + takes (sem_label t s) = sem_stock s + gives (sem_label t s)"
  proof (cases "ws_pc s t")
    case (Sem_Out e)
    then show ?thesis
      using assms(1) by (simp add: pcs)
  next
    case (Sem_Take time)
    then show ?thesis
      using sem_take_ok [OF assms Sem_Take] by (simp add: pcs split: if_splits)
  next
    case Sem_Wait
    then show ?thesis
      using sem_taken_ok [OF assms Sem_Wait] by (simp add: pcs split: if_splits)
  next
    case Sem_Release
    then show ?thesis
      using sem_release_ok [OF assms Sem_Release] by (simp add: pcs split: if_splits)
  qed
  then show "sem_ok (sem_run t s)" "sem_stock (sem_run t s) + takes (sem_label t s) = sem_stock s + gives (sem_label t s)"
    by simp_all
qed

lemma sem_step_ok:
  assumes "sem_step s l u" "sem_ok s"
  shows "sem_ok u \<and> (l \<noteq> Sem_Reset \<longrightarrow> sem_stock u + takes l = sem_stock s + gives l)"
  using assms
proof (induction rule: sem_step.induct)
  case (sem_calls s t e pc time)
  then have t: "\<not> th_suspended (ws_thread s t)" "sem_woken s - {t} = sem_woken s" "pc \<noteq> Sem_Wait"
    using sem_okD(4) [of s t] sem_not_woken [of s t] by auto
  then show ?case
    using sem_goto_same [OF sem_calls(3) t(1,3)] by (simp add: sem_stock_def)
next
  case (sem_runs s t)
  then show ?case
    using sem_run_ok by simp
next
  case (sem_expires s t)
  then have "th_suspended (ws_thread s t)"
    using ws_okD(5) [OF sem_okD(1), of s t] by simp
  then have "sem_woken (ws_timeout t s) = sem_woken s"
    using ws_off_woken(1) [OF sem_okD(1) [OF sem_expires(2)], of t "- RT_ETIMEOUT"]
    by (simp add: ws_timeout_off RT_ETIMEOUT_def RT_EOK_def)
  then show ?case
    using sem_expires(2) ws_off_ok [OF sem_okD(1) [OF sem_expires(2)], of t "- RT_ETIMEOUT"]
    by (auto simp: sem_ok_def sem_stock_def ws_timeout_off)
next
  case (sem_controls s t e reset v e' u)
  have t: "\<not> th_suspended (ws_thread s t)" "sem_woken s - {t} = sem_woken s"
    using sem_controls sem_okD(4) [of s t] sem_not_woken [of s t] by auto
  show ?case
  proof (cases reset)
    case False
    then show ?thesis
      using sem_goto_same [OF sem_controls(3) t(1), of "Sem_Out e'"] sem_controls(2) t(2) by (simp add: sem_stock_def rt_sem_control_def)
  next
    case True
    let ?w = "s\<lparr>ws_list := [],
      ws_thread := (\<lambda>t. if th_suspended (ws_thread s t) then dismissed (ws_thread s t) else ws_thread s t)\<rparr>"
    have w: "ws_ok (\<lambda>pc. pc = Sem_Wait) ?w" "u = ?w\<lparr>sm_value := ucast v\<rparr>"
      using ws_resume_all_ok [OF sem_okD(1) [OF sem_controls(3)]] True sem_controls(2)
      by (auto simp: rt_sem_control_def)
    have "sem_woken ?w = sem_woken s"
      by (auto simp: ws_woken_def dismissed_def RT_ERROR_def RT_EOK_def)
    then have "sem_ok ?w"
      using w(1) sem_okD(2) [OF sem_controls(3)] by (simp add: sem_ok_def)
    from sem_goto(1) [OF this, of t "Sem_Out e'" "ucast v"] t(1) True show ?thesis
      by (simp add: w(2))
  qed
qed

interpretation semaphore: permits sem_step sem_stock sem_ok
  by unfold_locales (use sem_step_ok in blast)+

text \<open>A semaphore as \<open>rt_sem_init\<close> leaves it, and no thread in a call.\<close>

definition sem_created :: "u32 \<Rightarrow> sem_sys \<Rightarrow> bool" where
  "sem_created v s \<longleftrightarrow> v < 0x10000 \<and> (\<exists>flag s0. s = rt_sem_init v flag s0) \<and>
     (\<forall>t. (\<exists>e. ws_pc s t = Sem_Out e) \<and> \<not> th_suspended (ws_thread s t) \<and> \<not> th_timer (ws_thread s t))"

lemma sem_created_ok:
  assumes "sem_created v s"
  shows "sem_ok s" "sem_stock s = unat v"
proof -
  obtain flag s0 where s: "s = rt_sem_init v flag s0"
    using assms by (auto simp: sem_created_def)
  have pc: "ws_pc s t \<noteq> Sem_Wait" "\<not> th_suspended (ws_thread s t)" "\<not> th_timer (ws_thread s t)" for t
    using assms unfolding sem_created_def by (metis sem_pc.distinct(3))+
  then have w: "sem_woken s = {}"
    by (simp add: ws_woken_def)
  moreover have l: "ws_list s = []" "sm_value s = ucast v"
    by (simp_all add: s rt_sem_init_def)
  ultimately show "sem_ok s"
    using pc by (simp add: sem_ok_def ws_ok_def)
  have "unat (ucast v :: u16) = unat v"
    using assms by (simp add: sem_created_def word_less_nat_alt unsigned_ucast_eq unsigned_take_bit_eq take_bit_nat_eq_self)
  then show "sem_stock s = unat v"
    using w l by (simp add: sem_stock_def)
qed

text \<open>
  C17: Permits are neither lost nor made up. Whatever calls the threads make, however they are interleaved,
  whichever of them wait or run into a timeout: the permits at the beginning and those released are those
  taken, those left in the value, and those handed to threads that were woken and have yet to return. Nobody
  waits while a permit is left. A reset returns with all threads that waited let go.
\<close>

theorem sem_conserved:
  assumes "sem_created v s" and "labelled_runs sem_step s ls t" and "Sem_Reset \<notin> set ls"
  shows "unat v + sum_list (map gives ls) = sum_list (map takes ls) + unat (sm_value t) +
      card {n. ws_pc t n = Sem_Wait \<and> \<not> th_suspended (ws_thread t n) \<and> th_error (ws_thread t n) = RT_EOK} \<and>
    (ws_list t \<noteq> [] \<longrightarrow> sm_value t = 0) \<and> (\<forall>n. th_suspended (ws_thread t n) \<longleftrightarrow> n \<in> set (ws_list t)) \<and>
    (\<exists>u. rt_sem_control True w t = Some (RT_EOK, u) \<and> sm_value u = ucast w \<and> ws_list u = [] \<and>
      (\<forall>n. \<not> th_suspended (ws_thread u n)))"
proof -
  have ok: "sem_ok t"
    using semaphore.runs_good [OF assms(2)] sem_created_ok(1) [OF assms(1)] by simp
  have stock: "sem_stock t + sum_list (map takes ls) = unat v + sum_list (map gives ls)"
    using semaphore.runs_stock [OF assms(2) _ assms(3)] sem_created_ok [OF assms(1)] by simp
  obtain u where "ws_resume_all t = Some u" "ws_list u = []" "\<And>n. \<not> th_suspended (ws_thread u n)"
    using ws_resume_all_ok [OF sem_okD(1) [OF ok]] by (auto simp: dismissed_def)
  then show ?thesis
    using stock sem_okD(3) [OF ok] ws_okD(2) [OF sem_okD(1) [OF ok]]
    by (auto simp: sem_stock_def ws_woken_def rt_sem_control_def)
qed

text \<open>Thread 0 waits for the semaphore; thread 1 releases it, and thread 0 returns with the permit.\<close>

definition sem_example :: sem_sys where
  "sem_example = rt_sem_init 0 RT_IPC_FLAG_FIFO \<lparr>ws_flag = RT_IPC_FLAG_FIFO, ws_list = [],
     ws_thread = (\<lambda>_. \<lparr>th_pc = Sem_Out 0, th_error = 0, th_priority = 10, th_suspended = False, th_timer = False\<rparr>),
     sm_value = 0\<rparr>"

lemma sem_example_created: "sem_created 0 sem_example"
  unfolding sem_created_def
  by (intro conjI exI [of _ RT_IPC_FLAG_FIFO] exI [of _ sem_example]) (simp_all add: sem_example_def rt_sem_init_def)

lemma sem_example_runs:
  "\<exists>t. labelled_runs sem_step sem_example [Sem_Tau, Sem_Tau, Sem_Tau, Released 1, Taken 0] t"
proof -
  let ?a = "ws_goto 0 (Sem_Take (- 1)) sem_example"
  let ?b = "sem_run 0 ?a"
  let ?c = "ws_goto 1 Sem_Release ?b"
  let ?d = "sem_run 1 ?c"
  have e: "ws_pc sem_example 0 = Sem_Out 0" "ws_pc ?b 1 = Sem_Out 0"
    by code_simp+
  have l: "\<not> th_suspended (ws_thread ?a 0)" "\<not> th_suspended (ws_thread ?c 1)" "\<not> th_suspended (ws_thread ?d 0)"
    "sem_label 0 ?a = Sem_Tau" "sem_label 1 ?c = Released 1" "sem_label 0 ?d = Taken 0"
    by code_simp+
  have "labelled_runs sem_step sem_example ((((([] @ [Sem_Tau]) @ [Sem_Tau]) @ [Sem_Tau]) @ [Released 1]) @ [Taken 0]) (sem_run 0 ?d)"
    using sem_runs [OF l(1)] sem_runs [OF l(2)] sem_runs [OF l(3)] sem_calls [OF e(1), of "Sem_Take (- 1)"]
      sem_calls [OF e(2), of Sem_Release] l(4-6)
    by (intro runs_snoc) (simp_all add: runs_nil)
  then show ?thesis
    by auto
qed

theorem sem_conserved_witness:
  "\<exists>t. labelled_runs sem_step sem_example [Sem_Tau, Sem_Tau, Sem_Tau, Released 1, Taken 0] t \<and> sm_value t = 0 \<and>
     (\<exists>u. rt_sem_control True 1 t = Some (RT_EOK, u) \<and> sm_value u = 1)"
proof -
  obtain t where t: "labelled_runs sem_step sem_example [Sem_Tau, Sem_Tau, Sem_Tau, Released 1, Taken 0] t"
    using sem_example_runs by blast
  have "Sem_Reset \<notin> set [Sem_Tau, Sem_Tau, Sem_Tau, Released 1, Taken 0]"
    by simp
  from sem_conserved [OF sem_example_created t this, of 1] have "unat (sm_value t) = 0"
    "\<exists>u. rt_sem_control True 1 t = Some (RT_EOK, u) \<and> sm_value u = 1"
    by auto
  with t show ?thesis
    by (auto simp: unat_eq_zero)
qed

end
