(* ===== verification/RtMutex.thy ===== *)
theory RtMutex
  imports RtWaiting
begin

text \<open>
  The mutex of \<open>src/rt-thread/src/ipc.c\<close>, under which all modules of the application keep their state. It is
  recursive, it is handed to the first thread that waits, and its owner inherits the priority of the threads
  that wait. \<open>ownership\<close> is the interface: what is held by one thread is not held by another.
\<close>

section \<open>Interface\<close>

datatype lock_label = Lock_Tau | Locked nat | Unlocked nat

text \<open>How often a thread has taken the lock and not released it.\<close>

definition times_locked :: "lock_label list \<Rightarrow> nat \<Rightarrow> nat" where
  "times_locked ls t = count_list ls (Locked t) - count_list ls (Unlocked t)"

fun depth_after :: "lock_label \<Rightarrow> (nat \<Rightarrow> nat) \<Rightarrow> nat \<Rightarrow> nat" where
  "depth_after Lock_Tau d = d"
| "depth_after (Locked t) d = d(t := d t + 1)"
| "depth_after (Unlocked t) d = d(t := d t - 1)"

locale ownership =
  fixes step :: "'s \<Rightarrow> lock_label \<Rightarrow> 's \<Rightarrow> bool" and depth :: "'s \<Rightarrow> nat \<Rightarrow> nat" and good :: "'s \<Rightarrow> bool"
  assumes step_good: "good s \<Longrightarrow> step s l t \<Longrightarrow> good t"
    and step_depth: "good s \<Longrightarrow> step s l t \<Longrightarrow> depth t = depth_after l (depth s)"
    and step_owned: "good s \<Longrightarrow> step s (Unlocked n) t \<Longrightarrow> 0 < depth s n"
    and one_owner: "good s \<Longrightarrow> 0 < depth s n \<Longrightarrow> 0 < depth s m \<Longrightarrow> n = m"
begin

lemma runs_good: "labelled_runs step s ls t \<Longrightarrow> good s \<Longrightarrow> good t"
  by (erule labelled_runs_keep) (auto intro: step_good)

lemma runs_depth:
  assumes "labelled_runs step s ls t" "good s"
  shows "depth t n + count_list ls (Unlocked n) = depth s n + count_list ls (Locked n)"
  using assms
proof (induction rule: labelled_runs.induct)
  case (runs_snoc s ls t l u)
  have t: "good t"
    using runs_snoc by (blast intro: runs_good)
  have "depth u = depth_after l (depth t)" "\<And>m. l = Unlocked m \<Longrightarrow> 0 < depth t m"
    using step_depth [OF t runs_snoc(2)] step_owned [OF t] runs_snoc(2) by auto
  with runs_snoc show ?case
    by (cases l) auto
qed simp

lemma runs_exclusive:
  assumes "labelled_runs step s ls t" "good s" "\<And>n. depth s n = 0"
  shows "depth t n = times_locked ls n" "count_list ls (Unlocked n) \<le> count_list ls (Locked n)"
    "0 < times_locked ls n \<Longrightarrow> 0 < times_locked ls m \<Longrightarrow> n = m"
proof -
  have d: "depth t n + count_list ls (Unlocked n) = count_list ls (Locked n)" for n
    using runs_depth [OF assms(1,2), of n] assms(3) by simp
  then show eq: "depth t n = times_locked ls n" "count_list ls (Unlocked n) \<le> count_list ls (Locked n)" for n
    unfolding times_locked_def by (metis add_diff_cancel_right' , metis le_add2)
  show "0 < times_locked ls n \<Longrightarrow> 0 < times_locked ls m \<Longrightarrow> n = m"
    using one_owner [OF runs_good [OF assms(1,2)], of n m] by (simp add: eq(1))
qed

end

section \<open>The mutex\<close>

datatype mutex_pc = Mutex_Out rt_err | Mutex_Take int | Mutex_Wait | Mutex_Release

record mutex_sys = "mutex_pc wait_sys" +
  mu_value :: u16
  mu_original_priority :: u8
  mu_hold :: u8
  mu_owner :: "nat option"

definition RT_MUTEX_VALUE_MAX :: u16 where "RT_MUTEX_VALUE_MAX = 65535"
definition RT_MUTEX_HOLD_MAX :: u8 where "RT_MUTEX_HOLD_MAX = 255"

text \<open>\<open>rt_mutex_init\<close> and \<open>rt_mutex_create\<close>; the flag of the caller is not used. \<open>None\<close>: there is no memory.\<close>

definition rt_mutex_init :: "rt_ipc_flag \<Rightarrow> mutex_sys \<Rightarrow> mutex_sys" where
  "rt_mutex_init flag s = s\<lparr>ws_list := [], mu_value := 1, mu_owner := None, mu_original_priority := 0xFF,
     mu_hold := 0, ws_flag := RT_IPC_FLAG_PRIO\<rparr>"

definition rt_mutex_create :: "bool \<Rightarrow> rt_ipc_flag \<Rightarrow> mutex_sys \<Rightarrow> mutex_sys option" where
  "rt_mutex_create allocated flag s = (if \<not> allocated then None else Some (rt_mutex_init flag s))"

abbreviation mu_priority :: "mutex_sys \<Rightarrow> nat \<Rightarrow> u8" where
  "mu_priority s t \<equiv> th_priority (ws_thread s t)"

text \<open>\<open>rt_thread_control\<close> with \<open>RT_THREAD_CTRL_CHANGE_PRIORITY\<close>.\<close>

definition change_priority :: "nat \<Rightarrow> u8 \<Rightarrow> mutex_sys \<Rightarrow> mutex_sys" where
  "change_priority t p = ws_set t (\<lambda>th. th\<lparr>th_priority := p\<rparr>)"

text \<open>
  \<open>rt_mutex_take\<close> up to where it returns or waits, and when the thread was resumed. \<open>None\<close>: a null pointer is
  dereferenced.
\<close>

definition mutex_hold :: "nat \<Rightarrow> mutex_sys \<Rightarrow> mutex_sys" where
  "mutex_hold t s =
     (if mu_hold s < RT_MUTEX_HOLD_MAX then ws_goto t (Mutex_Out RT_EOK) (s\<lparr>mu_hold := mu_hold s + 1\<rparr>)
      else ws_goto t (Mutex_Out (- RT_EFULL)) s)"

definition mutex_take :: "nat \<Rightarrow> int \<Rightarrow> mutex_sys \<Rightarrow> mutex_sys option" where
  "mutex_take t time s =
     (let s = ws_error t RT_EOK s
      in if mu_owner s = Some t then Some (mutex_hold t s)
         else if mu_value s > 0
         then Some (mutex_hold t (s\<lparr>mu_value := mu_value s - 1, mu_owner := Some t,
                mu_original_priority := mu_priority s t\<rparr>))
         else if time = 0 then Some (ws_goto t (Mutex_Out (- RT_ETIMEOUT)) (ws_error t (- RT_ETIMEOUT) s))
         else case mu_owner s of
           None \<Rightarrow> None
         | Some n \<Rightarrow>
             let s = (if mu_priority s t < mu_priority s n then change_priority n (mu_priority s t) s else s)
             in Some (ws_suspend t time (ws_goto t Mutex_Wait s)))"

definition mutex_taken :: "nat \<Rightarrow> mutex_sys \<Rightarrow> mutex_sys" where
  "mutex_taken t s =
     (if th_error (ws_thread s t) \<noteq> RT_EOK then ws_goto t (Mutex_Out (th_error (ws_thread s t))) s
      else ws_goto t (Mutex_Out RT_EOK) s)"

text \<open>\<open>rt_mutex_release\<close>: the owner is the running thread when its priority is restored.\<close>

definition mutex_pass :: "nat \<Rightarrow> mutex_sys \<Rightarrow> mutex_sys" where
  "mutex_pass t s =
     (case ws_list s of
        w # _ \<Rightarrow>
          let s = s\<lparr>mu_owner := Some w, mu_original_priority := mu_priority s w\<rparr>
          in if mu_hold s < RT_MUTEX_HOLD_MAX
             then ws_goto t (Mutex_Out RT_EOK) (ws_wake (s\<lparr>mu_hold := mu_hold s + 1\<rparr>))
             else ws_goto t (Mutex_Out (- RT_EFULL)) s
      | [] \<Rightarrow>
          if mu_value s < RT_MUTEX_VALUE_MAX
          then ws_goto t (Mutex_Out RT_EOK)
            (s\<lparr>mu_value := mu_value s + 1, mu_owner := None, mu_original_priority := 0xFF\<rparr>)
          else ws_goto t (Mutex_Out (- RT_EFULL)) s)"

definition rt_mutex_release :: "nat \<Rightarrow> mutex_sys \<Rightarrow> mutex_sys" where
  "rt_mutex_release t s =
     (if mu_owner s \<noteq> Some t then ws_goto t (Mutex_Out (- RT_ERROR)) (ws_error t (- RT_ERROR) s)
      else let s = s\<lparr>mu_hold := mu_hold s - 1\<rparr>
           in if mu_hold s = 0
              then mutex_pass t (if mu_original_priority s \<noteq> mu_priority s t
                then change_priority t (mu_original_priority s) s else s)
              else ws_goto t (Mutex_Out RT_EOK) s)"

text \<open>\<open>rt_mutex_detach\<close> and \<open>rt_mutex_delete\<close>; \<open>None\<close>: they do not return. \<open>rt_mutex_control\<close> does nothing.\<close>

definition rt_mutex_detach :: "mutex_sys \<Rightarrow> (rt_err \<times> mutex_sys) option" where
  "rt_mutex_detach s = do { s \<leftarrow> ws_resume_all s; Some (RT_EOK, s) }"

definition rt_mutex_delete :: "mutex_sys \<Rightarrow> (rt_err \<times> mutex_sys) option" where
  "rt_mutex_delete s = do { s \<leftarrow> ws_resume_all s; Some (RT_EOK, s) }"

definition mutex_run :: "nat \<Rightarrow> mutex_sys \<Rightarrow> mutex_sys option" where
  "mutex_run t s =
     (case ws_pc s t of
        Mutex_Out e \<Rightarrow> Some s
      | Mutex_Take time \<Rightarrow> mutex_take t time s
      | Mutex_Wait \<Rightarrow> Some (mutex_taken t s)
      | Mutex_Release \<Rightarrow> Some (rt_mutex_release t s))"

text \<open>A call that returns \<open>RT_EOK\<close> has taken or released the mutex.\<close>

definition mutex_label :: "nat \<Rightarrow> mutex_sys \<Rightarrow> mutex_sys \<Rightarrow> lock_label" where
  "mutex_label t s u =
     (if ws_pc u t \<noteq> Mutex_Out RT_EOK then Lock_Tau
      else case ws_pc s t of
        Mutex_Out e \<Rightarrow> Lock_Tau
      | Mutex_Release \<Rightarrow> Unlocked t
      | _ \<Rightarrow> Locked t)"

text \<open>
  A thread that is in no call makes one; a thread that is not suspended runs; a timer expires. Priorities
  are changed by the mutex only.
\<close>

inductive mutex_step :: "mutex_sys \<Rightarrow> lock_label \<Rightarrow> mutex_sys \<Rightarrow> bool" where
  mutex_calls: "ws_pc s t = Mutex_Out e \<Longrightarrow> pc = Mutex_Release \<or> pc = Mutex_Take time \<Longrightarrow>
    mutex_step s Lock_Tau (ws_goto t pc s)"
| mutex_runs: "\<not> th_suspended (ws_thread s t) \<Longrightarrow> mutex_run t s = Some u \<Longrightarrow> mutex_step s (mutex_label t s u) u"
| mutex_expires: "th_timer (ws_thread s t) \<Longrightarrow> mutex_step s Lock_Tau (ws_timeout t s)"

section \<open>Invariant\<close>

text \<open>
  \<open>base\<close>: the priorities that the threads have when they do not own the mutex. The list is in the order of
  the priorities. A thread that was woken without an error is the owner, once. The owner has at least the
  priority of every thread that waits, and its own is what is restored in the end.
\<close>

definition mutex_inv :: "(nat \<Rightarrow> u8) \<Rightarrow> mutex_sys \<Rightarrow> bool" where
  "mutex_inv base s \<longleftrightarrow> ws_flag s = RT_IPC_FLAG_PRIO \<and>
     sorted_wrt (\<lambda>a b. mu_priority s a \<le> mu_priority s b) (ws_list s) \<and>
     (\<forall>t. ws_pc s t = Mutex_Wait \<longrightarrow> \<not> th_suspended (ws_thread s t) \<longrightarrow>
        (th_error (ws_thread s t) = RT_EOK \<longleftrightarrow> mu_owner s = Some t)) \<and>
     (\<forall>t. mu_owner s \<noteq> Some t \<longrightarrow> mu_priority s t = base t) \<and>
     (case mu_owner s of
        None \<Rightarrow> mu_value s = 1 \<and> mu_hold s = 0 \<and> ws_list s = []
      | Some n \<Rightarrow> mu_value s = 0 \<and> mu_hold s \<noteq> 0 \<and> \<not> th_suspended (ws_thread s n) \<and>
          (ws_pc s n = Mutex_Wait \<longrightarrow> mu_hold s = 1) \<and> mu_original_priority s = base n \<and>
          mu_priority s n \<le> base n \<and> (\<forall>w\<in>set (ws_list s). mu_priority s n \<le> mu_priority s w))"

definition mutex_ok :: "(nat \<Rightarrow> u8) \<Rightarrow> mutex_sys \<Rightarrow> bool" where
  "mutex_ok base s \<longleftrightarrow> ws_ok (\<lambda>pc. pc = Mutex_Wait) s \<and> mutex_inv base s"

definition mutex_depth :: "mutex_sys \<Rightarrow> nat \<Rightarrow> nat" where
  "mutex_depth s t = (if mu_owner s = Some t \<and> ws_pc s t \<noteq> Mutex_Wait then unat (mu_hold s) else 0)"

lemma mu_fields [simp]:
  "mu_value (ws_set t f s) = mu_value s" "mu_hold (ws_set t f s) = mu_hold s" "mu_owner (ws_set t f s) = mu_owner s"
  "mu_original_priority (ws_set t f s) = mu_original_priority s"
  "mu_value (ws_off t e s) = mu_value s" "mu_hold (ws_off t e s) = mu_hold s" "mu_owner (ws_off t e s) = mu_owner s"
  "mu_original_priority (ws_off t e s) = mu_original_priority s"
  "mu_value (ws_suspend t n s) = mu_value s" "mu_hold (ws_suspend t n s) = mu_hold s"
  "mu_owner (ws_suspend t n s) = mu_owner s" "mu_original_priority (ws_suspend t n s) = mu_original_priority s"
  by (simp_all add: ws_set_def ws_off_def ws_suspend_def)

lemma mutex_okD:
  assumes "mutex_ok base s"
  shows "ws_ok (\<lambda>pc. pc = Mutex_Wait) s" "mutex_inv base s"
    "ws_pc s t \<noteq> Mutex_Wait \<Longrightarrow> \<not> th_suspended (ws_thread s t)"
    "mu_owner s = None \<Longrightarrow> mu_value s = 1 \<and> mu_hold s = 0 \<and> ws_list s = []"
    "mu_owner s = Some n \<Longrightarrow> mu_value s = 0 \<and> mu_hold s \<noteq> 0 \<and> \<not> th_suspended (ws_thread s n)"
  using assms ws_okD(3) [of "\<lambda>pc. pc = Mutex_Wait" s t] by (auto simp: mutex_ok_def mutex_inv_def)

text \<open>A thread that is not suspended goes on to a place where it does not wait for the mutex.\<close>

lemma mutex_go:
  assumes "mutex_ok base s" "\<not> th_suspended (ws_thread s t)"
    and f: "\<not> th_suspended (f (ws_thread s t))" "th_timer (f (ws_thread s t)) = th_timer (ws_thread s t)"
      "th_priority (f (ws_thread s t)) = th_priority (ws_thread s t)" "th_pc (f (ws_thread s t)) \<noteq> Mutex_Wait"
  shows "mutex_ok base (ws_set t f s)"
proof -
  define u where "u = ws_set t f s"
  have u: "mu_priority u m = mu_priority s m" "ws_list u = ws_list s" "m \<noteq> t \<Longrightarrow> ws_thread u m = ws_thread s m"
    "\<not> th_suspended (ws_thread u t)" "ws_pc u t \<noteq> Mutex_Wait" "ws_flag u = ws_flag s" "mu_owner u = mu_owner s"
    "mu_value u = mu_value s" "mu_hold u = mu_hold s" "mu_original_priority u = mu_original_priority s" for m
    using f by (simp_all add: u_def)
  have "\<forall>m. ws_pc u m = Mutex_Wait \<longrightarrow> \<not> th_suspended (ws_thread u m) \<longrightarrow>
      (th_error (ws_thread u m) = RT_EOK \<longleftrightarrow> mu_owner u = Some m)"
    using mutex_okD(2) [OF assms(1)] u(3,5) by (metis (no_types, lifting) mutex_inv_def u(7))
  moreover have "\<not> th_suspended (ws_thread u n) \<and> (ws_pc u n = Mutex_Wait \<longrightarrow> mu_hold u = 1)" if "mu_owner u = Some n" for n
    using mutex_okD(2) [OF assms(1)] that u(3) [of n] u(4,5) by (cases "n = t") (simp_all add: mutex_inv_def u(7,9))
  ultimately have "mutex_inv base u"
    using mutex_okD(2) [OF assms(1)] unfolding mutex_inv_def u(1,2,6-) by (simp split: option.splits)
  then show ?thesis
    using ws_set_ok [of _ s t f, OF mutex_okD(1) [OF assms(1)] assms(2) f(1,2)] by (simp add: mutex_ok_def u_def)
qed

lemma mutex_go_depth:
  assumes "ws_pc s t \<noteq> Mutex_Wait" "th_pc (f (ws_thread s t)) \<noteq> Mutex_Wait"
  shows "mutex_depth (ws_set t f s) = mutex_depth s"
  using assms by (auto simp: mutex_depth_def)

section \<open>Taking\<close>

lemma mutex_hold_ok:
  assumes ok: "mutex_ok base s" and t: "ws_pc s t \<noteq> Mutex_Wait" "mu_owner s = Some t"
  shows "mutex_ok base (mutex_hold t s)"
    "mutex_depth (mutex_hold t s) = depth_after (if ws_pc (mutex_hold t s) t = Mutex_Out RT_EOK then Locked t else Lock_Tau) (mutex_depth s)"
proof -
  have susp: "\<not> th_suspended (ws_thread s t)"
    using mutex_okD(3) [OF ok t(1)] .
  show "mutex_ok base (mutex_hold t s)"
  proof (cases "mu_hold s < RT_MUTEX_HOLD_MAX")
    case True
    then have "mu_hold s + 1 \<noteq> 0"
      by (auto simp: RT_MUTEX_HOLD_MAX_def word_less_nat_alt unat_word_ariths unat_eq_zero [symmetric])
    then have "mutex_ok base (s\<lparr>mu_hold := mu_hold s + 1\<rparr>)"
      using ok t by (auto simp: mutex_ok_def mutex_inv_def ws_ok_def)
    from mutex_go [OF this, of t] True susp show ?thesis
      by (simp add: mutex_hold_def)
  next
    case False
    then show ?thesis
      using mutex_go [OF ok susp] susp by (simp add: mutex_hold_def)
  qed
  have "unat (mu_hold s + 1) = unat (mu_hold s) + 1" if "mu_hold s < RT_MUTEX_HOLD_MAX"
    using that by (simp add: RT_MUTEX_HOLD_MAX_def word_less_nat_alt unat_word_ariths)
  then show "mutex_depth (mutex_hold t s) = depth_after (if ws_pc (mutex_hold t s) t = Mutex_Out RT_EOK then Locked t else Lock_Tau) (mutex_depth s)"
    using t by (auto simp: mutex_hold_def mutex_depth_def RT_EFULL_def RT_EOK_def)
qed

lemma mutex_acquire:
  assumes "mutex_ok base s" "mu_owner s = None" "ws_pc s t \<noteq> Mutex_Wait"
  shows "mutex_ok base (s\<lparr>mu_value := 0, mu_owner := Some t, mu_original_priority := mu_priority s t, mu_hold := 1\<rparr>)"
  using assms mutex_okD(3) [OF assms(1,3)] by (auto simp: mutex_ok_def mutex_inv_def ws_ok_def)

text \<open>The priority of the owner is raised; a thread is suspended.\<close>

lemma mutex_boost:
  assumes ok: "mutex_ok base s" and n: "mu_owner s = Some n" and p: "p < mu_priority s n"
    and le: "\<And>w. w \<in> set (ws_list s) \<Longrightarrow> p \<le> mu_priority s w"
  shows "mutex_ok base (change_priority n p s)"
proof -
  have susp: "\<not> th_suspended (ws_thread s n)"
    using mutex_okD(5) [OF ok n] by simp
  have not: "w \<noteq> n" if "w \<in> set (ws_list s)" for w
    using that ws_okD(2) [OF mutex_okD(1) [OF ok], of w] susp by auto
  have "sorted_wrt (\<lambda>a b. mu_priority s a \<le> mu_priority s b) (ws_list s)"
    using mutex_okD(2) [OF ok] by (simp add: mutex_inv_def)
  then have sorted: "sorted_wrt (\<lambda>a b. mu_priority (change_priority n p s) a \<le> mu_priority (change_priority n p s) b) (ws_list s)"
    by (rule sorted_wrt_mono_rel [rotated]) (use not in \<open>auto simp: change_priority_def\<close>)
  have "p \<le> base n"
    using mutex_okD(2) [OF ok] n less_imp_le [OF p] by (auto simp: mutex_inv_def intro: order.trans)
  moreover have "ws_ok (\<lambda>pc. pc = Mutex_Wait) (change_priority n p s)"
    unfolding change_priority_def by (rule ws_set_ok [OF mutex_okD(1) [OF ok] susp]) (simp_all add: susp)
  ultimately show ?thesis
    using mutex_okD(2) [OF ok] n not sorted le unfolding mutex_ok_def mutex_inv_def
    by (simp add: change_priority_def)
qed

lemma mutex_suspend:
  assumes ok: "mutex_ok base s" and n: "mu_owner s = Some n" "n \<noteq> t"
    and t: "ws_pc s t \<noteq> Mutex_Wait" "th_error (ws_thread s t) = RT_EOK" and le: "mu_priority s n \<le> mu_priority s t"
  shows "mutex_ok base (ws_suspend t time (ws_goto t Mutex_Wait s))"
proof -
  let ?s = "ws_goto t Mutex_Wait s"
  have susp: "\<not> th_suspended (ws_thread s t)"
    using mutex_okD(3) [OF ok t(1)] .
  have s: "ws_ok (\<lambda>pc. pc = Mutex_Wait) ?s"
    by (rule ws_set_ok [OF mutex_okD(1) [OF ok] susp]) (simp_all add: susp)
  have ws: "ws_ok (\<lambda>pc. pc = Mutex_Wait) (ws_suspend t time ?s)"
    by (rule ws_suspend_ok(1) [OF s]) (simp_all add: susp t(2))
  have p: "mu_priority (ws_suspend t time ?s) m = mu_priority s m" for m
    by (simp add: ws_suspend_def)
  have list: "ws_list (ws_suspend t time ?s) = ipc_list_insert RT_IPC_FLAG_PRIO (mu_priority s) t (ws_list s)"
  proof -
    have "mu_priority ?s = mu_priority s"
      by auto
    then show ?thesis
      using mutex_okD(2) [OF ok] unfolding mutex_inv_def by (simp add: ws_suspend_def del: ws_set_fields(3))
  qed
  define u where "u = ws_suspend t time ?s"
  have u: "mu_priority u m = mu_priority s m" "ws_list u = ipc_list_insert RT_IPC_FLAG_PRIO (mu_priority s) t (ws_list s)"
    "m \<noteq> t \<Longrightarrow> ws_thread u m = ws_thread s m" "th_suspended (ws_thread u t)" "ws_flag u = ws_flag s"
    "mu_owner u = mu_owner s" "mu_value u = mu_value s" "mu_hold u = mu_hold s"
    "mu_original_priority u = mu_original_priority s" for m
    using p list by (simp_all add: u_def) (simp_all add: ws_suspend_def)
  have "\<forall>m. ws_pc u m = Mutex_Wait \<longrightarrow> \<not> th_suspended (ws_thread u m) \<longrightarrow>
      (th_error (ws_thread u m) = RT_EOK \<longleftrightarrow> mu_owner u = Some m)"
  proof (intro allI impI)
    fix m
    assume m: "ws_pc u m = Mutex_Wait" "\<not> th_suspended (ws_thread u m)"
    then have "m \<noteq> t"
      using u(4) by auto
    with m show "th_error (ws_thread u m) = RT_EOK \<longleftrightarrow> mu_owner u = Some m"
      using mutex_okD(2) [OF ok] by (simp add: mutex_inv_def u(3,6))
  qed
  moreover have "sorted_wrt (\<lambda>a b. mu_priority u a \<le> mu_priority u b) (ws_list u)"
    unfolding u(1,2) using mutex_okD(2) [OF ok] by (intro insert_sorted_prio) (simp add: mutex_inv_def)
  moreover have "\<forall>w\<in>set (ws_list u). mu_priority s n \<le> mu_priority s w"
    using mutex_okD(2) [OF ok] n le by (auto simp: u(2) insert_props mutex_inv_def)
  ultimately have "mutex_inv base u"
    using mutex_okD(2) [OF ok] n unfolding mutex_inv_def by (simp add: u(1,3,5-))
  then show ?thesis
    using ws by (simp add: mutex_ok_def u_def)
qed

lemma mutex_take_ok:
  assumes ok: "mutex_ok base s" and t: "ws_pc s t = Mutex_Take time"
  shows "\<exists>u. mutex_take t time s = Some u \<and> mutex_ok base u \<and>
    mutex_depth u = depth_after (if ws_pc u t = Mutex_Out RT_EOK then Locked t else Lock_Tau) (mutex_depth s)"
proof -
  let ?s = "ws_error t RT_EOK s"
  have susp: "\<not> th_suspended (ws_thread s t)"
    using mutex_okD(3) [OF ok] t by simp
  have s: "mutex_ok base ?s" "mutex_depth ?s = mutex_depth s" "ws_pc ?s t \<noteq> Mutex_Wait"
    using mutex_go [OF ok susp, of "\<lambda>th. th\<lparr>th_error := RT_EOK\<rparr>"] mutex_go_depth [of s t] susp t by simp_all
  consider (again) "mu_owner s = Some t" | (free) "mu_owner s = None" | (taken) n where "mu_owner s = Some n" "n \<noteq> t"
    by (cases "mu_owner s") auto
  then show ?thesis
  proof cases
    case again
    then show ?thesis
      using mutex_hold_ok [OF s(1,3)] s(2) by (simp add: mutex_take_def)
  next
    case free
    let ?u = "?s\<lparr>mu_value := 0, mu_owner := Some t, mu_original_priority := mu_priority ?s t, mu_hold := 1\<rparr>"
    have none: "mu_value s = 1" "mu_hold s = 0"
      using mutex_okD(4) [OF ok free] by simp_all
    have "mutex_ok base ?u"
      using mutex_acquire [OF s(1) _ s(3)] free by simp
    from mutex_go [OF this, of t "\<lambda>th. th\<lparr>th_pc := Mutex_Out RT_EOK\<rparr>"] susp
    have "mutex_ok base (ws_goto t (Mutex_Out RT_EOK) ?u)"
      by simp
    moreover have "mutex_take t time s = Some (ws_goto t (Mutex_Out RT_EOK) ?u)"
      using free none by (simp add: mutex_take_def mutex_hold_def RT_MUTEX_HOLD_MAX_def)
    moreover have "mutex_depth (ws_goto t (Mutex_Out RT_EOK) ?u) = (mutex_depth s)(t := mutex_depth s t + 1)"
      using free by (auto simp: mutex_depth_def)
    ultimately show ?thesis
      by simp
  next
    case taken
    have v: "mu_value s = 0"
      using mutex_okD(5) [OF ok taken(1)] by simp
    show ?thesis
    proof (cases "time = 0")
      case True
      have e: "mutex_ok base (ws_error t (- RT_ETIMEOUT) ?s)"
        by (rule mutex_go [OF s(1)]) (use susp t in simp_all)
      have "mutex_ok base (ws_goto t (Mutex_Out (- RT_ETIMEOUT)) (ws_error t (- RT_ETIMEOUT) ?s))"
        by (rule mutex_go [OF e]) (use susp t in simp_all)
      moreover have "mutex_depth (ws_goto t (Mutex_Out (- RT_ETIMEOUT)) (ws_error t (- RT_ETIMEOUT) ?s)) = mutex_depth s"
        using t by (auto simp: mutex_depth_def)
      ultimately show ?thesis
        using True v taken by (simp add: mutex_take_def RT_ETIMEOUT_def RT_EOK_def)
    next
      case False
      let ?p = "mu_priority s t"
      let ?b = "if ?p < mu_priority ?s n then change_priority n ?p ?s else ?s"
      have le: "mu_priority s n \<le> mu_priority s w" if "w \<in> set (ws_list s)" for w
        using mutex_okD(2) [OF ok] taken(1) that by (simp add: mutex_inv_def)
      have "?p \<le> mu_priority ?s w" if "?p < mu_priority ?s n" "w \<in> set (ws_list ?s)" for w
        using le [of w] that taken(2) by (auto split: if_splits)
      then have "mutex_ok base (change_priority n ?p ?s)" if "?p < mu_priority ?s n"
        using mutex_boost [OF s(1), of n ?p] that taken(1) by simp
      then have b: "mutex_ok base ?b" "mu_owner ?b = Some n" "ws_pc ?b t \<noteq> Mutex_Wait"
        "th_error (ws_thread ?b t) = RT_EOK" "mu_priority ?b n \<le> mu_priority ?b t"
        using s(1) taken t by (auto simp: change_priority_def)
      have "mutex_take t time s = Some (ws_suspend t time (ws_goto t Mutex_Wait ?b))"
        using False v taken by (simp add: mutex_take_def Let_def)
      moreover have "mutex_depth (ws_suspend t time (ws_goto t Mutex_Wait ?b)) = mutex_depth s"
        using taken t by (auto simp: mutex_depth_def ws_suspend_def change_priority_def)
      moreover have "ws_pc (ws_suspend t time (ws_goto t Mutex_Wait ?b)) t = Mutex_Wait"
        by (simp add: ws_suspend_def)
      ultimately show ?thesis
        using mutex_suspend [OF b(1,2) taken(2) b(3-5), of time] by simp
    qed
  qed
qed

lemma mutex_taken_ok:
  assumes ok: "mutex_ok base s" and t: "ws_pc s t = Mutex_Wait" "\<not> th_suspended (ws_thread s t)"
  shows "mutex_ok base (mutex_taken t s)"
    "mutex_depth (mutex_taken t s) = depth_after (if ws_pc (mutex_taken t s) t = Mutex_Out RT_EOK then Locked t else Lock_Tau) (mutex_depth s)"
proof -
  let ?e = "th_error (ws_thread s t)"
  have u: "mutex_taken t s = ws_goto t (Mutex_Out ?e) s"
    by (simp add: mutex_taken_def)
  show "mutex_ok base (mutex_taken t s)"
    unfolding u by (rule mutex_go [OF ok t(2)]) (use t in simp_all)
  have "?e = RT_EOK \<longleftrightarrow> mu_owner s = Some t" "mu_owner s = Some t \<Longrightarrow> mu_hold s = 1"
    using mutex_okD(2) [OF ok] t by (auto simp: mutex_inv_def)
  then show "mutex_depth (mutex_taken t s) = depth_after (if ws_pc (mutex_taken t s) t = Mutex_Out RT_EOK then Locked t else Lock_Tau) (mutex_depth s)"
    unfolding u using t by (auto simp: mutex_depth_def)
qed

section \<open>Releasing\<close>

text \<open>The priority of the owner is restored.\<close>

definition mutex_restore :: "nat \<Rightarrow> mutex_sys \<Rightarrow> mutex_sys" where
  "mutex_restore t s = (if mu_original_priority s \<noteq> mu_priority s t then change_priority t (mu_original_priority s) s else s)"

lemma mutex_restore_fields [simp]:
  "ws_list (mutex_restore t s) = ws_list s" "ws_flag (mutex_restore t s) = ws_flag s"
  "ws_thread (mutex_restore t s) = (ws_thread s)(t := (ws_thread s t)\<lparr>th_priority := mu_original_priority s\<rparr>)"
  "mu_value (mutex_restore t s) = mu_value s" "mu_hold (mutex_restore t s) = mu_hold s"
  by (auto simp: mutex_restore_def change_priority_def)

lemma mutex_restore_ws: "ws_ok waits s \<Longrightarrow> ws_ok waits (mutex_restore t s)"
  by (auto simp: ws_ok_def)

text \<open>No thread waits: the mutex is free.\<close>

lemma mutex_free_ok:
  assumes ok: "mutex_ok base s" and t: "ws_pc s t = Mutex_Release" "mu_owner s = Some t" and none: "ws_list s = []"
  shows "mutex_ok base (ws_goto t (Mutex_Out RT_EOK) ((mutex_restore t (s\<lparr>mu_hold := 0\<rparr>))
    \<lparr>mu_value := 1, mu_owner := None, mu_original_priority := 0xFF\<rparr>))"
proof -
  define u where "u = ws_goto t (Mutex_Out RT_EOK) ((mutex_restore t (s\<lparr>mu_hold := 0\<rparr>))
    \<lparr>mu_value := 1, mu_owner := None, mu_original_priority := 0xFF\<rparr>)"
  have inv: "mutex_inv base s" and "\<And>m. \<not> th_suspended (ws_thread s m)" "\<And>m. \<not> th_timer (ws_thread s m)"
    using ok none ws_okD(2,5) [OF mutex_okD(1) [OF ok]] by (auto simp: mutex_ok_def)
  then have "ws_ok (\<lambda>pc. pc = Mutex_Wait) u"
    by (simp add: ws_ok_def u_def none)
  moreover have "mutex_inv base u"
    using inv t none by (simp add: mutex_inv_def u_def)
  ultimately show ?thesis
    by (simp add: mutex_ok_def u_def)
qed

text \<open>The first thread that waits becomes the owner.\<close>

lemma mutex_handover:
  assumes ok: "mutex_ok base s" and t: "ws_pc s t = Mutex_Release" "mu_owner s = Some t" and list: "ws_list s = w # ws"
  defines "u \<equiv> ws_goto t (Mutex_Out RT_EOK) (ws_wake ((mutex_restore t (s\<lparr>mu_hold := 0\<rparr>))
    \<lparr>mu_owner := Some w, mu_original_priority := mu_priority s w, mu_hold := 1\<rparr>))"
  shows "mutex_ok base u" "mu_owner u = Some w" "ws_pc u t = Mutex_Out RT_EOK" "mutex_depth u m = 0"
proof -
  let ?r = "(mutex_restore t (s\<lparr>mu_hold := 0\<rparr>))\<lparr>mu_owner := Some w, mu_original_priority := mu_priority s w, mu_hold := 1\<rparr>"
  have inv: "mutex_inv base s" and ws: "ws_ok (\<lambda>pc. pc = Mutex_Wait) s"
    using ok by (simp_all add: mutex_ok_def)
  have r: "ws_ok (\<lambda>pc. pc = Mutex_Wait) ?r"
    using mutex_restore_ws [OF ws, of t] by (auto simp: ws_ok_def)
  have w: "ws_pc s w = Mutex_Wait" "w \<noteq> t" "w \<notin> set ws"
    using ws_okD(1) [OF ws] ws_okD(2,3) [OF ws, of w] t(1) list by auto
  have wake: "ws_wake ?r = ws_off w RT_EOK ?r"
    using ws_wake_cases [OF r] list by simp
  have susp: "\<not> th_suspended (ws_thread s t)"
    using mutex_okD(3) [OF ok, of t] t(1) by simp
  have u: "ws_list u = ws" "ws_flag u = ws_flag s" "mu_owner u = Some w" "mu_original_priority u = mu_priority s w"
    "mu_hold u = 1" "mu_value u = mu_value s"
    "ws_thread u = (ws_thread s)(t := (ws_thread s t)\<lparr>th_priority := mu_original_priority s, th_pc := Mutex_Out RT_EOK\<rparr>,
       w := (ws_thread s w)\<lparr>th_error := RT_EOK, th_suspended := False, th_timer := False\<rparr>)"
    unfolding u_def wake using w list by (auto simp: fun_upd_twist)
  have "ws_ok (\<lambda>pc. pc = Mutex_Wait) u"
    unfolding u_def wake by (rule ws_set_ok [OF ws_off_ok [OF r]]) (use susp w in simp_all)
  moreover have "mutex_inv base u"
  proof -
    have p: "mu_priority u m = (if m = t then base t else mu_priority s m)" for m
      using inv t w by (simp add: u(7) mutex_inv_def)
    have "m \<noteq> t" if "m \<in> set ws" for m
      using that ws_okD(2) [OF ws, of m] list susp by auto
    then have p': "mu_priority u m = mu_priority s m" if "m \<in> set ws" for m
      using that by (simp add: p)
    have sorted: "sorted_wrt (\<lambda>a b. mu_priority s a \<le> mu_priority s b) ws" "\<forall>m\<in>set ws. mu_priority s w \<le> mu_priority s m"
      using inv list by (simp_all add: mutex_inv_def)
    have "sorted_wrt (\<lambda>a b. mu_priority u a \<le> mu_priority u b) ws"
      by (rule sorted_wrt_mono_rel [OF _ sorted(1)]) (simp add: p')
    moreover have "\<forall>m\<in>set ws. mu_priority s w \<le> mu_priority u m"
      using sorted(2) by (simp add: p')
    moreover have "\<forall>m. ws_pc u m = Mutex_Wait \<longrightarrow> \<not> th_suspended (ws_thread u m) \<longrightarrow>
        (th_error (ws_thread u m) = RT_EOK \<longleftrightarrow> Some w = Some m)"
      using inv t w by (auto simp: u(7) mutex_inv_def)
    moreover have "\<forall>m. m \<noteq> w \<longrightarrow> mu_priority u m = base m" "mu_priority u w = base w" "mu_priority s w = base w"
      using inv t w by (auto simp: p mutex_inv_def)
    moreover have "mu_value s = 0" "ws_flag s = RT_IPC_FLAG_PRIO"
      using inv t by (simp_all add: mutex_inv_def)
    moreover have "\<not> th_suspended (ws_thread u w)"
      by (simp add: u(7))
    ultimately show ?thesis
      unfolding mutex_inv_def u(1-6) option.case by simp
  qed
  ultimately show "mutex_ok base u"
    by (simp add: mutex_ok_def)
  show "mu_owner u = Some w" "ws_pc u t = Mutex_Out RT_EOK" "mutex_depth u m = 0"
    using u(3) w by (simp_all add: u(7) mutex_depth_def)
qed

lemma mutex_release_ok:
  assumes ok: "mutex_ok base s" and t: "ws_pc s t = Mutex_Release"
  shows "mutex_ok base (rt_mutex_release t s) \<and>
    mutex_depth (rt_mutex_release t s) = depth_after (if ws_pc (rt_mutex_release t s) t = Mutex_Out RT_EOK then Unlocked t else Lock_Tau) (mutex_depth s) \<and>
    (ws_pc (rt_mutex_release t s) t = Mutex_Out RT_EOK \<longrightarrow> 0 < mutex_depth s t)"
proof -
  have susp: "\<not> th_suspended (ws_thread s t)"
    using mutex_okD(3) [OF ok, of t] t(1) by simp
  consider (other) "mu_owner s \<noteq> Some t" | (again) "mu_owner s = Some t" "mu_hold s \<noteq> 1"
    | (free) "mu_owner s = Some t" "mu_hold s = 1" "ws_list s = []"
    | (pass) w ws where "mu_owner s = Some t" "mu_hold s = 1" "ws_list s = w # ws"
    by (cases "ws_list s") auto
  then show ?thesis
  proof cases
    case other
    have e: "mutex_ok base (ws_error t (- RT_ERROR) s)"
      by (rule mutex_go [OF ok susp]) (use susp t in simp_all)
    have "mutex_ok base (ws_goto t (Mutex_Out (- RT_ERROR)) (ws_error t (- RT_ERROR) s))"
      by (rule mutex_go [OF e]) (use susp in simp_all)
    then show ?thesis
      using other by (auto simp: rt_mutex_release_def mutex_depth_def RT_ERROR_def RT_EOK_def)
  next
    case again
    have h: "mu_hold s \<noteq> 0"
      using mutex_okD(5) [OF ok again(1)] by simp
    then have h1: "mu_hold s - 1 \<noteq> 0" "unat (mu_hold s - 1) = unat (mu_hold s) - 1"
      using again(2) unat_minus_one by auto
    have "mutex_ok base (s\<lparr>mu_hold := mu_hold s - 1\<rparr>)"
      using ok again t h1 by (auto simp: mutex_ok_def mutex_inv_def ws_ok_def)
    from mutex_go [OF this, of t "\<lambda>th. th\<lparr>th_pc := Mutex_Out RT_EOK\<rparr>"] susp
    show ?thesis
      using again t h h1 by (auto simp: rt_mutex_release_def mutex_depth_def unat_gt_0)
  next
    case free
    have v: "mu_value s = 0"
      using mutex_okD(5) [OF ok free(1)] by simp
    have "rt_mutex_release t s = ws_goto t (Mutex_Out RT_EOK) ((mutex_restore t (s\<lparr>mu_hold := 0\<rparr>))
        \<lparr>mu_value := 1, mu_owner := None, mu_original_priority := 0xFF\<rparr>)"
      using free v by (simp add: rt_mutex_release_def mutex_pass_def mutex_restore_def RT_MUTEX_VALUE_MAX_def change_priority_def Let_def)
    then show ?thesis
      using mutex_free_ok [OF ok t free(1,3)] free t by (auto simp: mutex_depth_def)
  next
    case pass
    have w: "w \<noteq> t"
      using ws_okD(2) [OF mutex_okD(1) [OF ok], of w] pass(3) susp by auto
    have "rt_mutex_release t s = ws_goto t (Mutex_Out RT_EOK) (ws_wake ((mutex_restore t (s\<lparr>mu_hold := 0\<rparr>))
        \<lparr>mu_owner := Some w, mu_original_priority := mu_priority s w, mu_hold := 1\<rparr>))"
      using pass w by (simp add: rt_mutex_release_def mutex_pass_def mutex_restore_def RT_MUTEX_HOLD_MAX_def change_priority_def Let_def)
    then show ?thesis
      using mutex_handover [OF ok t pass(1,3)] pass t by (simp del: ws_set_fields(3)) (auto simp: mutex_depth_def)
  qed
qed

section \<open>Steps\<close>

text \<open>A timer expires.\<close>

lemma mutex_expire:
  assumes ok: "mutex_ok base s" and t: "th_timer (ws_thread s t)"
  shows "mutex_ok base (ws_timeout t s)" "mutex_depth (ws_timeout t s) = mutex_depth s"
proof -
  let ?u = "ws_off t (- RT_ETIMEOUT) s"
  have inv: "mutex_inv base s" and ws: "ws_ok (\<lambda>pc. pc = Mutex_Wait) s"
    using ok by (simp_all add: mutex_ok_def)
  have susp: "th_suspended (ws_thread s t)"
    using ws_okD(5) [OF ws t] .
  then have other: "mu_owner s \<noteq> Some t"
    using mutex_okD(5) [OF ok] by auto
  have p: "mu_priority ?u m = mu_priority s m" for m
    by simp
  have th: "m \<noteq> t \<Longrightarrow> ws_thread ?u m = ws_thread s m" for m
    by simp
  have "sorted_wrt (\<lambda>a b. mu_priority s a \<le> mu_priority s b) (filter (\<lambda>m. t \<noteq> m) (ws_list s))"
    using inv by (intro sorted_wrt_filter) (simp add: mutex_inv_def)
  moreover have "\<forall>m. ws_pc ?u m = Mutex_Wait \<longrightarrow> \<not> th_suspended (ws_thread ?u m) \<longrightarrow>
      (th_error (ws_thread ?u m) = RT_EOK \<longleftrightarrow> mu_owner s = Some m)"
    using inv other by (auto simp: mutex_inv_def RT_ETIMEOUT_def RT_EOK_def)
  moreover have "\<not> th_suspended (ws_thread ?u n)" if "mu_owner s = Some n" for n
    using that mutex_okD(5) [OF ok that] by simp
  ultimately have "mutex_inv base ?u"
    using inv unfolding mutex_inv_def p mu_fields ws_off_fields(1,2,4) removeAll_filter_not_eq by (auto split: option.splits)
  then show "mutex_ok base (ws_timeout t s)"
    using ws_off_ok [OF ws] by (simp add: mutex_ok_def ws_timeout_off)
  show "mutex_depth (ws_timeout t s) = mutex_depth s"
    by (auto simp: mutex_depth_def ws_timeout_off)
qed

lemma mutex_run_ok:
  assumes ok: "mutex_ok base s" and t: "\<not> th_suspended (ws_thread s t)"
  shows "\<exists>u. mutex_run t s = Some u \<and> mutex_ok base u \<and> mutex_depth u = depth_after (mutex_label t s u) (mutex_depth s) \<and>
    (\<forall>n. mutex_label t s u = Unlocked n \<longrightarrow> 0 < mutex_depth s n)"
proof (cases "ws_pc s t")
  case (Mutex_Out e)
  then show ?thesis
    using ok by (simp add: mutex_run_def mutex_label_def)
next
  case (Mutex_Take time)
  then show ?thesis
    using mutex_take_ok [OF ok Mutex_Take] by (auto simp: mutex_run_def mutex_label_def)
next
  case Mutex_Wait
  then show ?thesis
    using mutex_taken_ok [OF ok Mutex_Wait t] by (auto simp: mutex_run_def mutex_label_def)
next
  case Mutex_Release
  then show ?thesis
    using mutex_release_ok [OF ok Mutex_Release] by (auto simp: mutex_run_def mutex_label_def)
qed

lemma mutex_step_ok:
  assumes "mutex_step s l u" "mutex_ok base s"
  shows "mutex_ok base u \<and> mutex_depth u = depth_after l (mutex_depth s) \<and> (\<forall>n. l = Unlocked n \<longrightarrow> 0 < mutex_depth s n)"
  using assms
proof (induction rule: mutex_step.induct)
  case (mutex_calls s t e pc time)
  then have t: "\<not> th_suspended (ws_thread s t)" "pc \<noteq> Mutex_Wait" "ws_pc s t \<noteq> Mutex_Wait"
    using mutex_okD(3) [of base s t] by auto
  then show ?case
    using mutex_go [OF mutex_calls(3) t(1), of "\<lambda>th. th\<lparr>th_pc := pc\<rparr>"] mutex_go_depth [OF t(3), of "\<lambda>th. th\<lparr>th_pc := pc\<rparr>"]
    by simp
next
  case (mutex_runs s t u)
  then show ?case
    using mutex_run_ok [OF mutex_runs(3,1)] by auto
next
  case (mutex_expires s t)
  then show ?case
    using mutex_expire by auto
qed

interpretation mutex: ownership mutex_step mutex_depth "mutex_ok base" for base
proof
  show "mutex_ok base s \<Longrightarrow> mutex_step s l t \<Longrightarrow> mutex_ok base t"
    "mutex_ok base s \<Longrightarrow> mutex_step s l t \<Longrightarrow> mutex_depth t = depth_after l (mutex_depth s)"
    "mutex_ok base s \<Longrightarrow> mutex_step s (Unlocked n) t \<Longrightarrow> 0 < mutex_depth s n" for s l t n
    using mutex_step_ok by blast+
  show "mutex_ok base s \<Longrightarrow> 0 < mutex_depth s n \<Longrightarrow> 0 < mutex_depth s m \<Longrightarrow> n = m" for s n m
    by (auto simp: mutex_depth_def split: if_splits)
qed

section \<open>Properties\<close>

text \<open>A mutex as \<open>rt_mutex_init\<close> leaves it, and no thread in a call.\<close>

definition mutex_created :: "mutex_sys \<Rightarrow> bool" where
  "mutex_created s \<longleftrightarrow> (\<exists>flag s0. s = rt_mutex_init flag s0) \<and>
     (\<forall>t. (\<exists>e. ws_pc s t = Mutex_Out e) \<and> \<not> th_suspended (ws_thread s t) \<and> \<not> th_timer (ws_thread s t))"

lemma mutex_created_ok:
  assumes "mutex_created s"
  shows "mutex_ok (mu_priority s) s" "mutex_depth s n = 0"
proof -
  obtain flag s0 where s: "s = rt_mutex_init flag s0"
    using assms by (auto simp: mutex_created_def)
  have pc: "ws_pc s t \<noteq> Mutex_Wait" "\<not> th_suspended (ws_thread s t)" "\<not> th_timer (ws_thread s t)" for t
    using assms unfolding mutex_created_def by (metis mutex_pc.distinct(3))+
  have f: "ws_list s = []" "mu_value s = 1" "mu_owner s = None" "mu_hold s = 0" "ws_flag s = RT_IPC_FLAG_PRIO"
    by (simp_all add: s rt_mutex_init_def)
  then show "mutex_ok (mu_priority s) s" "mutex_depth s n = 0"
    using pc by (simp_all add: mutex_ok_def mutex_inv_def ws_ok_def mutex_depth_def)
qed

text \<open>
  C10: Mutual exclusion. Whatever the threads do in any order, whichever of them wait or run into a timeout:
  a mutex is released no more often than it is taken, by each thread; at most one thread holds it; that
  thread is the owner, and \<open>hold\<close> counts how often. While others wait there is an owner, which
  holds the mutex or was just handed it; no null pointer is followed.
\<close>

theorem mutex_exclusive:
  assumes "mutex_created s" and "labelled_runs mutex_step s ls t"
  shows "(\<forall>n. count_list ls (Unlocked n) \<le> count_list ls (Locked n)) \<and>
    (\<forall>n m. 0 < times_locked ls n \<and> 0 < times_locked ls m \<longrightarrow> n = m) \<and>
    (\<forall>n. 0 < times_locked ls n \<longrightarrow> mu_owner t = Some n \<and> unat (mu_hold t) = times_locked ls n) \<and>
    (ws_list t \<noteq> [] \<longrightarrow> (\<exists>n. mu_owner t = Some n \<and> \<not> th_suspended (ws_thread t n) \<and>
      (0 < times_locked ls n \<or> ws_pc t n = Mutex_Wait \<and> th_error (ws_thread t n) = RT_EOK))) \<and>
    (\<forall>n. \<not> th_suspended (ws_thread t n) \<longrightarrow> mutex_run n t \<noteq> None)"
proof -
  note s = mutex_created_ok [OF assms(1)]
  have ok: "mutex_ok (mu_priority s) t"
    using mutex.runs_good [OF assms(2) s(1)] .
  note excl = mutex.runs_exclusive [OF assms(2) s]
  have owner: "mu_owner t = Some n \<and> unat (mu_hold t) = times_locked ls n" if "0 < times_locked ls n" for n
    using that excl(1) [of n] by (simp add: mutex_depth_def split: if_splits)
  have "\<exists>n. mu_owner t = Some n \<and> \<not> th_suspended (ws_thread t n) \<and>
      (0 < times_locked ls n \<or> ws_pc t n = Mutex_Wait \<and> th_error (ws_thread t n) = RT_EOK)" if list: "ws_list t \<noteq> []"
  proof -
    obtain n where n: "mu_owner t = Some n"
      using mutex_okD(4) [OF ok] list by auto
    then have h: "mu_hold t \<noteq> 0" "\<not> th_suspended (ws_thread t n)"
      using mutex_okD(5) [OF ok] by simp_all
    show ?thesis
    proof (cases "ws_pc t n = Mutex_Wait")
      case True
      then have "th_error (ws_thread t n) = RT_EOK"
        using mutex_okD(2) [OF ok] n h by (simp add: mutex_inv_def)
      with True n h show ?thesis
        by blast
    next
      case False
      then have "0 < times_locked ls n"
        using excl(1) [of n] n h(1) unat_eq_zero [of "mu_hold t"] by (simp add: mutex_depth_def)
      with n h show ?thesis
        by blast
    qed
  qed
  then show ?thesis
    using excl(2,3) owner mutex_run_ok [OF ok] by (metis option.distinct(1))
qed

text \<open>Thread 0 holds the mutex, thread 1, of a higher priority, waits for it.\<close>

definition mutex_example :: mutex_sys where
  "mutex_example = rt_mutex_init RT_IPC_FLAG_FIFO \<lparr>ws_flag = RT_IPC_FLAG_FIFO, ws_list = [],
     ws_thread = (\<lambda>t. \<lparr>th_pc = Mutex_Out 0, th_error = 0, th_priority = (if t = 1 then 10 else 20),
       th_suspended = False, th_timer = False\<rparr>),
     mu_value = 0, mu_original_priority = 0, mu_hold = 0, mu_owner = None\<rparr>"

lemma mutex_example_created: "mutex_created mutex_example"
  unfolding mutex_created_def
  by (intro conjI exI [of _ RT_IPC_FLAG_FIFO] exI [of _ mutex_example]) (simp_all add: mutex_example_def rt_mutex_init_def)

lemma mutex_example_runs:
  "\<exists>t. labelled_runs mutex_step mutex_example [Lock_Tau, Locked 0, Lock_Tau, Lock_Tau] t \<and> ws_list t = [1] \<and> mu_owner t = Some 0"
proof -
  let ?a = "ws_goto 0 (Mutex_Take (- 1)) mutex_example"
  let ?b = "the (mutex_run 0 ?a)"
  let ?c = "ws_goto 1 (Mutex_Take (- 1)) ?b"
  let ?d = "the (mutex_run 1 ?c)"
  have "\<not> Option.is_none (mutex_run 0 ?a)" "\<not> Option.is_none (mutex_run 1 ?c)"
    by code_simp+
  then have b: "mutex_run 0 ?a = Some ?b" and d: "mutex_run 1 ?c = Some ?d"
    by (metis is_none_simps(1) option.exhaust_sel)+
  have e: "ws_pc mutex_example 0 = Mutex_Out 0" "ws_pc ?b 1 = Mutex_Out 0"
    by code_simp+
  have l: "\<not> th_suspended (ws_thread ?a 0)" "\<not> th_suspended (ws_thread ?c 1)"
    "mutex_label 0 ?a ?b = Locked 0" "mutex_label 1 ?c ?d = Lock_Tau"
    by code_simp+
  have "labelled_runs mutex_step mutex_example (((([] @ [Lock_Tau]) @ [Locked 0]) @ [Lock_Tau]) @ [Lock_Tau]) ?d"
    using mutex_runs [OF l(1) b, unfolded l(3)] mutex_runs [OF l(2) d, unfolded l(4)]
      mutex_calls [OF e(1), of "Mutex_Take (- 1)"] mutex_calls [OF e(2), of "Mutex_Take (- 1)"]
    by (intro runs_snoc) (simp_all add: runs_nil)
  moreover have "ws_list ?d = [1]" "mu_owner ?d = Some 0"
    by code_simp+
  ultimately show ?thesis
    by auto
qed

theorem mutex_exclusive_witness:
  "\<exists>t. labelled_runs mutex_step mutex_example [Lock_Tau, Locked 0, Lock_Tau, Lock_Tau] t \<and> ws_list t = [1] \<and>
     unat (mu_hold t) = 1"
proof -
  obtain t where t: "labelled_runs mutex_step mutex_example [Lock_Tau, Locked 0, Lock_Tau, Lock_Tau] t" "ws_list t = [1]"
    using mutex_example_runs by blast
  have "times_locked [Lock_Tau, Locked 0, Lock_Tau, Lock_Tau] 0 = 1"
    by (simp add: times_locked_def)
  with mutex_exclusive [OF mutex_example_created t(1)] have "unat (mu_hold t) = 1"
    by (metis zero_less_one)
  with t show ?thesis
    by blast
qed



end
